(* ===== verification/SBC_Prelude.thy ===== *)
theory SBC_Prelude
  imports Main "HOL-Library.Word" "HOL-Library.AList"
begin

text \<open>
  Shared material of the development: the collections the component theories feed, the types
  every layer of the engine uses (call legs and exchange outcomes, from
  \<^verbatim>\<open>engine/src/sip/sm/leg.hpp\<close> and \<^verbatim>\<open>engine/src/sip/sm/events.hpp\<close>), and
  generic lemmas on lists, options and association lists.
\<close>

named_theorems table_simps \<open>unfolding a transition table and the dispatch of one event\<close>
named_theorems count_simps \<open>counting calls in an action log\<close>

subsection \<open>Legs and exchange outcomes\<close>

datatype leg = Caller | Callee

definition other :: "leg \<Rightarrow> leg" where
  "other l = (if l = Caller then Callee else Caller)"

lemma other_simps [simp]: "other Caller = Callee" "other Callee = Caller"
  by (simp_all add: other_def)

lemma other_other [simp]: "other (other l) = l"
  by (cases l) simp_all

lemma other_neq [simp]: "other l \<noteq> l" "l \<noteq> other l"
  by (cases l; simp)+

datatype exchange_outcome = OPending | OCommitted | ORolledBack | OFailed

subsection \<open>Counting the calls of one kind in a log\<close>

definition calls :: "('a \<Rightarrow> bool) \<Rightarrow> 'a list \<Rightarrow> nat" where
  "calls p xs = length (filter p xs)"

lemma calls_Nil [simp]: "calls p [] = 0"
  by (simp add: calls_def)

lemma calls_append [simp, count_simps]: "calls p (xs @ ys) = calls p xs + calls p ys"
  by (simp add: calls_def)

lemma calls_Cons [simp, count_simps]: "calls p (x # xs) = (if p x then Suc (calls p xs) else calls p xs)"
  by (simp add: calls_def)

lemma calls_0_iff: "calls p xs = 0 \<longleftrightarrow> (\<forall>x \<in> set xs. \<not> p x)"
  by (simp add: calls_def filter_empty_conv)

subsection \<open>Searching by a key\<close>

lemma find_key_iff:
  assumes "distinct (map f xs)"
  shows "find (\<lambda>x. f x = k) xs = Some x \<longleftrightarrow> x \<in> set xs \<and> f x = k"
  using assms by (induction xs) (auto simp: image_iff)

lemma find_None_all: "find p xs = None \<longleftrightarrow> (\<forall>x \<in> set xs. \<not> p x)"
  by (auto simp: find_None_iff)

lemma find_SomeD: "find p xs = Some x \<Longrightarrow> x \<in> set xs \<and> p x"
  by (induction xs) (auto split: if_splits)

lemma find_unique:
  assumes "x \<in> set xs" "P x" "\<And>y. y \<in> set xs \<Longrightarrow> P y \<Longrightarrow> y = x"
  shows "find P xs = Some x"
proof (cases "find P xs")
  case None
  with assms(1,2) show ?thesis unfolding find_None_all by blast
next
  case (Some y)
  with assms(3) [of y] find_SomeD [OF Some] show ?thesis by simp
qed

subsection \<open>Association lists\<close>

lemma in_set_alist_update: "x \<in> set (AList.update k v al) \<Longrightarrow> x = (k, v) \<or> x \<in> set al"
  by (induction al) (auto split: if_splits)

lemma in_set_alist_delete: "x \<in> set (AList.delete k al) \<longleftrightarrow> x \<in> set al \<and> fst x \<noteq> k"
  by (auto simp: AList.delete_eq)

lemma map_of_filter_value:
  assumes "distinct (map fst al)"
  shows "map_of (filter (\<lambda>(k, v). P v) al) k = (case map_of al k of Some v \<Rightarrow> if P v then Some v else None | None \<Rightarrow> None)"
  using assms
proof (induction al)
  case (Cons x al)
  have "map_of (filter (\<lambda>(k, v). P v) al) (fst x) = None"
    using Cons.prems by (auto simp: map_of_eq_None_iff)
  with Cons show ?case by (auto split: option.splits)
qed simp

subsection \<open>Printing numbers\<close>

fun utoa :: "nat \<Rightarrow> string" where
  "utoa n = (if n < 10 then [char_of (48 + n)] else utoa (n div 10) @ [char_of (48 + n mod 10)])"

declare utoa.simps [simp del]

definition format_int :: "int \<Rightarrow> string" where
  "format_int i = (if i < 0 then ''-'' @ utoa (nat (- i)) else utoa (nat i))"

subsection \<open>Weights of event queues\<close>

abbreviation weight_of :: "('e \<Rightarrow> nat) \<Rightarrow> 'e list \<Rightarrow> nat" where
  "weight_of w es \<equiv> sum_list (map w es)"

lemma weight_of_mem: "e \<in> set es \<Longrightarrow> w e \<le> weight_of w es" for w :: "'e \<Rightarrow> nat"
  by (induction es) auto

end
