(* ===== verification/Codecs.thy ===== *)
theory Codecs
  imports SBC_Prelude
begin

text \<open>
  The codec policy: \<^verbatim>\<open>engine/src/protocols/supported_codecs.hpp\<close>, and the payload-type
  tables of \<^verbatim>\<open>engine/src/net/rtp/rtp_cpp.hpp\<close>.
\<close>

subsection \<open>Supported codecs, in negotiation priority order\<close>

record supported_codec =
  sc_name :: string
  sc_payload_type :: "8 word"
  sc_clock_rate :: "32 word"
  sc_rtp_clock_rate :: "32 word"

definition kSupportedCodecs :: "supported_codec list" where
  "kSupportedCodecs =
     [\<lparr>sc_name = ''G722'', sc_payload_type = 9, sc_clock_rate = 16000, sc_rtp_clock_rate = 8000\<rparr>,
      \<lparr>sc_name = ''PCMU'', sc_payload_type = 0, sc_clock_rate = 8000, sc_rtp_clock_rate = 8000\<rparr>,
      \<lparr>sc_name = ''PCMA'', sc_payload_type = 8, sc_clock_rate = 8000, sc_rtp_clock_rate = 8000\<rparr>]"

definition find_supported_codec_by_name :: "string \<Rightarrow> supported_codec option" where
  "find_supported_codec_by_name name = find (\<lambda>codec. sc_name codec = name) kSupportedCodecs"

definition find_supported_codec_by_payload_type :: "8 word \<Rightarrow> supported_codec option" where
  "find_supported_codec_by_payload_type pt = find (\<lambda>codec. sc_payload_type codec = pt) kSupportedCodecs"

definition supported_codec_names :: "string list" where
  "supported_codec_names = map sc_name kSupportedCodecs"

subsection \<open>RTP payload types\<close>

text \<open>The audio payload types of RFC 3551 with the names the library prints for them.\<close>

definition audio_pts :: "(8 word \<times> string) list" where
  "audio_pts =
     [(0, ''PCMU''), (3, ''GSM''), (4, ''G723''), (5, ''DVI (8000 hz)''), (6, ''DVI (16000 hz)''),
      (7, ''LPC''), (8, ''PCMA''), (9, ''G722''), (10, ''L16 (dual channel)''),
      (11, ''L16 (single channel)''), (12, ''QCELP''), (13, ''CN''), (14, ''MPA''), (15, ''G729''),
      (16, ''DVI4 (11020 hz)''), (17, ''DVI (22050 hz)''), (18, ''G729'')]"

definition video_pts :: "(8 word \<times> string) list" where
  "video_pts =
     [(25, ''CelB''), (26, ''JPEG''), (28, ''NV''), (31, ''H261''), (32, ''MPV''), (34, ''H263''),
      (33, ''MP2T'')]"

definition audio_pt_tostring :: "8 word \<Rightarrow> string" where
  "audio_pt_tostring pt = (case map_of audio_pts pt of Some name \<Rightarrow> name | None \<Rightarrow> [])"

definition video_pt_tostring :: "8 word \<Rightarrow> string" where
  "video_pt_tostring pt = (case map_of video_pts pt of Some name \<Rightarrow> name | None \<Rightarrow> [])"

definition is_audio_pt :: "8 word \<Rightarrow> bool" where
  "is_audio_pt pt \<longleftrightarrow> pt \<in> {0, 3, 4, 5, 6, 7, 8, 9, 10, 11, 12, 13, 14, 15, 16, 17, 18}"

definition is_video_pt :: "8 word \<Rightarrow> bool" where
  "is_video_pt pt \<longleftrightarrow> pt \<in> {25, 26, 28, 31, 32, 34}"

definition is_dynamic_rtp :: "8 word \<Rightarrow> bool" where
  "is_dynamic_rtp pt \<longleftrightarrow> 96 \<le> pt \<and> pt \<le> 127"

definition is_valid_pt :: "8 word \<Rightarrow> bool" where
  "is_valid_pt pt \<longleftrightarrow> is_audio_pt pt \<or> is_video_pt pt \<or> is_dynamic_rtp pt"

subsection \<open>The two lookups agree, and the policy matches the payload-type table\<close>

lemma supported_keys_distinct:
  "distinct (map sc_name kSupportedCodecs)" "distinct (map sc_payload_type kSupportedCodecs)"
  by (simp_all add: kSupportedCodecs_def)

lemma find_by_name_iff:
  "find_supported_codec_by_name name = Some codec \<longleftrightarrow> codec \<in> set kSupportedCodecs \<and> sc_name codec = name"
  unfolding find_supported_codec_by_name_def by (rule find_key_iff [OF supported_keys_distinct(1)])

lemma find_by_payload_type_iff:
  "find_supported_codec_by_payload_type pt = Some codec \<longleftrightarrow>
     codec \<in> set kSupportedCodecs \<and> sc_payload_type codec = pt"
  unfolding find_supported_codec_by_payload_type_def by (rule find_key_iff [OF supported_keys_distinct(2)])

lemma supported_codecs_all:
  "list_all P kSupportedCodecs \<longleftrightarrow>
     P \<lparr>sc_name = ''G722'', sc_payload_type = 9, sc_clock_rate = 16000, sc_rtp_clock_rate = 8000\<rparr> \<and>
     P \<lparr>sc_name = ''PCMU'', sc_payload_type = 0, sc_clock_rate = 8000, sc_rtp_clock_rate = 8000\<rparr> \<and>
     P \<lparr>sc_name = ''PCMA'', sc_payload_type = 8, sc_clock_rate = 8000, sc_rtp_clock_rate = 8000\<rparr>"
  by (simp only: kSupportedCodecs_def list.pred_inject simp_thms)

lemma supported_static_name:
  "list_all (\<lambda>codec. audio_pt_tostring (sc_payload_type codec) = sc_name codec) kSupportedCodecs"
  by (simp add: kSupportedCodecs_def audio_pt_tostring_def audio_pts_def)

end
