(* ===== verification/Extract_Utils.thy ===== *)
theory Extract_Utils
  imports SBC_Prelude
begin

text \<open>
  The string extraction helpers of \<^verbatim>\<open>engine/src/sip/router/extract_utils.cpp\<close>. Positions in a string
  are natural numbers and \<^verbatim>\<open>npos\<close> is \<open>None\<close>. A received message is a record of the fields the
  SIP stack hands over, null pointers being \<open>None\<close>; printing a URI is the stack's, and an argument.
\<close>

subsection \<open>Searching in strings\<close>

fun find_pos :: "('a \<Rightarrow> bool) \<Rightarrow> 'a list \<Rightarrow> nat option" where
  "find_pos P [] = None"
| "find_pos P (x # xs) = (if P x then Some 0 else map_option Suc (find_pos P xs))"

definition find_from :: "('a \<Rightarrow> bool) \<Rightarrow> 'a list \<Rightarrow> nat \<Rightarrow> nat option" where
  "find_from P xs start = map_option (\<lambda>i. start + i) (find_pos P (drop start xs))"

definition substr :: "'a list \<Rightarrow> nat \<Rightarrow> nat \<Rightarrow> 'a list" where
  "substr xs start len = take len (drop start xs)"

lemma find_pos_prefix [simp]:
  "\<forall>x \<in> set xs. \<not> P x \<Longrightarrow> P y \<Longrightarrow> find_pos P (xs @ y # ys) = Some (length xs)"
  by (induction xs) simp_all

lemma find_pos_None [simp]: "\<forall>x \<in> set xs. \<not> P x \<Longrightarrow> find_pos P xs = None"
  by (induction xs) simp_all

lemma find_pos_SomeD: "find_pos P xs = Some i \<Longrightarrow> i < length xs \<and> P (xs ! i) \<and> (\<forall>j < i. \<not> P (xs ! j))"
proof (induction xs arbitrary: i)
  case (Cons x xs)
  then show ?case by (cases i) (auto simp: nth_Cons split: if_splits nat.splits)
qed simp

lemma find_from_append: "find_from P (xs @ ys) (length xs) = map_option ((+) (length xs)) (find_pos P ys)"
  by (simp add: find_from_def)

lemma substr_middle [simp]: "substr (xs @ ys @ zs) (length xs) (length ys) = ys"
  by (simp add: substr_def)

subsection \<open>Case-insensitive comparison and white space\<close>

definition is_lws :: "char \<Rightarrow> bool" where
  "is_lws c \<longleftrightarrow> c = CHR '' '' \<or> c = CHR 0x09"

definition trim_lws :: "string \<Rightarrow> string" where
  "trim_lws value = rev (dropWhile is_lws (rev (dropWhile is_lws value)))"

definition tolower :: "char \<Rightarrow> char" where
  "tolower c = (if of_char c \<ge> (65 :: nat) \<and> of_char c \<le> (90 :: nat) then char_of (of_char c + 32 :: nat) else c)"

fun ascii_iequals :: "string \<Rightarrow> string \<Rightarrow> bool" where
  "ascii_iequals [] [] = True"
| "ascii_iequals (l # lhs) (r # rhs) = (if tolower l \<noteq> tolower r then False else ascii_iequals lhs rhs)"
| "ascii_iequals _ _ = False"

lemma ascii_iequals_map: "ascii_iequals lhs rhs \<longleftrightarrow> map tolower lhs = map tolower rhs"
  by (induction lhs rhs rule: ascii_iequals.induct) simp_all

lemma trim_lws_id:
  assumes "s = [] \<or> (\<not> is_lws (hd s) \<and> \<not> is_lws (last s))"
  shows "trim_lws s = s"
proof (cases s)
  case (Cons c cs)
  with assms have "\<not> is_lws c" "\<not> is_lws (last s)" by auto
  moreover have "rev s = last s # rev (butlast s)" using Cons by (metis append_butlast_last_id list.distinct(1) rev_eq_Cons_iff rev_rev_ident)
  ultimately have "dropWhile is_lws s = s" "dropWhile is_lws (rev s) = rev s"
    using Cons by (simp, metis dropWhile.simps(2))
  then show ?thesis by (simp add: trim_lws_def)
qed (simp add: trim_lws_def)

subsection \<open>Parts of a URI\<close>

definition extract_uri_user :: "string \<Rightarrow> string" where
  "extract_uri_user uri =
     (case (find_pos (\<lambda>c. c = CHR '':'') uri, find_pos (\<lambda>c. c = CHR ''@'') uri) of
        (Some scheme_end, Some at_pos) \<Rightarrow>
          if at_pos \<le> scheme_end then [] else substr uri (scheme_end + 1) (at_pos - scheme_end - 1)
      | _ \<Rightarrow> [])"

definition host_end :: "string \<Rightarrow> nat \<Rightarrow> string" where
  "host_end uri host_start =
     (let close = (if host_start < length uri \<and> uri ! host_start = CHR ''[''
                   then find_from (\<lambda>c. c = CHR '']'') uri (host_start + 1) else None) in
      case close of
        Some close \<Rightarrow> substr uri (host_start + 1) (close - host_start - 1)
      | None \<Rightarrow>
          let end' = (case find_from (\<lambda>c. c \<in> {CHR '':'', CHR '';'', CHR ''?''}) uri host_start of
                        Some e \<Rightarrow> e | None \<Rightarrow> length uri) in
          substr uri host_start (end' - host_start))"

definition extract_uri_host :: "string \<Rightarrow> string" where
  "extract_uri_host uri =
     (case find_pos (\<lambda>c. c = CHR ''@'') uri of
        None \<Rightarrow>
          (case find_pos (\<lambda>c. c = CHR '':'') uri of
             None \<Rightarrow> []
           | Some scheme_end \<Rightarrow> host_end uri (scheme_end + 1))
      | Some at_pos \<Rightarrow> host_end uri (at_pos + 1))"

definition make_aor :: "string \<Rightarrow> string \<Rightarrow> string" where
  "make_aor user host = user @ ''@'' @ host"

text \<open>The characters that end a host, and what may follow it.\<close>

definition host_stop :: "char \<Rightarrow> bool" where
  "host_stop c \<longleftrightarrow> c \<in> {CHR '':'', CHR '';'', CHR ''?''}"

definition plain_host :: "string \<Rightarrow> bool" where
  "plain_host host \<longleftrightarrow> list_all (\<lambda>c. \<not> host_stop c) host \<and> (host = [] \<or> hd host \<noteq> CHR ''['')"

definition uri_tail :: "string \<Rightarrow> bool" where
  "uri_tail rest \<longleftrightarrow> (case rest of [] \<Rightarrow> True | c # _ \<Rightarrow> host_stop c)"

lemma host_end_plain:
  assumes "plain_host host" "uri_tail rest"
  shows "host_end (pre @ host @ rest) (length pre) = host"
proof -
  let ?u = "pre @ host @ rest"
  have no_bracket: "\<not> (length pre < length ?u \<and> ?u ! length pre = CHR ''['')"
    using assms by (cases host; cases rest) (auto simp: plain_host_def uri_tail_def host_stop_def)
  have stop: "find_from (\<lambda>c. c \<in> {CHR '':'', CHR '';'', CHR ''?''}) ?u (length pre) =
      (if rest = [] then None else Some (length pre + length host))"
  proof (cases rest)
    case Nil
    then show ?thesis using assms by (simp add: find_from_append plain_host_def host_stop_def list_all_iff)
  next
    case (Cons c cs)
    then have "find_pos (\<lambda>c. c \<in> {CHR '':'', CHR '';'', CHR ''?''}) (host @ rest) = Some (length host)"
      using assms by (simp add: plain_host_def uri_tail_def host_stop_def list_all_iff)
    with Cons show ?thesis by (simp add: find_from_append)
  qed
  show ?thesis
    unfolding host_end_def if_not_P [OF no_bracket] Let_def stop by (simp add: substr_def)
qed

lemma host_end_bracketed:
  assumes "CHR '']'' \<notin> set host"
  shows "host_end (pre @ ''['' @ host @ '']'' @ rest) (length pre) = host"
proof -
  have "find_from (\<lambda>c. c = CHR '']'') ((pre @ ''['') @ host @ CHR '']'' # rest) (length (pre @ ''['')) =
      Some (length (pre @ ''['') + length host)"
    unfolding find_from_append using assms by (subst find_pos_prefix) auto
  then have close: "find_from (\<lambda>c. c = CHR '']'') (pre @ ''['' @ host @ '']'' @ rest) (length pre + 1) =
      Some (length pre + 1 + length host)"
    by simp
  have "substr ((pre @ ''['') @ host @ CHR '']'' # rest) (length (pre @ ''['')) (length host) = host"
    by (rule substr_middle)
  with close show ?thesis by (simp add: host_end_def)
qed

text \<open>For a SIP URI with a user part, the user and host the call router extracts are exactly the user
  and the host it was built from, whatever port, parameters or headers follow and also when the
  host is a bracketed IPv6 literal. So the address of record used to look up a call's destination is the
  one registration filed it under.\<close>

theorem uri_parts_roundtrip:
  assumes "CHR '':'' \<notin> set scheme" "CHR ''@'' \<notin> set scheme" "CHR ''@'' \<notin> set user"
    and "(if bracketed then CHR '']'' \<notin> set host else plain_host host \<and> uri_tail rest)"
    and "uri = scheme @ '':'' @ user @ ''@'' @ (if bracketed then ''['' @ host @ '']'' else host) @ rest"
  shows "extract_uri_user uri = user \<and> extract_uri_host uri = host \<and>
     make_aor (extract_uri_user uri) (extract_uri_host uri) = user @ ''@'' @ host"
proof -
  let ?auth = "(if bracketed then ''['' @ host @ '']'' else host) @ rest"
  have colon: "find_pos (\<lambda>c. c = CHR '':'') uri = Some (length scheme)"
    unfolding assms(5) append_Cons append_Nil using assms(1) by (intro find_pos_prefix) auto
  have "uri = (scheme @ '':'' @ user) @ CHR ''@'' # ?auth" using assms(5) by simp
  moreover have "\<forall>c \<in> set (scheme @ '':'' @ user). \<not> c = CHR ''@''" using assms(2,3) by auto
  ultimately have at: "find_pos (\<lambda>c. c = CHR ''@'') uri = Some (length scheme + 1 + length user)"
    by (simp only: find_pos_prefix) simp
  have "substr uri (length scheme + 1) (length user) = user"
    using substr_middle [of "scheme @ '':''" user "''@'' @ ?auth"] assms(5) by simp
  with colon at have u: "extract_uri_user uri = user" by (simp add: extract_uri_user_def)
  have "host_end uri (length scheme + 1 + length user + 1) = host"
  proof (cases bracketed)
    case True
    with assms host_end_bracketed [of host "scheme @ '':'' @ user @ ''@''" rest] show ?thesis by simp
  next
    case False
    with assms host_end_plain [of host rest "scheme @ '':'' @ user @ ''@''"] show ?thesis by simp
  qed
  with at have h: "extract_uri_host uri = host" by (simp add: extract_uri_host_def)
  from u h show ?thesis by (simp add: make_aor_def)
qed

theorem uri_parts_roundtrip_witness:
  "extract_uri_user ''sip:alice@[2001:db8::1]:5060'' = ''alice'' \<and>
   extract_uri_host ''sip:alice@[2001:db8::1]:5060'' = ''2001:db8::1''"
  using uri_parts_roundtrip [of "''sip''" "''alice''" True "''2001:db8::1''" "'':5060''"
      "''sip:alice@[2001:db8::1]:5060''"]
  by simp

subsection \<open>The Replaces header, read from the raw message\<close>

definition kReplacesName :: string where
  "kReplacesName = ''Replaces''"

abbreviation newline :: char where
  "newline \<equiv> CHR 0x0A"

definition strip_cr :: "string \<Rightarrow> string" where
  "strip_cr line = (if line \<noteq> [] \<and> last line = CHR 0x0D then butlast line else line)"

definition next_message :: "string \<Rightarrow> string" where
  "next_message message = (case dropWhile (\<lambda>c. c \<noteq> newline) message of [] \<Rightarrow> [] | _ # rest \<Rightarrow> rest)"

lemma next_message_shorter: "message \<noteq> [] \<Longrightarrow> length (next_message message) < length message"
  using length_dropWhile_le [of "\<lambda>c. c \<noteq> newline" message]
  by (auto simp: next_message_def split: list.split)

function raw_replaces_loop :: "string \<Rightarrow> string \<Rightarrow> bool \<Rightarrow> bool \<Rightarrow> string" where
  "raw_replaces_loop message value found first_line =
     (if message = [] then value
      else
        let line = strip_cr (takeWhile (\<lambda>c. c \<noteq> newline) message); rest = next_message message in
        if first_line then raw_replaces_loop rest value found False
        else if line = [] then value
        else if found \<and> is_lws (hd line) then raw_replaces_loop rest (value @ '' '' @ trim_lws line) found False
        else if found then value
        else
          (case find_pos (\<lambda>c. c = CHR '':'') line of
             None \<Rightarrow> raw_replaces_loop rest value found False
           | Some colon \<Rightarrow>
               if ascii_iequals (trim_lws (substr line 0 colon)) kReplacesName
               then raw_replaces_loop rest (trim_lws (drop (colon + 1) line)) True False
               else raw_replaces_loop rest value found False))"
  by auto
termination by (relation "measure (\<lambda>(message, _, _, _). length message)") (auto simp: next_message_shorter)

declare raw_replaces_loop.simps [simp del]

definition raw_replaces_value :: "string option \<Rightarrow> string" where
  "raw_replaces_value msg_buf =
     (case msg_buf of None \<Rightarrow> [] | Some message \<Rightarrow> raw_replaces_loop message [] False True)"

text \<open>Reading line by line.\<close>

definition header_line :: "string \<Rightarrow> bool" where
  "header_line line \<longleftrightarrow> newline \<notin> set line \<and> line \<noteq> [] \<and> last line \<noteq> CHR 0x0D"

definition other_header :: "string \<Rightarrow> bool" where
  "other_header line \<longleftrightarrow> header_line line \<and>
     (case find_pos (\<lambda>c. c = CHR '':'') line of
        None \<Rightarrow> True
      | Some colon \<Rightarrow> \<not> ascii_iequals (trim_lws (substr line 0 colon)) kReplacesName)"

definition crlf :: string where
  "crlf = [CHR 0x0D, CHR 0x0A]"

lemma first_line_of:
  assumes "newline \<notin> set line"
  shows "takeWhile (\<lambda>c. c \<noteq> newline) (line @ crlf @ rest) = line @ [CHR 0x0D]"
    and "next_message (line @ crlf @ rest) = rest"
  using assms by (induction line) (auto simp: crlf_def next_message_def)

lemma strip_cr_snoc [simp]: "strip_cr (line @ [CHR 0x0D]) = line"
  by (simp add: strip_cr_def)

lemma crlf_nonempty [simp]: "crlf \<noteq> []"
  by (simp add: crlf_def)

lemma loop_other_header:
  assumes "other_header line"
  shows "raw_replaces_loop (line @ crlf @ rest) value False False = raw_replaces_loop rest value False False"
  using assms unfolding other_header_def header_line_def
  by (subst raw_replaces_loop.simps) (auto simp: first_line_of Let_def split: option.splits)

lemma loop_other_headers:
  assumes "list_all other_header hs"
  shows "raw_replaces_loop (concat (map (\<lambda>h. h @ crlf) hs) @ rest) value False False =
     raw_replaces_loop rest value False False"
  using assms by (induction hs) (simp_all add: loop_other_header)

lemma loop_stops: "raw_replaces_loop (crlf @ rest) value found False = value"
  using first_line_of [of "[]" rest] by (subst raw_replaces_loop.simps) (simp add: strip_cr_def)

lemma raw_replaces_found:
  assumes "newline \<notin> set request_line" "list_all other_header hs"
    and "header_line (name @ '':'' @ text)" "CHR '':'' \<notin> set name" "ascii_iequals (trim_lws name) kReplacesName"
  shows "raw_replaces_value (Some (request_line @ crlf @ concat (map (\<lambda>h. h @ crlf) hs) @
           (name @ '':'' @ text) @ crlf @ crlf @ body)) = trim_lws text"
proof -
  have colon: "find_pos (\<lambda>c. c = CHR '':'') (name @ CHR '':'' # text) = Some (length name)"
    using assms(4) by (intro find_pos_prefix) auto
  have line: "newline \<notin> set (name @ CHR '':'' # text)" using assms(3) by (simp add: header_line_def)
  have "raw_replaces_loop ((name @ CHR '':'' # text) @ crlf @ crlf @ body) [] False False = trim_lws text"
    using assms(5) unfolding raw_replaces_loop.simps [of "(name @ CHR '':'' # text) @ crlf @ crlf @ body"]
    by (simp add: first_line_of [OF line] Let_def colon substr_def loop_stops del: append_assoc)
  moreover have "raw_replaces_loop (request_line @ crlf @ rest) [] False True = raw_replaces_loop rest [] False False"
    for rest
    by (subst raw_replaces_loop.simps) (simp add: first_line_of [OF assms(1)])
  ultimately show ?thesis
    by (simp add: raw_replaces_value_def loop_other_headers [OF assms(2)])
qed

subsection \<open>Dialog tags of the Replaces header\<close>

record tag_scan =
  ts_to :: nat
  ts_from :: nat
  ts_quoted :: bool
  ts_escaped :: bool
  ts_start :: "nat option"

definition count_parameter :: "string \<Rightarrow> tag_scan \<Rightarrow> tag_scan" where
  "count_parameter text st =
     (let parameter = trim_lws text;
          name = trim_lws (case find_pos (\<lambda>c. c = CHR ''='') parameter of
                             Some equals \<Rightarrow> substr parameter 0 equals | None \<Rightarrow> parameter) in
      if ascii_iequals name ''to-tag'' then st\<lparr>ts_to := ts_to st + 1\<rparr>
      else if ascii_iequals name ''from-tag'' then st\<lparr>ts_from := ts_from st + 1\<rparr>
      else st)"

definition tag_step :: "string \<Rightarrow> nat \<Rightarrow> char \<Rightarrow> tag_scan \<Rightarrow> tag_scan" where
  "tag_step value index character st =
     (if ts_escaped st then st\<lparr>ts_escaped := False\<rparr>
      else if ts_quoted st \<and> character = CHR 0x5C then st\<lparr>ts_escaped := True\<rparr>
      else if character = CHR 0x22 then st\<lparr>ts_quoted := \<not> ts_quoted st\<rparr>
      else if character \<noteq> CHR '';'' \<or> ts_quoted st then st
      else
        (case ts_start st of
           Some start \<Rightarrow> count_parameter (substr value start (index - start)) st
         | None \<Rightarrow> st)\<lparr>ts_start := Some (index + 1)\<rparr>)"

fun tag_scan_loop :: "string \<Rightarrow> nat \<Rightarrow> string \<Rightarrow> tag_scan \<Rightarrow> tag_scan" where
  "tag_scan_loop value index [] st = st"
| "tag_scan_loop value index (c # cs) st = tag_scan_loop value (index + 1) cs (tag_step value index c st)"

definition replaces_has_single_dialog_tags :: "string option \<Rightarrow> bool" where
  "replaces_has_single_dialog_tags msg_buf =
     (let value = raw_replaces_value msg_buf in
      if value = [] then False
      else
        let st = tag_scan_loop value 0 (value @ '';'')
                   \<lparr>ts_to = 0, ts_from = 0, ts_quoted = False, ts_escaped = False, ts_start = None\<rparr> in
        ts_to st = 1 \<and> ts_from st = 1)"

definition parameter_name :: "string \<Rightarrow> string" where
  "parameter_name text =
     (let parameter = trim_lws text in
      map tolower (trim_lws (case find_pos (\<lambda>c. c = CHR ''='') parameter of
                               Some equals \<Rightarrow> take equals parameter | None \<Rightarrow> parameter)))"

definition unquoted :: "string \<Rightarrow> bool" where
  "unquoted text \<longleftrightarrow> CHR '';'' \<notin> set text \<and> CHR 0x22 \<notin> set text"

lemma lower_names [simp]: "map tolower ''to-tag'' = ''to-tag''" "map tolower ''from-tag'' = ''from-tag''"
  by (simp_all add: tolower_def)

lemma count_parameter_counts:
  "count_parameter text st = st\<lparr>ts_to := ts_to st + (if parameter_name text = ''to-tag'' then 1 else 0),
     ts_from := ts_from st + (if parameter_name text = ''from-tag'' then 1 else 0)\<rparr>"
proof -
  have names: "ascii_iequals n ''to-tag'' \<longleftrightarrow> map tolower n = ''to-tag''"
    "ascii_iequals n ''from-tag'' \<longleftrightarrow> map tolower n = ''from-tag''" for n
    unfolding ascii_iequals_map lower_names by (rule refl, rule refl)
  show ?thesis
    unfolding count_parameter_def parameter_name_def Let_def names
    by (simp add: substr_def split: option.splits)
qed

lemma tag_scan_append:
  "tag_scan_loop value i (xs @ ys) st = tag_scan_loop value (i + length xs) ys (tag_scan_loop value i xs st)"
  by (induction xs arbitrary: i st) simp_all

lemma tag_scan_text:
  "unquoted xs \<Longrightarrow> \<not> ts_quoted st \<Longrightarrow> \<not> ts_escaped st \<Longrightarrow> tag_scan_loop value i xs st = st"
  by (induction xs arbitrary: i) (auto simp: unquoted_def tag_step_def)

definition add_names :: "string list \<Rightarrow> tag_scan \<Rightarrow> tag_scan" where
  "add_names texts st = st\<lparr>ts_to := ts_to st + count_list (map parameter_name texts) ''to-tag'',
     ts_from := ts_from st + count_list (map parameter_name texts) ''from-tag''\<rparr>"

lemma tag_scan_parameters:
  assumes "value = pre @ par @ concat (map ((#) CHR '';'') texts)"
    and "list_all unquoted texts" "\<not> ts_quoted st" "\<not> ts_escaped st" "ts_start st = Some (length pre)"
  shows "\<exists>start. tag_scan_loop value (length pre + length par) (concat (map ((#) CHR '';'') texts) @ '';'') st =
     (add_names (par # texts) st)\<lparr>ts_start := start\<rparr>"
  using assms
proof (induction texts arbitrary: pre par st)
  case Nil
  have "substr value (length pre) (length par) = par" using Nil.prems(1) by (simp add: substr_def)
  with Nil.prems show ?case
    by (auto simp: tag_step_def count_parameter_counts add_names_def)
next
  case (Cons t ts)
  let ?pre' = "pre @ par @ '';''"
  let ?st' = "(add_names [par] st)\<lparr>ts_start := Some (length ?pre')\<rparr>"
  have "substr value (length pre) (length par) = par" using Cons.prems(1) by (simp add: substr_def)
  then have step: "tag_step value (length pre + length par) (CHR '';'') st = ?st'"
    using Cons.prems(3-5) by (simp add: tag_step_def count_parameter_counts add_names_def)
  have t: "unquoted t" and ts: "list_all unquoted ts" using Cons.prems(2) by simp_all
  have st': "\<not> ts_quoted ?st'" "\<not> ts_escaped ?st'" "ts_start ?st' = Some (length ?pre')"
    using Cons.prems(3,4) by (simp_all add: add_names_def)
  have "value = ?pre' @ t @ concat (map ((#) CHR '';'') ts)" using Cons.prems(1) by simp
  from Cons.IH [OF this ts st'] obtain start where
    "tag_scan_loop value (length ?pre' + length t) (concat (map ((#) CHR '';'') ts) @ '';'') ?st' =
       (add_names (t # ts) ?st')\<lparr>ts_start := start\<rparr>" ..
  then have "tag_scan_loop value (length pre + length par) (concat (map ((#) CHR '';'') (t # ts)) @ '';'') st =
       (add_names (t # ts) ?st')\<lparr>ts_start := start\<rparr>"
    using step tag_scan_text [OF t st'(1,2)] by (simp add: tag_scan_append add.assoc)
  then show ?case by (auto simp: add_names_def)
qed

text \<open>For a message whose Replaces header names a dialog by a call identifier followed by unquoted
  parameters, the check accepts it exactly when one parameter is a to-tag and one is a from-tag, in any
  case and order, whatever headers come before it and whatever follows.\<close>

theorem replaces_single_tags_iff:
  assumes "newline \<notin> set request_line" "list_all other_header hs"
    and "header_line (name @ '':'' @ text)" "CHR '':'' \<notin> set name" "ascii_iequals (trim_lws name) kReplacesName"
    and "trim_lws text = call_id @ concat (map ((#) CHR '';'') params)"
    and "call_id \<noteq> []" "unquoted call_id" "list_all unquoted params"
  shows "replaces_has_single_dialog_tags (Some (request_line @ crlf @ concat (map (\<lambda>h. h @ crlf) hs) @
           (name @ '':'' @ text) @ crlf @ crlf @ body)) \<longleftrightarrow>
     count_list (map parameter_name params) ''to-tag'' = 1 \<and>
     count_list (map parameter_name params) ''from-tag'' = 1"
proof -
  let ?val = "call_id @ concat (map ((#) CHR '';'') params)"
  let ?st0 = "\<lparr>ts_to = 0, ts_from = 0, ts_quoted = False, ts_escaped = False, ts_start = None\<rparr>"
  have start: "tag_scan_loop ?val 0 (?val @ '';'') ?st0 =
      tag_scan_loop ?val (length call_id) (concat (map ((#) CHR '';'') params) @ '';'') ?st0"
    using assms(8) by (simp add: tag_scan_append tag_scan_text)
  have "\<exists>start. tag_scan_loop ?val 0 (?val @ '';'') ?st0 = (add_names params ?st0)\<lparr>ts_start := start\<rparr>"
  proof (cases params)
    case Nil
    then show ?thesis unfolding start by (auto simp: tag_step_def add_names_def)
  next
    case (Cons p ps)
    let ?st1 = "?st0\<lparr>ts_start := Some (length (call_id @ '';''))\<rparr>"
    have p: "unquoted p" and ps: "list_all unquoted ps" using assms(9) Cons by simp_all
    have "?val = (call_id @ '';'') @ p @ concat (map ((#) CHR '';'') ps)" using Cons by simp
    from tag_scan_parameters [OF this ps, of ?st1] tag_scan_text [OF p, of ?st1] show ?thesis
      unfolding start using Cons by (simp add: tag_scan_append tag_step_def add.assoc add_names_def)
  qed
  then obtain start where "tag_scan_loop ?val 0 (?val @ '';'') ?st0 = (add_names params ?st0)\<lparr>ts_start := start\<rparr>" ..
  with raw_replaces_found [OF assms(1-5)] assms(6,7) show ?thesis
    by (simp add: replaces_has_single_dialog_tags_def Let_def add_names_def)
qed

theorem replaces_single_tags_iff_witness:
  "replaces_has_single_dialog_tags (Some (''INVITE a'' @ crlf @ concat (map (\<lambda>h. h @ crlf) [''To: b'']) @
     (''replaces'' @ '':'' @ '' c;from-tag=1; To-Tag=2'') @ crlf @ crlf @ []))"
proof -
  have "trim_lws '' c;from-tag=1; To-Tag=2'' = ''c'' @ concat (map ((#) CHR '';'') [''from-tag=1'', '' To-Tag=2''])"
    by (simp add: trim_lws_def is_lws_def)
  moreover have "list_all other_header [''To: b'']"
    by code_simp
  moreover have "map parameter_name [''from-tag=1'', '' To-Tag=2''] = [''from-tag'', ''to-tag'']"
    by code_simp
  moreover have "ascii_iequals (trim_lws ''replaces'') kReplacesName"
    by code_simp
  moreover have "header_line (''replaces'' @ '':'' @ '' c;from-tag=1; To-Tag=2'')"
    by (simp add: header_line_def)
  moreover have "list_all unquoted [''from-tag=1'', '' To-Tag=2'']" "unquoted ''c''"
    by (simp_all add: unquoted_def)
  ultimately show ?thesis
    using replaces_single_tags_iff [of "''INVITE a''" "[''To: b'']" "''replaces''"
        "'' c;from-tag=1; To-Tag=2''" "''c''" "[''from-tag=1'', '' To-Tag=2'']" "[]"]
    by (simp del: append_assoc concat.simps list.map)
qed

end
