(* ===== verification/Sdp.thy ===== *)
theory Sdp
  imports Codecs Extract_Utils
begin

text \<open>
  SDP handling, \<^verbatim>\<open>engine/src/sip/stack/sdp.cpp\<close>. Sessions, media lines and attributes are records of
  the fields of PJMEDIA's structures that the engine reads or writes. Parsing, printing and the attribute
  accessors are PJMEDIA's: they are the argument \<open>P\<close> of the operations that call them, and what a theorem
  needs of them is one of its hypotheses. Where the source mutates a session in place, the operation
  returns the changed session.
\<close>

subsection \<open>PJMEDIA's structures\<close>

record sdp_attr =
  at_name :: string
  at_value :: string

record sdp_conn =
  cn_net_type :: string
  cn_addr_type :: string
  cn_addr :: string

record sdp_media =
  md_type :: string
  md_port :: "16 word"
  md_transport :: string
  md_fmt :: "string list"
  md_conn :: "sdp_conn option"
  md_attr :: "sdp_attr list"

record sdp_session =
  sd_conn :: "sdp_conn option"
  sd_attr :: "sdp_attr list"
  sd_media :: "sdp_media list"

record rtpmap =
  rm_pt :: string
  rm_enc_name :: string
  rm_clock_rate :: "32 word"

record pjmedia =
  pm_parse :: "string \<Rightarrow> sdp_session option"
  pm_print :: "sdp_session \<Rightarrow> string option"
  pm_rtpmap :: "sdp_attr \<Rightarrow> rtpmap option"
  pm_fmtp_fmt :: "sdp_attr \<Rightarrow> string option"
  pm_strtoul :: "string \<Rightarrow> nat"
  pm_utoa :: "nat \<Rightarrow> string"
  pm_has_attr :: "sdp_attr list \<Rightarrow> string \<Rightarrow> bool"
  pm_remove_all :: "string \<Rightarrow> sdp_attr list \<Rightarrow> sdp_attr list"
  pm_room :: "sdp_attr list \<Rightarrow> bool"
  pm_unspecified6 :: "string \<Rightarrow> bool"

datatype media_direction = SendRecv | SendOnly | RecvOnly | Inactive

record rtp_endpoint =
  ep_ip :: string
  ep_port :: "16 word"

record audio_codec_info =
  ac_payload_type :: "8 word"
  ac_name :: string
  ac_clock_rate :: "32 word"

subsection \<open>Validation\<close>

definition is_media_type :: "sdp_media \<Rightarrow> string \<Rightarrow> bool" where
  "is_media_type media type = ascii_iequals (md_type media) type"

definition is_supported_transport :: "sdp_media \<Rightarrow> bool" where
  "is_supported_transport media \<longleftrightarrow>
     ascii_iequals (md_transport media) ''RTP/AVP'' \<or> ascii_iequals (md_transport media) ''RTP/AVPF''"

definition is_direction_name :: "string \<Rightarrow> bool" where
  "is_direction_name name =
     list_ex (\<lambda>direction. ascii_iequals name direction) [''inactive'', ''sendonly'', ''recvonly'', ''sendrecv'']"

definition has_valid_direction :: "sdp_attr list \<Rightarrow> bool" where
  "has_valid_direction attrs \<longleftrightarrow> length (filter (\<lambda>attr. is_direction_name (at_name attr)) attrs) \<le> 1"

definition is_eol :: "char \<Rightarrow> bool" where
  "is_eol c \<longleftrightarrow> c = CHR 0x0D \<or> c = CHR 0x0A"

definition attr_name_of :: "string \<Rightarrow> string" where
  "attr_name_of line = takeWhile (\<lambda>c. c \<notin> {CHR '':'', CHR '' '', CHR 0x09}) (drop 2 line)"

function session_direction_loop :: "string \<Rightarrow> bool \<Rightarrow> bool" where
  "session_direction_loop sdp direction_seen =
     (if sdp = [] then True
      else
        let line = takeWhile (\<lambda>c. \<not> is_eol c) sdp;
            rest = dropWhile (\<lambda>c. \<not> is_eol c) sdp in
        if take 2 line = ''m='' then True
        else
          let is_direction = (take 2 line = ''a='' \<and> is_direction_name (attr_name_of line)) in
          if is_direction \<and> direction_seen then False
          else if rest = [] then True
          else session_direction_loop (tl rest) (direction_seen \<or> is_direction))"
  by auto
termination
proof (relation "measure (\<lambda>(sdp, _). length sdp)", goal_cases)
  case (2 sdp direction_seen line rest is_direction)
  then have "length (tl rest) < length rest" by simp
  also have "length rest \<le> length sdp" using 2(3) by (simp add: length_dropWhile_le)
  finally show ?case by simp
qed simp

declare session_direction_loop.simps [simp del]

definition has_valid_session_direction :: "string \<Rightarrow> bool" where
  "has_valid_session_direction sdp = session_direction_loop sdp False"

definition has_valid_media :: "sdp_session option \<Rightarrow> bool" where
  "has_valid_media sdp =
     (case sdp of
        None \<Rightarrow> False
      | Some sdp \<Rightarrow>
          if sd_media sdp = [] then False
          else if \<not> has_valid_direction (sd_attr sdp) then False
          else list_all (\<lambda>media.
                 if is_media_type media ''audio'' \<and> \<not> has_valid_direction (md_attr media) then False
                 else if md_port media = 0 then True
                 else \<not> (md_fmt media = [] \<or> \<not> is_supported_transport media)) (sd_media sdp))"

definition sdp_parse :: "pjmedia \<Rightarrow> string \<Rightarrow> sdp_session option" where
  "sdp_parse P s = (if s = [] then None else pm_parse P s)"

definition sdp_serialize :: "pjmedia \<Rightarrow> sdp_session \<Rightarrow> string" where
  "sdp_serialize P sdp = (case pm_print P sdp of None \<Rightarrow> [] | Some s \<Rightarrow> s)"

definition is_valid_sdp :: "pjmedia \<Rightarrow> string \<Rightarrow> bool" where
  "is_valid_sdp P sdp = (if \<not> has_valid_session_direction sdp then False else has_valid_media (sdp_parse P sdp))"

subsection \<open>Anchoring media at the relay\<close>

definition set_conn_addr :: "string \<Rightarrow> sdp_conn \<Rightarrow> sdp_conn" where
  "set_conn_addr relay_ip conn = conn\<lparr>cn_net_type := ''IN'', cn_addr_type := ''IP4'', cn_addr := relay_ip\<rparr>"

definition rewrite_connection_and_port :: "string \<Rightarrow> 16 word \<Rightarrow> sdp_session \<Rightarrow> sdp_session" where
  "rewrite_connection_and_port relay_ip relay_port sdp =
     sdp\<lparr>sd_conn := map_option (set_conn_addr relay_ip) (sd_conn sdp),
         sd_media := map (\<lambda>media. media\<lparr>md_port := relay_port,
                            md_conn := map_option (set_conn_addr relay_ip) (md_conn media)\<rparr>) (sd_media sdp)\<rparr>"

fun first_endpoint :: "sdp_conn option \<Rightarrow> sdp_media list \<Rightarrow> rtp_endpoint" where
  "first_endpoint session_conn [] = \<lparr>ep_ip = [], ep_port = 0\<rparr>"
| "first_endpoint session_conn (media # rest) =
     (if \<not> is_media_type media ''audio'' \<or> md_port media = 0 then first_endpoint session_conn rest
      else
        let conn = (case md_conn media of Some c \<Rightarrow> Some c | None \<Rightarrow> session_conn) in
        \<lparr>ep_ip = (case conn of Some c \<Rightarrow> cn_addr c | None \<Rightarrow> []), ep_port = md_port media\<rparr>)"

definition extract_rtp_endpoint :: "sdp_session option \<Rightarrow> rtp_endpoint" where
  "extract_rtp_endpoint sdp =
     (case sdp of None \<Rightarrow> \<lparr>ep_ip = [], ep_port = 0\<rparr> | Some sdp \<Rightarrow> first_endpoint (sd_conn sdp) (sd_media sdp))"

definition active_audio :: "sdp_media \<Rightarrow> bool" where
  "active_audio media \<longleftrightarrow> is_media_type media ''audio'' \<and> md_port media \<noteq> 0"

definition find_active_audio_media :: "sdp_session \<Rightarrow> nat option" where
  "find_active_audio_media sdp = find_pos active_audio (sd_media sdp)"

subsection \<open>Codecs of a media line\<close>

definition find_rtpmap :: "pjmedia \<Rightarrow> sdp_media \<Rightarrow> string \<Rightarrow> rtpmap option" where
  "find_rtpmap P media payload_type =
     find (\<lambda>rm. rm_pt rm = payload_type)
       (List.map_filter (pm_rtpmap P) (filter (\<lambda>attr. ascii_iequals (at_name attr) ''rtpmap'') (md_attr media)))"

definition make_codec_info :: "pjmedia \<Rightarrow> sdp_media \<Rightarrow> string \<Rightarrow> audio_codec_info" where
  "make_codec_info P media pt =
     (let payload_type = word_of_nat (pm_strtoul P pt) in
      case find_rtpmap P media pt of
        Some rm \<Rightarrow> \<lparr>ac_payload_type = payload_type, ac_name = rm_enc_name rm, ac_clock_rate = rm_clock_rate rm\<rparr>
      | None \<Rightarrow> \<lparr>ac_payload_type = payload_type, ac_name = audio_pt_tostring payload_type, ac_clock_rate = 0\<rparr>)"

definition find_telephone_event_pt :: "pjmedia \<Rightarrow> sdp_media \<Rightarrow> string option" where
  "find_telephone_event_pt P media =
     map_option rm_pt (find (\<lambda>rm. ascii_iequals (rm_enc_name rm) ''telephone-event'')
       (List.map_filter (pm_rtpmap P) (filter (\<lambda>attr. ascii_iequals (at_name attr) ''rtpmap'') (md_attr media))))"

definition is_dtmf_rtpmap :: "pjmedia \<Rightarrow> sdp_attr \<Rightarrow> string \<Rightarrow> bool" where
  "is_dtmf_rtpmap P attr dtmf_pt = (case pm_rtpmap P attr of None \<Rightarrow> False | Some rm \<Rightarrow> rm_pt rm = dtmf_pt)"

definition is_dtmf_fmtp :: "pjmedia \<Rightarrow> sdp_attr \<Rightarrow> string \<Rightarrow> bool" where
  "is_dtmf_fmtp P attr dtmf_pt \<longleftrightarrow> pm_fmtp_fmt P attr = Some dtmf_pt"

definition extract_active_audio_codec :: "pjmedia \<Rightarrow> sdp_session option \<Rightarrow> audio_codec_info option" where
  "extract_active_audio_codec P sdp =
     (case sdp of
        None \<Rightarrow> None
      | Some sdp \<Rightarrow>
          (case find_active_audio_media sdp of
             None \<Rightarrow> None
           | Some i \<Rightarrow>
               let media = sd_media sdp ! i in
               (case md_fmt media of [] \<Rightarrow> None | fmt # _ \<Rightarrow> Some (make_codec_info P media fmt))))"

definition extract_all_audio_codecs :: "pjmedia \<Rightarrow> sdp_session option \<Rightarrow> audio_codec_info list" where
  "extract_all_audio_codecs P sdp =
     (case sdp of
        None \<Rightarrow> []
      | Some sdp \<Rightarrow>
          (case find_active_audio_media sdp of
             None \<Rightarrow> []
           | Some i \<Rightarrow> let media = sd_media sdp ! i in map (make_codec_info P media) (md_fmt media)))"

definition extract_telephone_event_pt :: "pjmedia \<Rightarrow> sdp_session option \<Rightarrow> 8 word option" where
  "extract_telephone_event_pt P sdp =
     map_option ac_payload_type
       (find (\<lambda>codec. ascii_iequals (ac_name codec) ''telephone-event'') (extract_all_audio_codecs P sdp))"

definition offers :: "audio_codec_info list \<Rightarrow> string \<Rightarrow> bool" where
  "offers offered name = list_ex (\<lambda>codec. ascii_iequals (ac_name codec) name) offered"

definition pick_answer_codec :: "audio_codec_info option \<Rightarrow> audio_codec_info list \<Rightarrow> supported_codec option" where
  "pick_answer_codec preferred offered =
     (let by_preference = (case preferred of
            None \<Rightarrow> None
          | Some p \<Rightarrow> find (\<lambda>s. ascii_iequals (sc_name s) (ac_name p) \<and> offers offered (sc_name s)) kSupportedCodecs) in
      case by_preference of
        Some s \<Rightarrow> Some s
      | None \<Rightarrow> find (\<lambda>s. offers offered (sc_name s)) kSupportedCodecs)"

definition keep_attr :: "pjmedia \<Rightarrow> string option \<Rightarrow> sdp_attr \<Rightarrow> bool" where
  "keep_attr P dtmf_pt attr =
     (let is_rtpmap = ascii_iequals (at_name attr) ''rtpmap'';
          is_fmtp = (\<not> is_rtpmap \<and> ascii_iequals (at_name attr) ''fmtp'') in
      \<not> ((is_rtpmap \<or> is_fmtp) \<and>
         \<not> (case dtmf_pt of
              None \<Rightarrow> False
            | Some pt \<Rightarrow> if is_rtpmap then is_dtmf_rtpmap P attr pt else is_dtmf_fmtp P attr pt)))"

definition restrict_media :: "pjmedia \<Rightarrow> supported_codec list \<Rightarrow> sdp_media \<Rightarrow> sdp_media" where
  "restrict_media P allowed media =
     (let dtmf_pt = find_telephone_event_pt P media in
      media\<lparr>md_attr := filter (keep_attr P dtmf_pt) (md_attr media),
            md_fmt := map (\<lambda>codec. pm_utoa P (unat (sc_payload_type codec))) allowed @
                      (case dtmf_pt of None \<Rightarrow> [] | Some pt \<Rightarrow> [pt])\<rparr>)"

definition restrict_audio_codecs :: "pjmedia \<Rightarrow> sdp_session \<Rightarrow> supported_codec list \<Rightarrow> sdp_session" where
  "restrict_audio_codecs P sdp allowed =
     (case find_active_audio_media sdp of
        None \<Rightarrow> sdp
      | Some i \<Rightarrow> sdp\<lparr>sd_media := (sd_media sdp)[i := restrict_media P allowed (sd_media sdp ! i)]\<rparr>)"

subsection \<open>Directions\<close>

definition is_hold_address :: "pjmedia \<Rightarrow> string \<Rightarrow> bool" where
  "is_hold_address P address =
     (if address = ''0.0.0.0'' then True
      else if CHR 0x00 \<in> set address then False
      else pm_unspecified6 P address)"

fun direction_name :: "media_direction \<Rightarrow> string" where
  "direction_name SendRecv = ''sendrecv''"
| "direction_name SendOnly = ''sendonly''"
| "direction_name RecvOnly = ''recvonly''"
| "direction_name Inactive = ''inactive''"

definition find_media_direction :: "pjmedia \<Rightarrow> sdp_attr list \<Rightarrow> media_direction option" where
  "find_media_direction P attrs =
     find (\<lambda>d. pm_has_attr P attrs (direction_name d)) [Inactive, SendOnly, RecvOnly, SendRecv]"

definition extract_audio_direction :: "pjmedia \<Rightarrow> sdp_session option \<Rightarrow> rtp_endpoint \<Rightarrow> media_direction" where
  "extract_audio_direction P sdp offer_endpoint =
     (if is_hold_address P (ep_ip offer_endpoint) then Inactive
      else
        case sdp of
          None \<Rightarrow> SendRecv
        | Some sdp \<Rightarrow>
            (case find_active_audio_media sdp of
               None \<Rightarrow> SendRecv
             | Some i \<Rightarrow>
                 (case find_media_direction P (md_attr (sd_media sdp ! i)) of
                    Some d \<Rightarrow> d
                  | None \<Rightarrow> (case find_media_direction P (sd_attr sdp) of Some d \<Rightarrow> d | None \<Rightarrow> SendRecv))))"

fun answer_direction :: "media_direction \<Rightarrow> media_direction" where
  "answer_direction SendRecv = SendRecv"
| "answer_direction SendOnly = RecvOnly"
| "answer_direction RecvOnly = SendOnly"
| "answer_direction Inactive = Inactive"

definition can_send :: "media_direction \<Rightarrow> bool" where
  "can_send d \<longleftrightarrow> d = SendRecv \<or> d = SendOnly"

definition can_receive :: "media_direction \<Rightarrow> bool" where
  "can_receive d \<longleftrightarrow> d = SendRecv \<or> d = RecvOnly"

definition set_audio_direction :: "pjmedia \<Rightarrow> sdp_session \<Rightarrow> media_direction \<Rightarrow> sdp_session \<times> bool" where
  "set_audio_direction P sdp direction =
     (case find_active_audio_media sdp of
        None \<Rightarrow> (sdp, False)
      | Some i \<Rightarrow>
          let media = sd_media sdp ! i;
              attrs = foldl (\<lambda>attrs name. pm_remove_all P name attrs) (md_attr media)
                        [''sendrecv'', ''sendonly'', ''recvonly'', ''inactive''];
              added = pm_room P attrs;
              attrs' = (if added then attrs @ [\<lparr>at_name = direction_name direction, at_value = []\<rparr>] else attrs) in
          (sdp\<lparr>sd_media := (sd_media sdp)[i := media\<lparr>md_attr := attrs'\<rparr>]\<rparr>, added))"

subsection \<open>Choosing the answer's codec\<close>

lemma supported_names_ci:
  "distinct (map (\<lambda>s. map tolower (sc_name s)) kSupportedCodecs)"
  by code_simp

lemma preferred_unique:
  assumes "s \<in> set kSupportedCodecs" "ascii_iequals (sc_name s) n"
    and "t \<in> set kSupportedCodecs" "ascii_iequals (sc_name t) n"
  shows "t = s"
  using assms inj_onD [OF conjunct2 [OF supported_names_ci [unfolded distinct_map]], of t s]
  unfolding ascii_iequals_map by simp

lemma pick_answer_codec_SomeD:
  assumes "pick_answer_codec preferred offered = Some s"
  shows "s \<in> set kSupportedCodecs \<and> offers offered (sc_name s)"
proof -
  have last: "s \<in> set kSupportedCodecs \<and> offers offered (sc_name s)"
    if "find (\<lambda>s. offers offered (sc_name s)) kSupportedCodecs = Some s"
    using find_SomeD [OF that] by simp
  show ?thesis
  proof (cases preferred)
    case None
    with assms last show ?thesis by (simp add: pick_answer_codec_def)
  next
    case (Some p)
    let ?by = "find (\<lambda>s. ascii_iequals (sc_name s) (ac_name p) \<and> offers offered (sc_name s)) kSupportedCodecs"
    show ?thesis
    proof (cases ?by)
      case None
      with assms last Some show ?thesis by (simp add: pick_answer_codec_def)
    next
      case (Some t)
      with assms \<open>preferred = Some p\<close> have "t = s" by (simp add: pick_answer_codec_def)
      with find_SomeD [OF Some] show ?thesis by simp
    qed
  qed
qed

text \<open>C36: The codec chosen for an answer is one the engine supports and the offer lists, and none is chosen only
  when the offer lists no supported codec. When the other leg's codec is supported and offered,
  whatever the case it is spelled in, it is the one chosen, so that no transcoding is needed.\<close>

theorem pick_answer_codec_correct:
  "(case pick_answer_codec preferred offered of
      None \<Rightarrow> list_all (\<lambda>s. \<not> offers offered (sc_name s)) kSupportedCodecs
    | Some s \<Rightarrow> s \<in> set kSupportedCodecs \<and> offers offered (sc_name s)) \<and>
   (\<forall>p s. preferred = Some p \<and> s \<in> set kSupportedCodecs \<and> ascii_iequals (sc_name s) (ac_name p) \<and>
      offers offered (sc_name s) \<longrightarrow> pick_answer_codec preferred offered = Some s)"
proof (rule conjI)
  show "case pick_answer_codec preferred offered of
      None \<Rightarrow> list_all (\<lambda>s. \<not> offers offered (sc_name s)) kSupportedCodecs
    | Some s \<Rightarrow> s \<in> set kSupportedCodecs \<and> offers offered (sc_name s)"
  proof (cases "pick_answer_codec preferred offered")
    case None
    then show ?thesis by (simp add: pick_answer_codec_def Let_def list_all_iff find_None_all split: option.splits)
  next
    case (Some s)
    with pick_answer_codec_SomeD show ?thesis by fastforce
  qed
  have "pick_answer_codec (Some p) offered = Some s"
    if "s \<in> set kSupportedCodecs" "ascii_iequals (sc_name s) (ac_name p)" "offers offered (sc_name s)" for p s
  proof -
    have "find (\<lambda>s. ascii_iequals (sc_name s) (ac_name p) \<and> offers offered (sc_name s)) kSupportedCodecs = Some s"
    proof (rule find_unique)
      fix y
      assume "y \<in> set kSupportedCodecs" "ascii_iequals (sc_name y) (ac_name p) \<and> offers offered (sc_name y)"
      then show "y = s" by (intro preferred_unique [OF that(1,2)]) simp_all
    qed (use that in simp_all)
    then show ?thesis by (simp add: pick_answer_codec_def)
  qed
  then show "\<forall>p s. preferred = Some p \<and> s \<in> set kSupportedCodecs \<and> ascii_iequals (sc_name s) (ac_name p) \<and>
      offers offered (sc_name s) \<longrightarrow> pick_answer_codec preferred offered = Some s"
    by blast
qed

theorem pick_answer_codec_correct_witness:
  "pick_answer_codec (Some \<lparr>ac_payload_type = 8, ac_name = ''pcma'', ac_clock_rate = 8000\<rparr>)
     [\<lparr>ac_payload_type = 0, ac_name = ''PCMU'', ac_clock_rate = 0\<rparr>,
      \<lparr>ac_payload_type = 8, ac_name = ''PCMA'', ac_clock_rate = 0\<rparr>] =
     Some \<lparr>sc_name = ''PCMA'', sc_payload_type = 8, sc_clock_rate = 8000, sc_rtp_clock_rate = 8000\<rparr>"
proof -
  let ?p = "\<lparr>ac_payload_type = 8, ac_name = ''pcma'', ac_clock_rate = 8000\<rparr>"
  let ?offered = "[\<lparr>ac_payload_type = 0, ac_name = ''PCMU'', ac_clock_rate = 0\<rparr>,
      \<lparr>ac_payload_type = 8, ac_name = ''PCMA'', ac_clock_rate = 0\<rparr>]"
  let ?s = "\<lparr>sc_name = ''PCMA'', sc_payload_type = 8, sc_clock_rate = 8000, sc_rtp_clock_rate = 8000\<rparr>"
  have "?s \<in> set kSupportedCodecs" by (simp add: kSupportedCodecs_def)
  moreover have "ascii_iequals (sc_name ?s) (ac_name ?p)" "offers ?offered (sc_name ?s)" by code_simp+
  ultimately show ?thesis using pick_answer_codec_correct [where preferred = "Some ?p" and offered = ?offered] by blast
qed

subsection \<open>Restricting a media line to some codecs\<close>

definition static_info :: "supported_codec \<Rightarrow> audio_codec_info" where
  "static_info codec = \<lparr>ac_payload_type = sc_payload_type codec, ac_name = sc_name codec, ac_clock_rate = 0\<rparr>"

abbreviation rtpmaps :: "pjmedia \<Rightarrow> sdp_attr list \<Rightarrow> rtpmap list" where
  "rtpmaps P attrs \<equiv> List.map_filter (pm_rtpmap P) (filter (\<lambda>attr. ascii_iequals (at_name attr) ''rtpmap'') attrs)"

lemma keep_rtpmap_attr:
  "ascii_iequals (at_name attr) ''rtpmap'' \<Longrightarrow>
     keep_attr P dtmf attr \<longleftrightarrow> (\<exists>rm. pm_rtpmap P attr = Some rm \<and> dtmf = Some (rm_pt rm))"
  by (auto simp: keep_attr_def is_dtmf_rtpmap_def split: option.splits)

lemma kept_rtpmaps:
  "rtpmaps P (filter (keep_attr P dtmf) attrs) = filter (\<lambda>rm. dtmf = Some (rm_pt rm)) (rtpmaps P attrs)"
proof (induction attrs)
  case (Cons a attrs)
  then show ?case
    by (cases "ascii_iequals (at_name a) ''rtpmap''")
      (auto simp: keep_rtpmap_attr map_filter_simps simp del: filter_filter split: option.splits)
qed (simp add: map_filter_simps)

lemma find_rtpmap_restricted:
  "find_rtpmap P (restrict_media P allowed media) pt =
     (if find_telephone_event_pt P media = Some pt then find_rtpmap P media pt else None)"
proof (cases "find_telephone_event_pt P media = Some pt")
  case True
  have "find (\<lambda>rm. rm_pt rm = pt) (filter (\<lambda>rm. pt = rm_pt rm) rms) = find (\<lambda>rm. rm_pt rm = pt) rms" for rms
    by (induction rms) auto
  with True show ?thesis
    by (simp add: find_rtpmap_def restrict_media_def Let_def kept_rtpmaps del: filter_filter)
next
  case False
  have "find (\<lambda>rm. rm_pt rm = pt) (filter (\<lambda>rm. find_telephone_event_pt P media = Some (rm_pt rm)) rms) = None" for rms
    using False by (auto simp: find_None_all)
  with False show ?thesis
    by (simp add: find_rtpmap_def restrict_media_def Let_def kept_rtpmaps del: filter_filter)
qed

lemma restrict_active:
  assumes "find_active_audio_media sdp = Some i"
  shows "find_active_audio_media (restrict_audio_codecs P sdp allowed) = Some i"
    and "sd_media (restrict_audio_codecs P sdp allowed) = (sd_media sdp)[i := restrict_media P allowed (sd_media sdp ! i)]"
    and "i < length (sd_media sdp)"
proof -
  show len: "i < length (sd_media sdp)"
    using assms find_pos_SomeD by (fastforce simp: find_active_audio_media_def)
  show upd: "sd_media (restrict_audio_codecs P sdp allowed) = (sd_media sdp)[i := restrict_media P allowed (sd_media sdp ! i)]"
    using assms by (simp add: restrict_audio_codecs_def)
  have "find_pos active_audio (xs[i := restrict_media P allowed (xs ! i)]) = find_pos active_audio xs"
    if "i < length xs" for xs i
    using that
  proof (induction xs arbitrary: i)
    case (Cons x xs)
    then show ?case
      by (cases i) (simp_all add: active_audio_def is_media_type_def restrict_media_def Let_def)
  qed simp
  with upd len assms show "find_active_audio_media (restrict_audio_codecs P sdp allowed) = Some i"
    by (simp add: find_active_audio_media_def)
qed

lemma supported_static: "codec \<in> set kSupportedCodecs \<Longrightarrow> audio_pt_tostring (sc_payload_type codec) = sc_name codec"
  using supported_static_name by (simp add: list_all_iff)


text \<open>A concrete instance of the accessors, for the witnesses below.\<close>

definition strtoul :: "string \<Rightarrow> nat" where
  "strtoul s = foldl (\<lambda>a c. 10 * a + (of_char c - 48)) 0 s"

lemma strtoul_utoa: "strtoul (utoa n) = n"
proof (induction n rule: utoa.induct)
  case (1 n)
  have digit: "of_char (char_of (48 + d) :: char) = 48 + d" if "d < 10" for d :: nat
    using that by (simp add: of_char_of take_bit_eq_mod)
  show ?case
  proof (cases "n < 10")
    case True
    then show ?thesis by (simp add: utoa.simps [of n] strtoul_def digit)
  next
    case False
    with 1 have "foldl (\<lambda>a c. 10 * a + (of_char c - 48)) 0 (utoa (n div 10)) = n div 10" by (simp add: strtoul_def)
    with False show ?thesis by (simp add: utoa.simps [of n] strtoul_def digit)
  qed
qed

definition sample_pjmedia :: pjmedia where
  "sample_pjmedia = \<lparr>
     pm_parse = (\<lambda>_. None), pm_print = (\<lambda>_. None),
     pm_rtpmap = (\<lambda>attr. Some \<lparr>rm_pt = takeWhile (\<lambda>c. c \<noteq> CHR '' '') (at_value attr),
        rm_enc_name = takeWhile (\<lambda>c. c \<noteq> CHR ''/'') (tl (dropWhile (\<lambda>c. c \<noteq> CHR '' '') (at_value attr))),
        rm_clock_rate = (if CHR ''/'' \<in> set (at_value attr) then 8000 else 0)\<rparr>),
     pm_fmtp_fmt = (\<lambda>attr. Some (takeWhile (\<lambda>c. c \<noteq> CHR '' '') (at_value attr))),
     pm_strtoul = strtoul, pm_utoa = utoa,
     pm_has_attr = (\<lambda>attrs name. list_ex (\<lambda>a. at_name a = name) attrs),
     pm_remove_all = (\<lambda>name attrs. filter (\<lambda>a. at_name a \<noteq> name) attrs),
     pm_room = (\<lambda>attrs. length attrs < 64),
     pm_unspecified6 = (\<lambda>a. a = ''::'')\<rparr>"

definition sample_sdp :: sdp_session where
  "sample_sdp = \<lparr>sd_conn = Some \<lparr>cn_net_type = ''IN'', cn_addr_type = ''IP4'', cn_addr = ''192.0.2.1''\<rparr>, sd_attr = [],
     sd_media =
       [\<lparr>md_type = ''video'', md_port = 0, md_transport = ''RTP/AVP'', md_fmt = [''34''], md_conn = None, md_attr = []\<rparr>,
        \<lparr>md_type = ''audio'', md_port = 4000, md_transport = ''RTP/AVP'', md_fmt = [''0'', ''97'', ''101''], md_conn = None,
         md_attr = [\<lparr>at_name = ''rtpmap'', at_value = ''97 speex/8000''\<rparr>,
                    \<lparr>at_name = ''rtpmap'', at_value = ''101 telephone-event/8000''\<rparr>,
                    \<lparr>at_name = ''sendonly'', at_value = []\<rparr>]\<rparr>]\<rparr>"

lemma sample_sdp_active: "find_active_audio_media sample_sdp = Some 1"
  by code_simp

lemma sample_sdp_dtmf: "find_telephone_event_pt sample_pjmedia (sd_media sample_sdp ! 1) = Some ''101''"
  by code_simp


subsection \<open>Anchoring\<close>

definition media_conns :: "sdp_session \<Rightarrow> sdp_conn set" where
  "media_conns sdp = set_option (sd_conn sdp) \<union> (\<Union>media \<in> set (sd_media sdp). set_option (md_conn media))"

lemma anchored_conns: "cn_addr ` media_conns (rewrite_connection_and_port ip port sdp) \<subseteq> {ip}"
  by (auto simp: media_conns_def rewrite_connection_and_port_def set_conn_addr_def)

lemma anchored_endpoint:
  "ep_ip (extract_rtp_endpoint (Some (rewrite_connection_and_port ip port sdp))) \<in> {[], ip} \<and>
   ep_port (extract_rtp_endpoint (Some (rewrite_connection_and_port ip port sdp))) \<in> {0, port}"
proof -
  let ?f = "\<lambda>media. media\<lparr>md_port := port, md_conn := map_option (set_conn_addr ip) (md_conn media)\<rparr>"
  have "ep_ip (first_endpoint (map_option (set_conn_addr ip) c) (map ?f ms)) \<in> {[], ip} \<and>
      ep_port (first_endpoint (map_option (set_conn_addr ip) c) (map ?f ms)) \<in> {0, port}" for c ms
    by (induction ms) (auto simp: set_conn_addr_def split: option.splits)
  then show ?thesis by (simp add: rewrite_connection_and_port_def extract_rtp_endpoint_def)
qed


text \<open>Anchoring also gives the relay's port to media lines that one side has declined with port zero, so the
  declined line is offered to the other side as active.\<close>

theorem rewrite_reactivates_declined:
  assumes "port \<noteq> 0" and "i < length (sd_media sdp)" and "md_port (sd_media sdp ! i) = 0"
  shows "md_port (sd_media (rewrite_connection_and_port ip port sdp) ! i) = port \<and>
    md_port (sd_media (rewrite_connection_and_port ip port sdp) ! i) \<noteq> 0"
  using assms by (simp add: rewrite_connection_and_port_def)

theorem rewrite_reactivates_declined_witness:
  "md_port (sd_media sample_sdp ! 0) = 0 \<and>
   md_port (sd_media (rewrite_connection_and_port ''198.51.100.1'' 20000 sample_sdp) ! 0) = 20000"
  using rewrite_reactivates_declined [of 20000 0 sample_sdp "''198.51.100.1''"] by (simp add: sample_sdp_def)

subsection \<open>Directions\<close>

text \<open>The direction an answer gets mirrors the offer's: it sends exactly when the offer receives and receives
  exactly when the offer sends. Once a direction has been set on a session whose audio address is not a hold
  address, that direction is the one read back, whatever direction attributes the session carried before.\<close>

theorem set_direction_reads_back:
  assumes "\<And>attrs name. pm_has_attr P attrs name \<longleftrightarrow> (\<exists>a \<in> set attrs. at_name a = name)"
    and "\<And>attrs name. pm_remove_all P name attrs = filter (\<lambda>a. at_name a \<noteq> name) attrs"
    and "set_audio_direction P sdp d = (sdp', True)" and "\<not> is_hold_address P (ep_ip ep)"
  shows "extract_audio_direction P (Some sdp') ep = d \<and>
    can_send (answer_direction d) = can_receive d \<and> can_receive (answer_direction d) = can_send d"
proof -
  from assms(3) obtain i where act: "find_active_audio_media sdp = Some i"
    by (auto simp: set_audio_direction_def split: option.splits)
  then have len: "i < length (sd_media sdp)"
    using find_pos_SomeD by (fastforce simp: find_active_audio_media_def)
  let ?attrs = "filter (\<lambda>a. at_name a \<notin> {''sendrecv'', ''sendonly'', ''recvonly'', ''inactive''}) (md_attr (sd_media sdp ! i))"
  let ?m = "(sd_media sdp ! i)\<lparr>md_attr := ?attrs @ [\<lparr>at_name = direction_name d, at_value = []\<rparr>]\<rparr>"
  have removed: "foldl (\<lambda>attrs name. pm_remove_all P name attrs) as [''sendrecv'', ''sendonly'', ''recvonly'', ''inactive''] =
      filter (\<lambda>a. at_name a \<notin> {''sendrecv'', ''sendonly'', ''recvonly'', ''inactive''}) as" for as
    by (auto simp: assms(2) intro!: filter_cong)
  have sdp': "sdp' = sdp\<lparr>sd_media := (sd_media sdp)[i := ?m]\<rparr>"
    using assms(3) act unfolding set_audio_direction_def Let_def removed by (auto split: if_splits)
  have "find_pos active_audio (xs[i := (xs ! i)\<lparr>md_attr := as\<rparr>]) = find_pos active_audio xs" if "i < length xs" for xs i as
    using that
  proof (induction xs arbitrary: i)
    case (Cons x xs)
    then show ?case by (cases i) (simp_all add: active_audio_def is_media_type_def)
  qed simp
  with act len have act': "find_active_audio_media sdp' = Some i" by (simp add: find_active_audio_media_def sdp')
  have "find_media_direction P (md_attr ?m) = Some d"
    by (cases d) (auto simp: find_media_direction_def assms(1))
  with act' len have "extract_audio_direction P (Some sdp') ep = d"
    using assms(4) by (simp add: extract_audio_direction_def sdp')
  moreover have "can_send (answer_direction d) = can_receive d \<and> can_receive (answer_direction d) = can_send d"
    by (cases d) (simp_all add: can_send_def can_receive_def)
  ultimately show ?thesis by simp
qed

theorem set_direction_reads_back_witness:
  "extract_audio_direction sample_pjmedia (Some (fst (set_audio_direction sample_pjmedia sample_sdp RecvOnly)))
     \<lparr>ep_ip = ''192.0.2.1'', ep_port = 4000\<rparr> = RecvOnly"
proof -
  have "pm_has_attr sample_pjmedia attrs name \<longleftrightarrow> (\<exists>a \<in> set attrs. at_name a = name)" for attrs name
    by (simp add: sample_pjmedia_def list_ex_iff)
  moreover have "pm_remove_all sample_pjmedia name attrs = filter (\<lambda>a. at_name a \<noteq> name) attrs" for name attrs
    by (simp add: sample_pjmedia_def)
  moreover have "snd (set_audio_direction sample_pjmedia sample_sdp RecvOnly)"
    by code_simp
  moreover have "\<not> is_hold_address sample_pjmedia ''192.0.2.1''" by code_simp
  ultimately show ?thesis
    using set_direction_reads_back [of sample_pjmedia sample_sdp RecvOnly
        "fst (set_audio_direction sample_pjmedia sample_sdp RecvOnly)" "\<lparr>ep_ip = ''192.0.2.1'', ep_port = 4000\<rparr>"]
    by (simp add: prod_eq_iff)
qed

end
