(* ===== verification/Inv_Session.thy ===== *)
theory Inv_Session
  imports Sdp "HOL-Library.Monad_Syntax"
begin

text \<open>
  PJSIP invite sessions as the engine uses them, and the helpers of
  \<^verbatim>\<open>engine/src/sip/stack/inv_session.cpp\<close>. PJSIP is not part of the repository: it is the record
  \<open>pjsip\<close>, an argument of the definitions, whose functions thread the stack's own state \<open>'p\<close>. Sessions
  and dialogs are handles, a null pointer is \<open>None\<close>, and a call that can fail returns \<open>None\<close> for a status other
  than \<^verbatim>\<open>PJ_SUCCESS\<close>. Received and outgoing messages are records of the parts the engine reads or writes.
\<close>

subsection \<open>The stack's structures\<close>

datatype inv_state =
    InvNull | InvCalling | InvIncoming | InvEarly | InvConnecting | InvConfirmed | InvDisconnected

type_synonym inv = nat
type_synonym dlg = nat

record rx_data =
  rx_method :: string
  rx_call_id :: string
  rx_status_code :: int
  rx_sdp :: string
  rx_request_uri :: string
  rx_from_uri :: string
  rx_from_display :: string
  rx_max_fwd :: "32 word option"

record replaces_hdr =
  rh_call_id :: string
  rh_to_tag :: string
  rh_from_tag :: string
  rh_early_only :: bool

record tx_data =
  tx_id :: nat
  tx_body :: "sdp_session option"
  tx_max_fwd :: "32 word option"
  tx_require :: "string list list"
  tx_replaces :: "replaces_hdr list"
  tx_referred_by :: "string option"

record 'p pjsip =
  pj_state :: "inv \<Rightarrow> 'p \<Rightarrow> inv_state"
  pj_cause :: "inv \<Rightarrow> 'p \<Rightarrow> int"
  pj_cause_text :: "inv \<Rightarrow> 'p \<Rightarrow> string"
  pj_dlg :: "inv \<Rightarrow> 'p \<Rightarrow> dlg option"
  pj_require_100rel :: "inv \<Rightarrow> 'p \<Rightarrow> bool"
  pj_has_neg :: "inv \<Rightarrow> 'p \<Rightarrow> bool"
  pj_active_local :: "inv \<Rightarrow> 'p \<Rightarrow> sdp_session option"
  pj_active_remote :: "inv \<Rightarrow> 'p \<Rightarrow> sdp_session option"
  pj_create_sdp_body :: "sdp_session \<Rightarrow> 'p \<Rightarrow> bool"
  pj_inv_answer :: "inv \<Rightarrow> int \<Rightarrow> sdp_session option \<Rightarrow> 'p \<Rightarrow> tx_data option option \<times> 'p"
  pj_inv_initial_answer :: "inv \<Rightarrow> rx_data \<Rightarrow> int \<Rightarrow> sdp_session option \<Rightarrow> 'p \<Rightarrow> tx_data option option \<times> 'p"
  pj_inv_end_session :: "inv \<Rightarrow> int \<Rightarrow> 'p \<Rightarrow> tx_data option option \<times> 'p"
  pj_inv_invite :: "inv \<Rightarrow> 'p \<Rightarrow> tx_data option \<times> 'p"
  pj_inv_send_msg :: "inv \<Rightarrow> tx_data \<Rightarrow> 'p \<Rightarrow> bool \<times> 'p"
  pj_inv_set_sdp_answer :: "inv \<Rightarrow> sdp_session \<Rightarrow> 'p \<Rightarrow> bool \<times> 'p"
  pj_dlg_create_uac :: "string \<Rightarrow> string \<Rightarrow> string \<Rightarrow> string \<Rightarrow> 'p \<Rightarrow> dlg option \<times> 'p"
  pj_inv_create_uac :: "dlg \<Rightarrow> sdp_session \<Rightarrow> 'p \<Rightarrow> inv option \<times> 'p"
  pj_dlg_add_usage :: "dlg \<Rightarrow> 'p \<Rightarrow> bool \<times> 'p"
  pj_dlg_terminate :: "dlg \<Rightarrow> 'p \<Rightarrow> 'p"
  pj_inv_terminate :: "inv \<Rightarrow> int \<Rightarrow> 'p \<Rightarrow> 'p"

subsection \<open>Helpers on invite sessions\<close>

definition is_gone :: "'p pjsip \<Rightarrow> inv option \<Rightarrow> 'p \<Rightarrow> bool" where
  "is_gone K h p = (case h of None \<Rightarrow> True | Some i \<Rightarrow> pj_state K i p = InvDisconnected)"

definition inv_send :: "'p pjsip \<Rightarrow> inv \<Rightarrow> tx_data option \<Rightarrow> 'p \<Rightarrow> bool \<times> 'p" where
  "inv_send K i tdata p =
     (case tdata of
        None \<Rightarrow> (False, p)
      | Some t \<Rightarrow>
          let (ok, p') = pj_inv_send_msg K i t p in
          if \<not> ok then (False, p') else (pj_state K i p' \<noteq> InvDisconnected, p'))"

definition inv_answer :: "'p pjsip \<Rightarrow> inv option \<Rightarrow> int \<Rightarrow> sdp_session option \<Rightarrow> 'p \<Rightarrow> bool \<times> 'p" where
  "inv_answer K h code sdp p =
     (case h of
        None \<Rightarrow> (False, p)
      | Some i \<Rightarrow>
          if is_gone K h p then (False, p)
          else (case pj_inv_answer K i code sdp p of
                  (None, p') \<Rightarrow> (False, p')
                | (Some tdata, p') \<Rightarrow> inv_send K i tdata p'))"

definition answer_with_active_local :: "'p pjsip \<Rightarrow> inv option \<Rightarrow> int \<Rightarrow> 'p \<Rightarrow> bool \<times> 'p" where
  "answer_with_active_local K h code p =
     (case h of
        None \<Rightarrow> (False, p)
      | Some i \<Rightarrow>
          if is_gone K h p then (False, p)
          else (case pj_inv_answer K i code None p of
                  (None, p') \<Rightarrow> (False, p')
                | (Some tdata, p') \<Rightarrow>
                    if \<not> pj_require_100rel K i p' then
                      (case (if pj_has_neg K i p' then pj_active_local K i p' else None) of
                         None \<Rightarrow> (False, p')
                       | Some active_local \<Rightarrow>
                           if \<not> pj_create_sdp_body K active_local p' then (False, p')
                           else inv_send K i (map_option (tx_body_update (\<lambda>_. Some active_local)) tdata) p')
                    else inv_send K i tdata p'))"

definition answer_request ::
  "'p pjsip \<Rightarrow> inv option \<Rightarrow> rx_data option \<Rightarrow> int \<Rightarrow> sdp_session option \<Rightarrow> 'p \<Rightarrow> bool \<times> 'p" where
  "answer_request K h rdata code sdp p =
     (case h of
        None \<Rightarrow> (False, p)
      | Some i \<Rightarrow>
          if is_gone K h p then (False, p)
          else (case rdata of
                  None \<Rightarrow> (False, p)
                | Some r \<Rightarrow>
                    (case pj_inv_initial_answer K i r code sdp p of
                       (None, p') \<Rightarrow> (False, p')
                     | (Some tdata, p') \<Rightarrow> inv_send K i tdata p')))"

definition end_session :: "'p pjsip \<Rightarrow> inv option \<Rightarrow> int \<Rightarrow> 'p \<Rightarrow> 'p" where
  "end_session K h code p =
     (case h of
        None \<Rightarrow> p
      | Some i \<Rightarrow>
          if is_gone K h p then p
          else (case pj_inv_end_session K i code p of
                  (Some (Some tdata), p') \<Rightarrow> snd (pj_inv_send_msg K i tdata p')
                | (_, p') \<Rightarrow> p'))"

subsection \<open>What the helpers promise\<close>

text \<open>A helper that reports success has sent a message on a session that is still up; on a session that is gone
  none of them touches the stack.\<close>

lemma gone_is_left_alone:
  assumes "is_gone K h p"
  shows "inv_answer K h code sdp p = (False, p)" "answer_with_active_local K h code p = (False, p)"
    "answer_request K h rdata code sdp p = (False, p)" "end_session K h code p = p"
  using assms
  by (auto simp: inv_answer_def answer_with_active_local_def answer_request_def end_session_def split: option.splits)

lemma inv_send_up: "inv_send K i tdata p = (True, p') \<Longrightarrow> pj_state K i p' \<noteq> InvDisconnected"
  by (auto simp: inv_send_def split: option.splits prod.splits if_splits)

lemma answered_is_up:
  "inv_answer K h code sdp p = (True, p') \<Longrightarrow> \<not> is_gone K h p'"
  "answer_with_active_local K h code p = (True, p') \<Longrightarrow> \<not> is_gone K h p'"
  "answer_request K h rdata code sdp p = (True, p') \<Longrightarrow> \<not> is_gone K h p'"
  by (auto simp: inv_answer_def answer_with_active_local_def answer_request_def is_gone_def Let_def
      split: option.splits if_splits prod.splits dest: inv_send_up)

text \<open>A stack on which every call succeeds and sessions stay confirmed, for the witnesses of the theories above.\<close>

definition sample_tx :: tx_data where
  "sample_tx = \<lparr>tx_id = 0, tx_body = None, tx_max_fwd = None, tx_require = [], tx_replaces = [], tx_referred_by = None\<rparr>"

definition sample_pjsip :: "unit pjsip" where
  "sample_pjsip = \<lparr>pj_state = (\<lambda>_ _. InvConfirmed), pj_cause = (\<lambda>_ _. 200), pj_cause_text = (\<lambda>_ _. []),
     pj_dlg = (\<lambda>i _. Some i), pj_require_100rel = (\<lambda>_ _. False), pj_has_neg = (\<lambda>_ _. True),
     pj_active_local = (\<lambda>_ _. Some sample_sdp), pj_active_remote = (\<lambda>_ _. Some sample_sdp), pj_create_sdp_body = (\<lambda>_ _. True),
     pj_inv_answer = (\<lambda>_ _ sdp p. (Some (Some (sample_tx\<lparr>tx_body := sdp\<rparr>)), p)),
     pj_inv_initial_answer = (\<lambda>_ _ _ sdp p. (Some (Some (sample_tx\<lparr>tx_body := sdp\<rparr>)), p)),
     pj_inv_end_session = (\<lambda>_ _ p. (Some (Some sample_tx), p)), pj_inv_invite = (\<lambda>_ p. (Some sample_tx, p)),
     pj_inv_send_msg = (\<lambda>_ _ p. (True, p)), pj_inv_set_sdp_answer = (\<lambda>_ _ p. (True, p)),
     pj_dlg_create_uac = (\<lambda>_ _ _ _ p. (Some 2, p)), pj_inv_create_uac = (\<lambda>d _ p. (Some d, p)),
     pj_dlg_add_usage = (\<lambda>_ p. (True, p)), pj_dlg_terminate = (\<lambda>_ p. p), pj_inv_terminate = (\<lambda>_ _ p. p)\<rparr>"

end
