(* ===== verification/Binding_Store.thy ===== *)
theory Binding_Store
  imports SBC_Prelude
begin

text \<open>
  The location service, \<^verbatim>\<open>engine/src/sip/registrar/binding_store.cpp\<close>: for each address of
  record the contacts that are registered, with the rules of RFC 3261 section 10.3. The two hash maps
  are association lists, whose order stands for the order in which the container iterates; times are
  integers (nanosecond ticks of the steady clock). The store is then shown to refine a map from
  addresses and contacts to bindings, and the contract its clients use is stated as a locale.
\<close>

subsection \<open>The store\<close>

record binding =
  bd_contact_uri :: string
  bd_source_address :: string
  bd_source_port :: int
  bd_transport :: string
  bd_call_id :: string
  bd_cseq :: int
  bd_expires_at :: int
  bd_refreshed_at :: int
  bd_mirrored_at :: int

datatype apply_result = kApplied | kCallIdCseqConflict

type_synonym contact_map = "(string \<times> binding) list"
type_synonym binding_store = "(string \<times> contact_map) list"

definition conflicts :: "binding \<Rightarrow> binding \<Rightarrow> bool" where
  "conflicts existing incoming \<longleftrightarrow>
     bd_call_id existing = bd_call_id incoming \<and> bd_cseq incoming \<le> bd_cseq existing"

fun has_conflict :: "contact_map option \<Rightarrow> binding list \<Rightarrow> bool" where
  "has_conflict existing [] = False"
| "has_conflict existing (incoming # contacts) =
     (case existing of
        None \<Rightarrow> has_conflict existing contacts
      | Some m \<Rightarrow>
          (case map_of m (bd_contact_uri incoming) of
             Some b \<Rightarrow> if conflicts b incoming then True else has_conflict existing contacts
           | None \<Rightarrow> has_conflict existing contacts))"

definition apply_contact :: "contact_map \<Rightarrow> binding \<Rightarrow> contact_map" where
  "apply_contact m incoming =
     (if bd_expires_at incoming \<le> bd_refreshed_at incoming then AList.delete (bd_contact_uri incoming) m
      else AList.update (bd_contact_uri incoming) incoming m)"

definition apply_contacts :: "binding_store \<Rightarrow> string \<Rightarrow> binding list \<Rightarrow> apply_result \<times> binding_store" where
  "apply_contacts st aor contacts =
     (let existing = map_of st aor in
      if has_conflict existing contacts then (kCallIdCseqConflict, st)
      else
        let m = foldl apply_contact (case existing of Some m0 \<Rightarrow> m0 | None \<Rightarrow> []) contacts in
        (kApplied, if m = [] then AList.delete aor st else AList.update aor m st))"

definition remove_all :: "binding_store \<Rightarrow> string \<Rightarrow> binding_store" where
  "remove_all st aor = AList.delete aor st"

definition find_live :: "binding_store \<Rightarrow> string \<Rightarrow> int \<Rightarrow> binding list" where
  "find_live st aor now =
     (case map_of st aor of
        None \<Rightarrow> []
      | Some m \<Rightarrow> sort_key (\<lambda>b. - bd_refreshed_at b) (filter (\<lambda>b. bd_expires_at b > now) (map snd m)))"

definition find_preferred :: "binding_store \<Rightarrow> string \<Rightarrow> int \<Rightarrow> binding option" where
  "find_preferred st aor now =
     (case find_live st aor now of [] \<Rightarrow> None | b # _ \<Rightarrow> Some b)"

fun sweep :: "binding_store \<Rightarrow> int \<Rightarrow> binding_store" where
  "sweep [] now = []"
| "sweep ((aor, contacts) # st) now =
     (let contacts' = filter (\<lambda>(uri, b). \<not> bd_expires_at b \<le> now) contacts in
      if contacts' = [] then sweep st now else (aor, contacts') # sweep st now)"

subsection \<open>Invariant\<close>

definition wf_contacts :: "contact_map \<Rightarrow> bool" where
  "wf_contacts m \<longleftrightarrow> distinct (map fst m) \<and>
     (\<forall>(uri, b) \<in> set m. bd_contact_uri b = uri \<and> bd_refreshed_at b < bd_expires_at b)"

definition wf_store :: "binding_store \<Rightarrow> bool" where
  "wf_store st \<longleftrightarrow> distinct (map fst st) \<and> (\<forall>(aor, m) \<in> set st. m \<noteq> [] \<and> wf_contacts m)"

lemma wf_store_Nil [simp]: "wf_store []"
  by (simp add: wf_store_def)

lemma wf_contacts_apply: "wf_contacts m \<Longrightarrow> wf_contacts (apply_contact m b)"
  by (auto simp: wf_contacts_def apply_contact_def distinct_delete distinct_update in_set_alist_delete
      dest!: in_set_alist_update split: if_splits)

lemma wf_contacts_foldl: "wf_contacts m \<Longrightarrow> wf_contacts (foldl apply_contact m bs)"
  by (induction bs arbitrary: m) (simp_all add: wf_contacts_apply)

lemma wf_store_lookup: "wf_store st \<Longrightarrow> map_of st aor = Some m \<Longrightarrow> wf_contacts m \<and> m \<noteq> []"
  by (auto simp: wf_store_def dest: map_of_SomeD)

lemma wf_apply_contacts:
  assumes "wf_store st"
  shows "wf_store (snd (apply_contacts st aor contacts))"
proof -
  let ?m = "foldl apply_contact (case map_of st aor of Some m0 \<Rightarrow> m0 | None \<Rightarrow> []) contacts"
  have "wf_contacts (case map_of st aor of Some m0 \<Rightarrow> m0 | None \<Rightarrow> [])"
    using wf_store_lookup [OF assms] by (cases "map_of st aor") (simp_all add: wf_contacts_def)
  then have "wf_contacts ?m" by (rule wf_contacts_foldl)
  with assms show ?thesis
    by (auto simp: apply_contacts_def wf_store_def Let_def distinct_delete distinct_update
        in_set_alist_delete dest!: in_set_alist_update)
qed

lemma wf_remove_all: "wf_store st \<Longrightarrow> wf_store (remove_all st aor)"
  by (auto simp: remove_all_def wf_store_def distinct_delete in_set_alist_delete)

lemma sweep_alt:
  "sweep st now = filter (\<lambda>(aor, m). m \<noteq> [])
     (map (\<lambda>(aor, m). (aor, filter (\<lambda>(uri, b). \<not> bd_expires_at b \<le> now) m)) st)"
  by (induction st now rule: sweep.induct) (simp_all add: Let_def)

lemma wf_contacts_filter: "wf_contacts m \<Longrightarrow> wf_contacts (filter P m)"
  by (simp add: wf_contacts_def distinct_map_filter)

lemma wf_sweep:
  assumes "wf_store st"
  shows "wf_store (sweep st now)"
proof -
  have "map fst (map (\<lambda>(aor, m). (aor, f m)) st) = map fst st" for f :: "contact_map \<Rightarrow> contact_map"
    by (induction st) auto
  then have "distinct (map fst (sweep st now))"
    using assms unfolding sweep_alt wf_store_def by (intro distinct_map_filter) metis
  moreover have "m \<noteq> [] \<and> wf_contacts m" if mem: "(aor, m) \<in> set (sweep st now)" for aor m
  proof -
    from mem obtain m0 where "(aor, m0) \<in> set st" "m \<noteq> []"
        "m = filter (\<lambda>(uri, b). \<not> bd_expires_at b \<le> now) m0"
      unfolding sweep_alt by auto
    then show ?thesis using assms by (auto simp: wf_store_def intro: wf_contacts_filter)
  qed
  ultimately show ?thesis by (auto simp: wf_store_def)
qed

subsection \<open>Refinement of a map from addresses and contacts to bindings\<close>

type_synonym location_map = "string \<Rightarrow> string \<Rightarrow> binding option"

definition store_abs :: "binding_store \<Rightarrow> location_map" where
  "store_abs st aor = (case map_of st aor of None \<Rightarrow> Map.empty | Some m \<Rightarrow> map_of m)"

definition stale :: "location_map \<Rightarrow> string \<Rightarrow> binding \<Rightarrow> bool" where
  "stale L aor b \<longleftrightarrow> (\<exists>b0. L aor (bd_contact_uri b) = Some b0 \<and> conflicts b0 b)"

definition put_contact :: "(string \<Rightarrow> binding option) \<Rightarrow> binding \<Rightarrow> (string \<Rightarrow> binding option)" where
  "put_contact m b = m(bd_contact_uri b := (if bd_expires_at b \<le> bd_refreshed_at b then None else Some b))"

definition spec_apply :: "location_map \<Rightarrow> string \<Rightarrow> binding list \<Rightarrow> apply_result \<times> location_map" where
  "spec_apply L aor bs =
     (if list_ex (stale L aor) bs then (kCallIdCseqConflict, L)
      else (kApplied, L(aor := foldl put_contact (L aor) bs)))"

definition spec_sweep :: "location_map \<Rightarrow> int \<Rightarrow> location_map" where
  "spec_sweep L now = (\<lambda>aor uri. case L aor uri of Some b \<Rightarrow> if now < bd_expires_at b then Some b else None | None \<Rightarrow> None)"

lemma has_conflict_abs: "has_conflict (map_of st aor) bs = list_ex (stale (store_abs st) aor) bs"
  by (induction bs) (auto simp: stale_def store_abs_def split: option.splits)

lemma map_of_apply_contact: "map_of (apply_contact m b) = put_contact (map_of m) b"
  by (auto simp: apply_contact_def put_contact_def AList.update_conv' AList.delete_conv')

lemma map_of_apply_all: "map_of (foldl apply_contact m bs) = foldl put_contact (map_of m) bs"
  by (induction bs arbitrary: m) (simp_all add: map_of_apply_contact)

lemma store_abs_update: "store_abs (AList.update aor m st) = (store_abs st)(aor := map_of m)"
  by (auto simp: store_abs_def fun_eq_iff AList.update_conv')

lemma store_abs_delete: "store_abs (AList.delete aor st) = (store_abs st)(aor := Map.empty)"
  by (auto simp: store_abs_def fun_eq_iff AList.delete_conv')

lemma apply_contacts_refines:
  "apply_contacts st aor bs = (r, st') \<Longrightarrow> spec_apply (store_abs st) aor bs = (r, store_abs st')"
proof -
  assume 1: "apply_contacts st aor bs = (r, st')"
  let ?m0 = "case map_of st aor of Some m0 \<Rightarrow> m0 | None \<Rightarrow> []"
  have m0: "map_of ?m0 = store_abs st aor" by (simp add: store_abs_def split: option.splits)
  have "map_of (foldl apply_contact ?m0 bs) = foldl put_contact (store_abs st aor) bs"
    by (simp add: map_of_apply_all m0)
  moreover have "map_of (foldl apply_contact ?m0 bs) = Map.empty" if "foldl apply_contact ?m0 bs = []"
    using that by simp
  ultimately show ?thesis
    using 1 by (auto simp: apply_contacts_def spec_apply_def Let_def has_conflict_abs
        store_abs_update store_abs_delete split: if_splits)
qed

lemma remove_all_refines: "store_abs (remove_all st aor) = (store_abs st)(aor := Map.empty)"
  by (simp add: remove_all_def store_abs_delete)

lemma map_of_sweep:
  assumes "distinct (map fst st)"
  shows "map_of (sweep st now) aor =
     (case map_of st aor of
        None \<Rightarrow> None
      | Some m \<Rightarrow>
          let m' = filter (\<lambda>(uri, b). \<not> bd_expires_at b \<le> now) m in if m' = [] then None else Some m')"
  using assms
proof (induction st now rule: sweep.induct)
  case (2 a contacts st now)
  then have "map_of st a = None" by (simp add: map_of_eq_None_iff)
  with 2 show ?case by (cases "a = aor") (simp_all add: Let_def)
qed simp

lemma sweep_refines:
  assumes "wf_store st"
  shows "store_abs (sweep st now) = spec_sweep (store_abs st) now"
proof (intro ext)
  fix aor uri
  have dist: "distinct (map fst st)" using assms by (simp add: wf_store_def)
  show "store_abs (sweep st now) aor uri = spec_sweep (store_abs st) now aor uri"
  proof (cases "map_of st aor")
    case None
    then show ?thesis by (simp add: store_abs_def spec_sweep_def map_of_sweep [OF dist])
  next
    case (Some m)
    then have "distinct (map fst m)" using wf_store_lookup [OF assms] by (simp add: wf_contacts_def)
    note filt = map_of_filter_value [OF this, of "\<lambda>b. \<not> bd_expires_at b \<le> now" uri]
    have "store_abs (sweep st now) aor uri = map_of (filter (\<lambda>(uri, b). \<not> bd_expires_at b \<le> now) m) uri"
      using Some by (simp add: store_abs_def map_of_sweep [OF dist] Let_def)
    then show ?thesis unfolding filt using Some
      by (simp add: store_abs_def spec_sweep_def not_le split: option.splits)
  qed
qed

lemma find_live_sorted: "sorted (map (\<lambda>b. - bd_refreshed_at b) (find_live st aor now))"
  by (auto simp: find_live_def split: option.splits)

lemma set_find_live:
  assumes "wf_store st"
  shows "set (find_live st aor now) = {b. store_abs st aor (bd_contact_uri b) = Some b \<and> now < bd_expires_at b}"
proof (cases "map_of st aor")
  case None
  then show ?thesis by (simp add: find_live_def store_abs_def)
next
  case (Some m)
  then have wf: "wf_contacts m" using wf_store_lookup [OF assms] by simp
  have "b \<in> snd ` set m \<longleftrightarrow> map_of m (bd_contact_uri b) = Some b" for b
    using wf by (force simp: wf_contacts_def dest: map_of_SomeD)
  with Some show ?thesis by (auto simp: find_live_def store_abs_def)
qed

lemma distinct_find_live:
  assumes "wf_store st"
  shows "distinct (find_live st aor now)"
proof (cases "map_of st aor")
  case (Some m)
  then have "wf_contacts m" using wf_store_lookup [OF assms] by simp
  then have "distinct (map bd_contact_uri (map snd m))"
    by (auto simp: wf_contacts_def comp_def case_prod_unfold cong: map_cong)
  then have "distinct (map snd m)" using distinct_map by blast
  with Some show ?thesis by (simp add: find_live_def)
qed (simp add: find_live_def)

subsection \<open>The contract of a location service\<close>

definition live_bindings :: "location_map \<Rightarrow> string \<Rightarrow> int \<Rightarrow> binding set" where
  "live_bindings L aor now = {b. L aor (bd_contact_uri b) = Some b \<and> now < bd_expires_at b}"

locale location_service =
  fixes inv :: "'s \<Rightarrow> bool"
    and read :: "'s \<Rightarrow> location_map"
    and register :: "'s \<Rightarrow> string \<Rightarrow> binding list \<Rightarrow> apply_result \<times> 's"
    and forget :: "'s \<Rightarrow> string \<Rightarrow> 's"
    and purge :: "'s \<Rightarrow> int \<Rightarrow> 's"
    and live :: "'s \<Rightarrow> string \<Rightarrow> int \<Rightarrow> binding list"
  assumes register_inv: "inv st \<Longrightarrow> register st aor bs = (r, st') \<Longrightarrow> inv st'"
    and register_spec: "inv st \<Longrightarrow> register st aor bs = (r, st') \<Longrightarrow>
          spec_apply (read st) aor bs = (r, read st')"
    and forget_inv: "inv st \<Longrightarrow> inv (forget st aor)"
    and forget_spec: "inv st \<Longrightarrow> read (forget st aor) = (read st)(aor := Map.empty)"
    and purge_inv: "inv st \<Longrightarrow> inv (purge st now)"
    and purge_spec: "inv st \<Longrightarrow> read (purge st now) = spec_sweep (read st) now"
    and live_set: "inv st \<Longrightarrow> set (live st aor now) = live_bindings (read st) aor now"
    and live_sorted: "sorted (map (\<lambda>b. - bd_refreshed_at b) (live st aor now))"
begin

lemma register_read:
  "inv st \<Longrightarrow> register st aor bs = (r, st') \<Longrightarrow>
     r = fst (spec_apply (read st) aor bs) \<and> read st' = snd (spec_apply (read st) aor bs)"
  by (drule (1) register_spec) simp

lemma register_other:
  "inv st \<Longrightarrow> register st aor bs = (r, st') \<Longrightarrow> aor' \<noteq> aor \<Longrightarrow> read st' aor' = read st aor'"
  by (drule (1) register_read) (auto simp: spec_apply_def split: if_splits)

lemma register_conflict:
  "inv st \<Longrightarrow> register st aor bs = (kCallIdCseqConflict, st') \<Longrightarrow> read st' = read st"
  by (drule (1) register_read) (auto simp: spec_apply_def split: if_splits)

lemma head_is_newest:
  assumes "inv st" and "live st aor now = b # bs"
  shows "b \<in> live_bindings (read st) aor now"
    and "bd_refreshed_at b = Max (bd_refreshed_at ` live_bindings (read st) aor now)"
proof -
  have set: "live_bindings (read st) aor now = set (b # bs)"
    using live_set [OF assms(1), of aor now] assms(2) by simp
  then show "b \<in> live_bindings (read st) aor now" by simp
  have "bd_refreshed_at x \<le> bd_refreshed_at b" if "x \<in> set (b # bs)" for x
    using live_sorted [of st aor now] assms(2) that by auto
  then show "bd_refreshed_at b = Max (bd_refreshed_at ` live_bindings (read st) aor now)"
    unfolding set by (intro Max_eqI [symmetric]) auto
qed

lemma purge_keeps_live:
  assumes "inv st" and "now \<le> t"
  shows "set (live (purge st now) aor t) = set (live st aor t)"
  using assms by (auto simp: live_set purge_inv purge_spec live_bindings_def spec_sweep_def
      split: option.splits if_splits)

text \<open>A registration of one contact, accepted, is the one a call is routed to from then on until it
  expires or something is registered after it.\<close>

lemma register_then_live:
  assumes "inv st" and "register st aor [b] = (kApplied, st')" and "bd_refreshed_at b \<le> t" and "t < bd_expires_at b"
  shows "b \<in> set (live st' aor t)"
proof -
  have "read st' aor (bd_contact_uri b) = Some b"
    using register_read [OF assms(1,2)] assms(3,4)
    by (auto simp: spec_apply_def put_contact_def split: if_splits)
  with assms show ?thesis by (simp add: live_set [OF register_inv [OF assms(1,2)]] live_bindings_def)
qed

end

interpretation loc: location_service wf_store store_abs apply_contacts remove_all sweep find_live
proof
  show "wf_store st'" if "wf_store st" "apply_contacts st aor bs = (r, st')" for st aor bs r st'
    using wf_apply_contacts [OF that(1), of aor bs] that(2) by simp
  show "set (find_live st aor now) = live_bindings (store_abs st) aor now" if "wf_store st" for st aor now
    using set_find_live [OF that] by (simp add: live_bindings_def)
qed (simp_all add: apply_contacts_refines wf_remove_all remove_all_refines wf_sweep sweep_refines find_live_sorted)

subsection \<open>Every reachable store\<close>

datatype store_op = OpApply string "binding list" | OpRemoveAll string | OpSweep int

fun run_ops :: "binding_store \<Rightarrow> store_op list \<Rightarrow> apply_result list \<times> binding_store" where
  "run_ops st [] = ([], st)"
| "run_ops st (OpApply aor bs # ops) =
     (let (r, st1) = apply_contacts st aor bs; (rs, st2) = run_ops st1 ops in (r # rs, st2))"
| "run_ops st (OpRemoveAll aor # ops) = run_ops (remove_all st aor) ops"
| "run_ops st (OpSweep now # ops) = run_ops (sweep st now) ops"

fun spec_ops :: "location_map \<Rightarrow> store_op list \<Rightarrow> apply_result list \<times> location_map" where
  "spec_ops L [] = ([], L)"
| "spec_ops L (OpApply aor bs # ops) =
     (let (r, L1) = spec_apply L aor bs; (rs, L2) = spec_ops L1 ops in (r # rs, L2))"
| "spec_ops L (OpRemoveAll aor # ops) = spec_ops (L(aor := Map.empty)) ops"
| "spec_ops L (OpSweep now # ops) = spec_ops (spec_sweep L now) ops"

lemma run_ops_refines:
  "wf_store st \<Longrightarrow> wf_store (snd (run_ops st ops)) \<and>
     spec_ops (store_abs st) ops = (fst (run_ops st ops), store_abs (snd (run_ops st ops)))"
proof (induction st ops rule: run_ops.induct)
  case (2 st aor bs ops)
  obtain r st1 where 1: "apply_contacts st aor bs = (r, st1)" by (cases "apply_contacts st aor bs")
  with loc.register_inv [OF "2.prems"] have "wf_store st1" by blast
  from "2.IH" [OF 1 [symmetric] refl this] loc.register_spec [OF "2.prems" 1] 1
  show ?case by (auto simp: case_prod_unfold Let_def)
qed (simp_all add: wf_remove_all wf_sweep remove_all_refines sweep_refines)

text \<open>C23: The binding store implements a map from addresses of record and contacts to bindings: after
  any sequence of registrations, removals and sweeps on an empty store, it has returned the results
  the map operations return, its contents are the map they leave, and it keeps neither an
  address without contacts nor a contact filed under another address or already expired when it was
  stored.\<close>

theorem binding_store_refines_map:
  "wf_store (snd (run_ops [] ops)) \<and>
   spec_ops (\<lambda>_ _. None) ops = (fst (run_ops [] ops), store_abs (snd (run_ops [] ops)))"
proof -
  have "store_abs [] = (\<lambda>_ _. None)" by (simp add: store_abs_def fun_eq_iff)
  with run_ops_refines [of "[]" ops] show ?thesis by simp
qed

text \<open>After any sequence of store operations, a call to an address of record is routed to one of its
  live contacts, the one refreshed last, and it is unroutable exactly when it has no live contact.\<close>

theorem find_preferred_newest_live:
  "case find_preferred (snd (run_ops [] ops)) aor now of
     None \<Rightarrow> live_bindings (store_abs (snd (run_ops [] ops))) aor now = {}
   | Some b \<Rightarrow> b \<in> live_bindings (store_abs (snd (run_ops [] ops))) aor now \<and>
       bd_refreshed_at b = Max (bd_refreshed_at ` live_bindings (store_abs (snd (run_ops [] ops))) aor now)"
proof -
  let ?st = "snd (run_ops [] ops)"
  have wf: "wf_store ?st" using run_ops_refines [of "[]" ops] by simp
  show ?thesis
  proof (cases "find_live ?st aor now")
    case Nil
    then show ?thesis using loc.live_set [OF wf, of aor now] by (simp add: find_preferred_def)
  next
    case (Cons b bs)
    from loc.head_is_newest [OF wf Cons] Cons show ?thesis by (simp add: find_preferred_def)
  qed
qed


abbreviation sample_binding :: "int \<Rightarrow> int \<Rightarrow> int \<Rightarrow> binding" where
  "sample_binding cseq expires refreshed \<equiv>
     \<lparr>bd_contact_uri = ''sip:a@h'', bd_source_address = ''10.0.0.1'', bd_source_port = 5060, bd_transport = ''udp'',
      bd_call_id = ''c1'', bd_cseq = cseq, bd_expires_at = expires, bd_refreshed_at = refreshed, bd_mirrored_at = 0\<rparr>"


text \<open>C39: Sweeping is invisible to call routing: from the time of the sweep on, the live contacts of every
  address of record, and their order up to equal refresh times, are what they would have been without it.\<close>

theorem sweep_invisible_to_routing:
  "set (find_live (sweep (snd (run_ops [] ops)) now) aor (now + int n)) =
     set (find_live (snd (run_ops [] ops)) aor (now + int n)) \<and>
   sorted (map (\<lambda>b. - bd_refreshed_at b) (find_live (sweep (snd (run_ops [] ops)) now) aor (now + int n)))"
  using loc.purge_keeps_live [of "snd (run_ops [] ops)" now "now + int n" aor] run_ops_refines [of "[]" ops]
  by (simp add: find_live_sorted)

text \<open>Sweeping is not invisible to registration: a binding that has expired but was not swept still
  has a registration with the same call identifier and sequence number refused, and the same registration
  is accepted after a sweep.\<close>

theorem sweep_changes_registration:
  "let st = snd (run_ops [] [OpApply ''a@h'' [sample_binding 7 100 10]]) in
     live_bindings (store_abs st) ''a@h'' 200 = {} \<and>
     fst (apply_contacts st ''a@h'' [sample_binding 7 300 200]) = kCallIdCseqConflict \<and>
     fst (apply_contacts (sweep st 200) ''a@h'' [sample_binding 7 300 200]) = kApplied"
  by (auto simp: apply_contacts_def apply_contact_def live_bindings_def store_abs_def conflicts_def)

end
