(* ===== verification/Config_Stores.thy ===== *)
theory Config_Stores
  imports Codecs
begin

text \<open>
  The snapshots the control plane pushes into the engine: SIP users
  (\<^verbatim>\<open>engine/src/sip/registrar/users_store.cpp\<close>) and the routing table
  (\<^verbatim>\<open>engine/src/sip/route_table/routes_store.cpp\<close>), with the protocol structures of
  \<^verbatim>\<open>engine/src/protocols\<close>. The routing table is a flat map keyed by priority: a list of pairs with
  ascending keys. Each operation runs under the store's lock, so it is one step.
\<close>

subsection \<open>SIP users\<close>

record sip_user =
  us_username :: string
  us_realm :: string
  us_ha1 :: string
  us_enabled :: bool

type_synonym users_store = "sip_user list"

definition users_set_snapshot :: "users_store \<Rightarrow> sip_user list \<Rightarrow> users_store" where
  "users_set_snapshot st snapshot = snapshot"

definition is_local_domain :: "users_store \<Rightarrow> string \<Rightarrow> bool" where
  "is_local_domain st realm = list_ex (\<lambda>user. us_enabled user \<and> us_realm user = realm) st"

definition find_user :: "users_store \<Rightarrow> string \<Rightarrow> string \<Rightarrow> sip_user option" where
  "find_user st username realm =
     find (\<lambda>user. us_enabled user \<and> us_username user = username \<and> us_realm user = realm) st"

lemma find_user_SomeD:
  "find_user st username realm = Some user \<Longrightarrow>
     user \<in> set st \<and> us_enabled user \<and> us_username user = username \<and> us_realm user = realm"
  by (auto simp: find_user_def find_Some_iff)

lemma find_user_local: "find_user st username realm = Some user \<Longrightarrow> is_local_domain st realm"
  by (auto simp: is_local_domain_def list_ex_iff dest: find_user_SomeD)

lemma no_users_no_domains: "is_local_domain (users_set_snapshot st []) realm = False"
  by (simp add: is_local_domain_def users_set_snapshot_def)

subsection \<open>The routing table\<close>

record sip_route_rule =
  rt_uri :: string
  rt_sip_address :: string
  rt_port :: int
  rt_codec :: "string option"

record sip_route_snapshot =
  sn_table_id :: string
  sn_version :: int
  sn_routes :: "(int \<times> sip_route_rule) list"

definition routes_set_snapshot :: "sip_route_snapshot \<Rightarrow> sip_route_snapshot \<Rightarrow> sip_route_snapshot" where
  "routes_set_snapshot st snapshot = snapshot"

fun find_route_in :: "(int \<times> sip_route_rule) list \<Rightarrow> string \<Rightarrow> sip_route_rule option" where
  "find_route_in [] request_uri = None"
| "find_route_in ((priority, rule) # routes) request_uri =
     (if rt_uri rule = ''*'' \<or> rt_uri rule = request_uri then Some rule else find_route_in routes request_uri)"

definition find_route :: "sip_route_snapshot \<Rightarrow> string \<Rightarrow> sip_route_rule option" where
  "find_route st request_uri = find_route_in (sn_routes st) request_uri"

definition routes_version :: "sip_route_snapshot \<Rightarrow> int" where
  "routes_version st = sn_version st"

definition route_matches :: "string \<Rightarrow> sip_route_rule \<Rightarrow> bool" where
  "route_matches request_uri rule \<longleftrightarrow> rt_uri rule = ''*'' \<or> rt_uri rule = request_uri"

lemma find_route_in_least:
  assumes "sorted_wrt (<) (map fst routes)"
  shows "find_route_in routes uri = Some rule \<longleftrightarrow>
     (\<exists>prio. (prio, rule) \<in> set routes \<and> route_matches uri rule \<and>
        (\<forall>(prio', rule') \<in> set routes. route_matches uri rule' \<longrightarrow> prio \<le> prio'))"
  using assms
proof (induction routes)
  case (Cons r routes)
  obtain p0 r0 where r: "r = (p0, r0)" by (cases r)
  have later: "p0 < p" if "(p, x) \<in> set routes" for p x
    using Cons.prems r that by force
  show ?case
  proof (cases "route_matches uri r0")
    case True
    then have "find_route_in (r # routes) uri = Some r0" by (simp add: r route_matches_def)
    with True show ?thesis using later by (fastforce simp: r)
  next
    case False
    then have "find_route_in (r # routes) uri = find_route_in routes uri" by (simp add: r route_matches_def)
    with False Cons show ?thesis by (auto simp: r)
  qed
qed simp

lemma find_route_in_None:
  "find_route_in routes uri = None \<longleftrightarrow> (\<forall>(prio, rule) \<in> set routes. \<not> route_matches uri rule)"
  by (induction routes uri rule: find_route_in.induct) (auto simp: route_matches_def)

text \<open>The route of a request is the rule with the lowest priority number among those that match its URI
  exactly or are catch-all, and there is none exactly when no rule matches.\<close>

theorem find_route_least_priority:
  assumes "sorted_wrt (<) (map fst (sn_routes st))"
  shows "case find_route st uri of
     None \<Rightarrow> (\<forall>(prio, rule) \<in> set (sn_routes st). \<not> route_matches uri rule)
   | Some rule \<Rightarrow> (\<exists>prio. (prio, rule) \<in> set (sn_routes st) \<and> route_matches uri rule \<and>
        (\<forall>(prio', rule') \<in> set (sn_routes st). route_matches uri rule' \<longrightarrow> prio \<le> prio'))"
  using find_route_in_least [OF assms, of uri] find_route_in_None [of "sn_routes st" uri]
  unfolding find_route_def by (auto split: option.splits)

abbreviation sample_route :: "string \<Rightarrow> string \<Rightarrow> sip_route_rule" where
  "sample_route uri address \<equiv> \<lparr>rt_uri = uri, rt_sip_address = address, rt_port = 5060, rt_codec = None\<rparr>"

theorem find_route_least_priority_witness:
  "let st = \<lparr>sn_table_id = [], sn_version = 3,
             sn_routes = [(10, sample_route ''sip:a@h'' ''10.0.0.1''), (20, sample_route ''*'' ''10.0.0.2'')]\<rparr> in
   find_route st ''sip:b@h'' = Some (sample_route ''*'' ''10.0.0.2'') \<and>
   (\<forall>(prio, rule) \<in> set (sn_routes st). route_matches ''sip:b@h'' rule \<longrightarrow> 20 \<le> prio)"
  using find_route_least_priority [of "\<lparr>sn_table_id = [], sn_version = 3,
      sn_routes = [(10, sample_route ''sip:a@h'' ''10.0.0.1''), (20, sample_route ''*'' ''10.0.0.2'')]\<rparr>" "''sip:b@h''"]
  by (simp add: find_route_def route_matches_def)

end
