(* ===== verification/Sml_Runner.thy ===== *)
theory Sml_Runner
  imports SBC_Prelude
begin

text \<open>
  The state-machine runner, \<^verbatim>\<open>engine/src/sip/sm/sm_runner.cpp\<close>: one machine of the
  transition-table library the engine uses, owned together with its action object and a
  flag that is up while an event is being dispatched.

  A table is a function from a state, an event and the context the actions run on to the
  transition that fires: the new state, the events the action put into the machine's own process
  queue (the \<^verbatim>\<open>back::process\<close> parameter of the actions) and the new context;
  \<open>None\<close> when no row of the table matches, which the library reports as an unhandled event.
  As in the library, the state changes before the action runs, the queue is first in first out,
  events the actions fire meanwhile go to its end, and the result says whether the event and
  every queued one were handled.
\<close>

type_synonym ('s, 'e, 'c) table = "'s \<Rightarrow> 'e \<Rightarrow> 'c \<Rightarrow> ('s \<times> 'e list \<times> 'c) option"

partial_function (option) process_queued_events ::
    "('s, 'e, 'c) table \<Rightarrow> 's \<Rightarrow> 'c \<Rightarrow> bool \<Rightarrow> 'e list \<Rightarrow> ('s \<times> 'c \<times> bool) option" where
  "process_queued_events T s c handled q =
     (case q of
        [] \<Rightarrow> Some (s, c, handled)
      | e # q' \<Rightarrow>
          (case T s e c of
             None \<Rightarrow> process_queued_events T s c False q'
           | Some (s', es, c') \<Rightarrow> process_queued_events T s' c' handled (q' @ es)))"

lemma process_queued_events_Nil [simp, table_simps]:
  "process_queued_events T s c h [] = Some (s, c, h)"
  by (simp add: process_queued_events.simps)

lemma process_queued_events_Cons [table_simps]:
  "process_queued_events T s c h (e # q) =
     (case T s e c of
        None \<Rightarrow> process_queued_events T s c False q
      | Some (s', es, c') \<Rightarrow> process_queued_events T s' c' h (q @ es))"
  by (subst process_queued_events.simps) simp

definition sml_process_event ::
    "('s, 'e, 'c) table \<Rightarrow> 's \<Rightarrow> 'c \<Rightarrow> 'e \<Rightarrow> ('s \<times> 'c \<times> bool) option" where
  "sml_process_event T s c e =
     (case T s e c of
        None \<Rightarrow> Some (s, c, False)
      | Some (s', es, c') \<Rightarrow> process_queued_events T s' c' True es)"

subsection \<open>The runner\<close>

record 's runner =
  rn_state :: 's
  rn_initial :: 's
  rn_processing :: bool

definition new_runner :: "'s \<Rightarrow> 's runner" where
  "new_runner s0 = \<lparr>rn_state = s0, rn_initial = s0, rn_processing = False\<rparr>"

definition process_event ::
    "('s, 'e, 'c) table \<Rightarrow> 's runner \<Rightarrow> 'c \<Rightarrow> 'e \<Rightarrow> ('s runner \<times> 'c \<times> bool) option" where
  "process_event T r c e =
     (let r1 = r\<lparr>rn_processing := True\<rparr> in
      case sml_process_event T (rn_state r1) c e of
        None \<Rightarrow> None
      | Some (s', c', handled) \<Rightarrow> Some (r1\<lparr>rn_state := s', rn_processing := False\<rparr>, c', handled))"

definition is_in :: "'s runner \<Rightarrow> 's \<Rightarrow> bool" where
  "is_in r s \<longleftrightarrow> rn_state r = s"

definition is_processing :: "'s runner \<Rightarrow> bool" where
  "is_processing r \<longleftrightarrow> rn_processing r"

text \<open>\<^verbatim>\<open>reset\<close> destroys the machine and builds it again in place; the flag is not
  part of the machine and keeps its value.\<close>

definition reset :: "'s runner \<Rightarrow> 's runner" where
  "reset r = r\<lparr>rn_state := rn_initial r\<rparr>"

fun run_events ::
    "('s, 'e, 'c) table \<Rightarrow> 's \<Rightarrow> 'c \<Rightarrow> 'e list \<Rightarrow> ('s \<times> 'c) option" where
  "run_events T s c [] = Some (s, c)"
| "run_events T s c (e # es) =
     (case sml_process_event T s c e of
        None \<Rightarrow> None
      | Some (s', c', _) \<Rightarrow> run_events T s' c' es)"

subsection \<open>Machines whose self-fired events run down\<close>

text \<open>
  What every user of a runner relies on: an event is dispatched in finitely many steps. The
  tables of the engine guarantee it because the events an action fires weigh less than the event
  that triggered it.
\<close>

locale sml_machine =
  fixes T :: "('s, 'e, 'c) table"
    and w :: "'e \<Rightarrow> nat"
  assumes weight_pos: "0 < w e"
    and fires_less: "T s e c = Some (s', es, c') \<Longrightarrow> weight_of w es < w e"
begin

text \<open>Draining the queue: an invariant of state, context and pending events that every
  dispatched event keeps holds at the end, where nothing is pending; and the end is reached.\<close>

lemma drain_rule:
  assumes "J s c q"
    and unhandled: "\<And>s c e q. J s c (e # q) \<Longrightarrow> T s e c = None \<Longrightarrow> J s c q"
    and handled: "\<And>s c e q s' es c'. J s c (e # q) \<Longrightarrow> T s e c = Some (s', es, c') \<Longrightarrow>
                    J s' c' (q @ es)"
  shows "\<exists>s' c' h'. process_queued_events T s c h q = Some (s', c', h') \<and> J s' c' []"
  using assms(1)
proof (induction "weight_of w q" arbitrary: s c h q rule: less_induct)
  case less
  show ?case
  proof (cases q)
    case Nil
    with less.prems show ?thesis by simp
  next
    case (Cons e q')
    note pos = weight_pos [of e]
    show ?thesis
    proof (cases "T s e c")
      case None
      with less.prems Cons have "J s c q'" using unhandled by blast
      with less.hyps [of q'] Cons pos None show ?thesis
        by (auto simp: process_queued_events_Cons)
    next
      case (Some t)
      then obtain s' es c' where t: "T s e c = Some (s', es, c')" by (cases t) auto
      with less.prems Cons have "J s' c' (q' @ es)" using handled by blast
      moreover have "weight_of w (q' @ es) < weight_of w q"
        using fires_less [OF t] Cons by simp
      ultimately have "\<exists>s'' c'' h''. process_queued_events T s' c' h (q' @ es) = Some (s'', c'', h'') \<and>
          J s'' c'' []"
        by (intro less.hyps) auto
      with t Cons show ?thesis by (simp add: process_queued_events_Cons)
    qed
  qed
qed

lemma dispatch_rule:
  assumes "J s c [e]"
    and unhandled: "\<And>s c e q. J s c (e # q) \<Longrightarrow> T s e c = None \<Longrightarrow> J s c q"
    and handled: "\<And>s c e q s' es c'. J s c (e # q) \<Longrightarrow> T s e c = Some (s', es, c') \<Longrightarrow>
                    J s' c' (q @ es)"
  shows "\<exists>s' c' h'. sml_process_event T s c e = Some (s', c', h') \<and> J s' c' []"
proof (cases "T s e c")
  case None
  with assms show ?thesis by (auto simp: sml_process_event_def)
next
  case (Some t)
  then obtain s' es c' where t: "T s e c = Some (s', es, c')" by (cases t) auto
  have "J s' c' es" using handled [OF assms(1) t] by simp
  from drain_rule [of J, OF this unhandled handled]
  show ?thesis using t by (auto simp: sml_process_event_def)
qed

theorem dispatch_returns: "\<exists>s' c' h'. sml_process_event T s c e = Some (s', c', h')"
  using dispatch_rule [of "\<lambda>_ _ _. True" s c e] by simp

lemma dispatch_inv:
  assumes "I s c" and "sml_process_event T s c e = Some (s', c', h)"
    and "\<And>s e c s' es c'. I s c \<Longrightarrow> T s e c = Some (s', es, c') \<Longrightarrow> I s' c'"
  shows "I s' c'"
  using dispatch_rule [of "\<lambda>s c _. I s c" s c e] assms by auto

lemma run_returns: "\<exists>s' c'. run_events T s c es = Some (s', c')"
proof (induction es arbitrary: s c)
  case (Cons e es)
  from dispatch_returns [of s c e] obtain s' c' h where "sml_process_event T s c e = Some (s', c', h)"
    by blast
  with Cons show ?case by simp
qed simp

lemma run_inv:
  assumes "I s c" and "run_events T s c es = Some (s', c')"
    and step: "\<And>s c e s' c' h. I s c \<Longrightarrow> sml_process_event T s c e = Some (s', c', h) \<Longrightarrow> I s' c'"
  shows "I s' c'"
  using assms(1,2)
proof (induction es arbitrary: s c)
  case (Cons e es)
  from dispatch_returns [of s c e] obtain s1 c1 h where 1: "sml_process_event T s c e = Some (s1, c1, h)"
    by blast
  with Cons.prems step have "I s1 c1" by blast
  with 1 Cons show ?case by simp
qed simp

end

end
