(* ===== verification/Setup_Sm.thy ===== *)
theory Setup_Sm
  imports Sml_Runner Codecs
begin

text \<open>
  The call-setup machine: the setup events of \<^verbatim>\<open>events.hpp\<close>, the action interface
  \<^verbatim>\<open>i_setup_actions.hpp\<close> and the table of \<^verbatim>\<open>setup_sm.hpp\<close>, all under
  \<^verbatim>\<open>engine/src/sip/sm/\<close>.
\<close>

subsection \<open>Events, states and the action interface\<close>

datatype setup_event =
    Requested
  | RouteFound string "supported_codec option"
  | RouteFailed
  | LoopDetected
  | CodecMismatch
  | ProgressReceived int bool
  | SuExchangeFinished exchange_outcome
  | CancelRequested
  | CancellationCompleted
  | SuCleanup

datatype setup_state =
    SuIdle | Routing | Negotiating | Ringing | Cancelling | Established | SuFailed | SuDone

datatype route_kind = KFound | KFailed | KLoop | KCodecMismatch

record route_resolution =
  rr_kind :: route_kind
  rr_destination :: string
  rr_required_codec :: "supported_codec option"

record 'c setup_actions =
  begin_setup :: "'c \<Rightarrow> 'c"
  resolve_route :: "'c \<Rightarrow> route_resolution \<times> 'c"
  route_failed :: "'c \<Rightarrow> 'c"
  routing_loop_detected :: "'c \<Rightarrow> 'c"
  codec_mismatch_detected :: "'c \<Rightarrow> 'c"
  start_exchange :: "string \<Rightarrow> supported_codec option \<Rightarrow> 'c \<Rightarrow> exchange_outcome \<times> 'c"
  report_progress :: "int \<Rightarrow> bool \<Rightarrow> 'c \<Rightarrow> 'c"
  is_new_progress :: "'c \<Rightarrow> int \<Rightarrow> bool \<Rightarrow> bool"
  cancel_call :: "'c \<Rightarrow> bool \<times> 'c"
  establish_call :: "'c \<Rightarrow> 'c"
  su_terminate_call :: "'c \<Rightarrow> 'c"
  su_cleanup :: "'c \<Rightarrow> 'c"

subsection \<open>The actions of the table\<close>

definition su_begin :: "'c setup_actions \<Rightarrow> 'c \<Rightarrow> setup_event list \<times> 'c" where
  "su_begin A c =
     (let (route, c') = resolve_route A (begin_setup A c) in
      case rr_kind route of
        KFound \<Rightarrow> ([RouteFound (rr_destination route) (rr_required_codec route)], c')
      | KFailed \<Rightarrow> ([RouteFailed], c')
      | KLoop \<Rightarrow> ([LoopDetected], c')
      | KCodecMismatch \<Rightarrow> ([CodecMismatch], c'))"

definition su_route_failed :: "'c setup_actions \<Rightarrow> 'c \<Rightarrow> setup_event list \<times> 'c" where
  "su_route_failed A c = ([SuCleanup], su_terminate_call A (route_failed A c))"

definition su_loop :: "'c setup_actions \<Rightarrow> 'c \<Rightarrow> setup_event list \<times> 'c" where
  "su_loop A c = ([SuCleanup], su_terminate_call A (routing_loop_detected A c))"

definition su_codec_mismatch :: "'c setup_actions \<Rightarrow> 'c \<Rightarrow> setup_event list \<times> 'c" where
  "su_codec_mismatch A c = ([SuCleanup], su_terminate_call A (codec_mismatch_detected A c))"

definition su_start :: "'c setup_actions \<Rightarrow> string \<Rightarrow> supported_codec option \<Rightarrow> 'c \<Rightarrow> setup_event list \<times> 'c" where
  "su_start A dest codec c =
     (let (outcome, c') = start_exchange A dest codec c in
      if outcome \<noteq> OPending then ([SuExchangeFinished outcome], c') else ([], c'))"

definition su_cancel :: "'c setup_actions \<Rightarrow> 'c \<Rightarrow> setup_event list \<times> 'c" where
  "su_cancel A c =
     (let (completed, c') = cancel_call A c in
      if completed then ([CancellationCompleted], c') else ([], c'))"

definition su_failed :: "'c setup_actions \<Rightarrow> 'c \<Rightarrow> setup_event list \<times> 'c" where
  "su_failed A c = ([SuCleanup], su_terminate_call A c)"

subsection \<open>The transition table\<close>

fun setup_table :: "'c setup_actions \<Rightarrow> (setup_state, setup_event, 'c) table" where
  "setup_table A SuIdle e c = (case e of Requested \<Rightarrow> Some (Routing, su_begin A c) | _ \<Rightarrow> None)"
| "setup_table A Routing e c =
     (case e of
        RouteFound dest codec \<Rightarrow> Some (Negotiating, su_start A dest codec c)
      | RouteFailed \<Rightarrow> Some (SuFailed, su_route_failed A c)
      | LoopDetected \<Rightarrow> Some (SuFailed, su_loop A c)
      | CodecMismatch \<Rightarrow> Some (SuFailed, su_codec_mismatch A c)
      | _ \<Rightarrow> None)"
| "setup_table A Negotiating e c =
     (case e of
        ProgressReceived code early \<Rightarrow> Some (Ringing, [], report_progress A code early c)
      | SuExchangeFinished oc \<Rightarrow>
          if oc = OCommitted then Some (Established, [], establish_call A c)
          else if oc = ORolledBack then Some (SuFailed, su_failed A c)
          else if oc = OFailed then Some (SuFailed, su_failed A c)
          else None
      | CancelRequested \<Rightarrow> Some (Cancelling, su_cancel A c)
      | _ \<Rightarrow> None)"
| "setup_table A Ringing e c =
     (case e of
        ProgressReceived code early \<Rightarrow>
          if is_new_progress A c code early then Some (Ringing, [], report_progress A code early c)
          else Some (Ringing, [], c)
      | SuExchangeFinished oc \<Rightarrow>
          if oc = OCommitted then Some (Established, [], establish_call A c)
          else if oc = ORolledBack then Some (SuFailed, su_failed A c)
          else if oc = OFailed then Some (SuFailed, su_failed A c)
          else None
      | CancelRequested \<Rightarrow> Some (Cancelling, su_cancel A c)
      | _ \<Rightarrow> None)"
| "setup_table A Cancelling e c =
     (case e of
        CancelRequested \<Rightarrow> Some (Cancelling, su_cancel A c)
      | SuExchangeFinished oc \<Rightarrow>
          if oc = ORolledBack then Some (Cancelling, [], c)
          else if oc = OCommitted then Some (SuFailed, su_failed A c)
          else if oc = OFailed then Some (SuFailed, su_failed A c)
          else None
      | CancellationCompleted \<Rightarrow> Some (SuFailed, [SuCleanup], c)
      | _ \<Rightarrow> None)"
| "setup_table A SuFailed e c = (case e of SuCleanup \<Rightarrow> Some (SuDone, [], su_cleanup A c) | _ \<Rightarrow> None)"
| "setup_table A Established e c = None"
| "setup_table A SuDone e c = None"

lemmas su_defs = su_begin_def su_route_failed_def su_loop_def su_codec_mismatch_def su_start_def
  su_cancel_def su_failed_def

text \<open>The events an action fires weigh less than the event it runs for: routing results before
  exchange results before the clean-up.\<close>

fun setup_weight :: "setup_event \<Rightarrow> nat" where
  "setup_weight Requested = 4"
| "setup_weight (RouteFound _ _) = 3"
| "setup_weight CancelRequested = 3"
| "setup_weight SuCleanup = 1"
| "setup_weight _ = 2"

interpretation su: sml_machine "setup_table A" setup_weight for A :: "'c setup_actions"
proof
  show "0 < setup_weight e" for e by (cases e) simp_all
  show "weight_of setup_weight es < setup_weight e" if "setup_table A s e c = Some (s', es, c')"
    for s e c s' es c'
    using that
    by (cases s; cases e)
      (auto simp: su_defs Let_def split: prod.splits route_kind.splits if_splits)
qed

subsection \<open>Every call a setup makes\<close>

datatype setup_call =
    CBeginSetup | CResolveRoute | CRouteFailed | CLoopDetected | CCodecMismatch | CStartExchange
  | CReportProgress int bool | CCancelCall | CEstablishCall | CTerminateSetup | CSetupCleanup

definition logged_setup :: "'c setup_actions \<Rightarrow> (setup_call list \<times> 'c) setup_actions" where
  "logged_setup A = \<lparr>
     begin_setup = (\<lambda>(l, c). (l @ [CBeginSetup], begin_setup A c)),
     resolve_route = (\<lambda>(l, c). let (r, c') = resolve_route A c in (r, (l @ [CResolveRoute], c'))),
     route_failed = (\<lambda>(l, c). (l @ [CRouteFailed], route_failed A c)),
     routing_loop_detected = (\<lambda>(l, c). (l @ [CLoopDetected], routing_loop_detected A c)),
     codec_mismatch_detected = (\<lambda>(l, c). (l @ [CCodecMismatch], codec_mismatch_detected A c)),
     start_exchange = (\<lambda>d k (l, c). let (oc, c') = start_exchange A d k c in (oc, (l @ [CStartExchange], c'))),
     report_progress = (\<lambda>n b (l, c). (l @ [CReportProgress n b], report_progress A n b c)),
     is_new_progress = (\<lambda>(l, c). is_new_progress A c),
     cancel_call = (\<lambda>(l, c). let (b, c') = cancel_call A c in (b, (l @ [CCancelCall], c'))),
     establish_call = (\<lambda>(l, c). (l @ [CEstablishCall], establish_call A c)),
     su_terminate_call = (\<lambda>(l, c). (l @ [CTerminateSetup], su_terminate_call A c)),
     su_cleanup = (\<lambda>(l, c). (l @ [CSetupCleanup], su_cleanup A c))\<rparr>"

lemma logged_setup_step:
  "setup_table A s e c =
     map_option (\<lambda>(s', es, (_, c')). (s', es, c')) (setup_table (logged_setup A) s e (l, c))"
  by (cases s; cases e)
    (auto simp: logged_setup_def su_defs Let_def split: prod.splits route_kind.splits)

text \<open>What has been called by the time the machine is in a state.\<close>

abbreviation times :: "'a \<Rightarrow> 'a list \<Rightarrow> nat" where
  "times k l \<equiv> calls (\<lambda>x. x = k) l"

definition setup_history :: "setup_state \<Rightarrow> setup_call list \<Rightarrow> bool" where
  "setup_history s l \<longleftrightarrow>
     times CBeginSetup l = (if s = SuIdle then 0 else 1) \<and>
     times CResolveRoute l = (if s = SuIdle then 0 else 1) \<and>
     times CStartExchange l \<le> (if s \<in> {SuIdle, Routing} then 0 else 1) \<and>
     times CEstablishCall l = (if s = Established then 1 else 0) \<and>
     times CSetupCleanup l = (if s = SuDone then 1 else 0) \<and>
     times CTerminateSetup l \<le> (if s \<in> {SuFailed, SuDone} then 1 else 0) \<and>
     (s \<in> {SuIdle, Routing, Negotiating, Ringing, Established} \<longrightarrow> times CCancelCall l = 0) \<and>
     (s \<in> {SuFailed, SuDone, Cancelling} \<longrightarrow> 0 < times CTerminateSetup l + times CCancelCall l) \<and>
     (s = SuDone \<longrightarrow> last l = CSetupCleanup)"

text \<open>While a dispatch runs at most one self-fired event is pending, and the transient states wait
  for theirs.\<close>

definition setup_pending :: "setup_state \<Rightarrow> setup_event list \<Rightarrow> bool" where
  "setup_pending s q \<longleftrightarrow> length q \<le> 1 \<and>
     (s = Routing \<longrightarrow> (\<exists>d k. q = [RouteFound d k]) \<or> q \<in> {[RouteFailed], [LoopDetected], [CodecMismatch]}) \<and>
     (s = SuFailed \<longrightarrow> q = [SuCleanup])"

lemma setup_step_history:
  assumes "setup_history s l" "setup_pending s (e # q)"
    and "setup_table (logged_setup A) s e (l, c) = Some (s', es, (l', c'))"
  shows "setup_history s' l' \<and> setup_pending s' (q @ es)"
  using assms
  by (cases s; cases e)
    (auto simp: logged_setup_def su_defs setup_history_def setup_pending_def Let_def
      split: prod.splits route_kind.splits if_splits)

lemma setup_unhandled:
  assumes "setup_pending s (e # q)" and "setup_table A s e c = None"
  shows "setup_pending s q"
  using assms by (cases s) (auto simp: setup_pending_def split: setup_event.splits if_splits)

definition setup_stable :: "setup_state \<Rightarrow> bool" where
  "setup_stable s \<longleftrightarrow> s \<notin> {Routing, SuFailed}"

lemma setup_dispatch_history:
  assumes "setup_history s l" "setup_stable s"
  shows "\<exists>s' l' c' h. sml_process_event (setup_table (logged_setup A)) s (l, c) e = Some (s', (l', c'), h) \<and>
     setup_history s' l' \<and> setup_stable s'"
proof -
  let ?J = "\<lambda>s (l, c) q. setup_history s l \<and> setup_pending s q"
  have "?J s (l, c) [e]" using assms by (auto simp: setup_pending_def setup_stable_def)
  moreover have "?J s c q" if "?J s c (e # q)" "setup_table (logged_setup A) s e c = None" for s c e q
    using that by (auto dest: setup_unhandled)
  moreover have "?J s' c' (q @ es)"
    if "?J s c (e # q)" "setup_table (logged_setup A) s e c = Some (s', es, c')" for s c e q s' es c'
    using that by (cases c; cases c') (auto dest: setup_step_history)
  ultimately have "\<exists>s' c' h. sml_process_event (setup_table (logged_setup A)) s (l, c) e = Some (s', c', h) \<and>
      ?J s' c' []"
    by (rule su.dispatch_rule)
  then show ?thesis by (auto simp: setup_pending_def setup_stable_def)
qed

lemma setup_run_history:
  assumes "setup_history s l" "setup_stable s"
  shows "\<exists>s' l' c'. run_events (setup_table (logged_setup A)) s (l, c) es = Some (s', (l', c')) \<and>
     setup_history s' l' \<and> setup_stable s'"
  using assms
proof (induction es arbitrary: s l c)
  case (Cons e es)
  from setup_dispatch_history [OF Cons.prems, of A c e] obtain s1 l1 c1 h where
    1: "sml_process_event (setup_table (logged_setup A)) s (l, c) e = Some (s1, (l1, c1), h)"
      "setup_history s1 l1" "setup_stable s1"
    by blast
  from Cons.IH [OF this(2,3), of c1] 1(1) show ?case by auto
qed auto

text \<open>C13: Whatever events the SIP stack delivers during call setup and whatever the actions do, every
  dispatch returns and leaves setup in a stable state. The call is established exactly once if setup ends in
  Established and never otherwise; clean-up runs exactly once, last, when setup is done and never
  otherwise; the call is terminated at most once, never while it is being set up, and a setup that is
  done or cancelling was terminated or cancelled before.\<close>

theorem setup_lifecycle:
  "\<exists>s l c'. run_events (setup_table (logged_setup A)) SuIdle ([], c) es = Some (s, (l, c')) \<and>
     setup_stable s \<and> setup_history s l"
proof -
  have "setup_history SuIdle []" "setup_stable SuIdle"
    by (simp_all add: setup_history_def setup_stable_def)
  from setup_run_history [OF this, of A c es] show ?thesis by blast
qed

end
