(* ===== verification/Routing.thy ===== *)
theory Routing
  imports Binding_Store Config_Stores Sdp Setup_Sm
begin

text \<open>
  Route resolution of a new call, \<^verbatim>\<open>SetupActions::resolve_route\<close> of
  \<^verbatim>\<open>engine/src/sip/call/setup_actions.cpp\<close>: first the registered users, then the routing table,
  with the guards against a direct loop and against a codec the caller does not offer. The stores are optional, as
  the pointers of the source are; the time is the reading of the clock the function makes.
\<close>

record route_stores =
  ro_users :: "users_store option"
  ro_bindings :: "binding_store option"
  ro_routes :: "sip_route_snapshot option"

record sbc_config =
  cf_local_ip :: string
  cf_sip_port :: int
  cf_identity_user :: string
  cf_max_hold_duration_s :: int

abbreviation resolution :: "route_kind \<Rightarrow> string \<Rightarrow> supported_codec option \<Rightarrow> route_resolution" where
  "resolution kind dest codec \<equiv> \<lparr>rr_kind = kind, rr_destination = dest, rr_required_codec = codec\<rparr>"

definition sip_destination :: "string \<Rightarrow> string \<Rightarrow> int \<Rightarrow> string" where
  "sip_destination user address port =
     (if user = [] then ''sip:'' @ address @ '':'' @ format_int port
      else ''sip:'' @ user @ ''@'' @ address @ '':'' @ format_int port)"

definition resolve_local :: "route_stores \<Rightarrow> string \<Rightarrow> int \<Rightarrow> route_resolution option" where
  "resolve_local stores request_uri now =
     (case (ro_users stores, ro_bindings stores) of
        (Some users, Some bindings) \<Rightarrow>
          let host = extract_uri_host request_uri in
          if is_local_domain users host then
            let user = extract_uri_user request_uri in
            (case find_user users user host of
               Some _ \<Rightarrow>
                 (case find_preferred bindings (make_aor user host) now of
                    Some b \<Rightarrow> Some (resolution KFound
                       (''sip:'' @ user @ ''@'' @ bd_source_address b @ '':'' @ format_int (bd_source_port b)) None)
                  | None \<Rightarrow> Some (resolution KFailed [] None))
             | None \<Rightarrow> None)
          else None
      | _ \<Rightarrow> None)"

definition required_codec :: "pjmedia \<Rightarrow> string \<Rightarrow> sip_route_rule \<Rightarrow> supported_codec option option" where
  "required_codec P caller_offer_sdp route =
     (case rt_codec route of
        None \<Rightarrow> Some None
      | Some name \<Rightarrow>
          (case find_supported_codec_by_name name of
             None \<Rightarrow> None
           | Some supported \<Rightarrow>
               let offered = extract_all_audio_codecs P (sdp_parse P caller_offer_sdp) in
               if list_ex (\<lambda>codec. ac_name codec = sc_name supported) offered then Some (Some supported) else None))"

definition do_resolve_route :: "pjmedia \<Rightarrow> sbc_config \<Rightarrow> route_stores \<Rightarrow> string \<Rightarrow> string \<Rightarrow> int \<Rightarrow> route_resolution" where
  "do_resolve_route P config stores request_uri caller_offer_sdp now =
     (case resolve_local stores request_uri now of
        Some res \<Rightarrow> res
      | None \<Rightarrow>
          (case (case ro_routes stores of Some routes \<Rightarrow> find_route routes request_uri | None \<Rightarrow> None) of
             None \<Rightarrow> resolution KFailed [] None
           | Some route \<Rightarrow>
               if rt_sip_address route = cf_local_ip config \<and> rt_port route = cf_sip_port config
               then resolution KLoop [] None
               else
                 (case required_codec P caller_offer_sdp route of
                    None \<Rightarrow> resolution KCodecMismatch [] None
                  | Some codec \<Rightarrow>
                      resolution KFound
                        (sip_destination (extract_uri_user (rt_uri route)) (rt_sip_address route) (rt_port route)) codec)))"

subsection \<open>What each resolution means\<close>

definition known_local_user :: "route_stores \<Rightarrow> string \<Rightarrow> bool" where
  "known_local_user stores uri \<longleftrightarrow> ro_bindings stores \<noteq> None \<and>
     (case ro_users stores of None \<Rightarrow> False
      | Some users \<Rightarrow> find_user users (extract_uri_user uri) (extract_uri_host uri) \<noteq> None)"

definition table_route :: "route_stores \<Rightarrow> string \<Rightarrow> sip_route_rule option" where
  "table_route stores uri = (case ro_routes stores of Some routes \<Rightarrow> find_route routes uri | None \<Rightarrow> None)"

definition codec_ok :: "pjmedia \<Rightarrow> string \<Rightarrow> sip_route_rule \<Rightarrow> supported_codec option \<Rightarrow> bool" where
  "codec_ok P offer route codec =
     (case rt_codec route of
        None \<Rightarrow> codec = None
      | Some name \<Rightarrow> (\<exists>s. codec = Some s \<and> s \<in> set kSupportedCodecs \<and> sc_name s = name \<and>
           list_ex (\<lambda>c. ac_name c = sc_name s) (extract_all_audio_codecs P (sdp_parse P offer))))"

lemma required_codec_Some: "required_codec P offer route = Some codec \<longleftrightarrow> codec_ok P offer route codec"
  by (auto simp: required_codec_def codec_ok_def find_by_name_iff Let_def split: option.splits if_splits)
    (metis find_by_name_iff option.distinct(1) option.inject)+

lemma resolve_local_Some:
  "resolve_local stores uri now =
     (if known_local_user stores uri then
        Some (case find_preferred (the (ro_bindings stores)) (make_aor (extract_uri_user uri) (extract_uri_host uri)) now of
          Some b \<Rightarrow> resolution KFound (''sip:'' @ extract_uri_user uri @ ''@'' @ bd_source_address b @ '':'' @
                      format_int (bd_source_port b)) None
        | None \<Rightarrow> resolution KFailed [] None)
      else None)"
  by (auto simp: resolve_local_def known_local_user_def Let_def split: option.splits dest: find_user_local)


text \<open>The codec a route demands is compared with the caller's offer by exact spelling, although encoding names
  are case-insensitive: a caller that offers the demanded codec in other letters is turned away as
  having no common codec, while the codec choice for answers would accept the same offer.\<close>

theorem route_codec_case_sensitive:
  assumes "\<not> known_local_user stores uri" "table_route stores uri = Some rule"
    and "(rt_sip_address rule, rt_port rule) \<noteq> (cf_local_ip config, cf_sip_port config)"
    and "rt_codec rule = Some ''G722''"
    and "map ac_name (extract_all_audio_codecs P (sdp_parse P offer)) = [''g722'']"
  shows "rr_kind (do_resolve_route P config stores uri offer now) = KCodecMismatch \<and>
    pick_answer_codec None (extract_all_audio_codecs P (sdp_parse P offer)) = find_supported_codec_by_name ''G722''"
proof -
  obtain c where c: "extract_all_audio_codecs P (sdp_parse P offer) = [c]" "ac_name c = ''g722''"
    using assms(5) by auto
  have "\<not> codec_ok P offer rule codec" for codec using assms(4) c by (auto simp: codec_ok_def)
  then have "required_codec P offer rule = None" by (cases "required_codec P offer rule") (auto simp: required_codec_Some)
  with assms(1-3) have "rr_kind (do_resolve_route P config stores uri offer now) = KCodecMismatch"
    by (auto simp: do_resolve_route_def resolve_local_Some table_route_def split: option.splits)
  moreover have "ascii_iequals ''g722'' ''G722''" by code_simp
  then have "pick_answer_codec None [c] = find_supported_codec_by_name ''G722''"
    by (simp add: pick_answer_codec_def find_supported_codec_by_name_def kSupportedCodecs_def offers_def c(2)
        del: ascii_iequals.simps)
  ultimately show ?thesis by (simp add: c(1))
qed

definition lower_case_offer :: pjmedia where
  "lower_case_offer = sample_pjmedia\<lparr>pm_parse := (\<lambda>_. Some \<lparr>sd_conn = None, sd_attr = [],
     sd_media = [\<lparr>md_type = ''audio'', md_port = 4000, md_transport = ''RTP/AVP'', md_fmt = [''97''], md_conn = None,
                  md_attr = [\<lparr>at_name = ''rtpmap'', at_value = ''97 g722/8000''\<rparr>]\<rparr>]\<rparr>)\<rparr>"

abbreviation sample_config :: sbc_config where
  "sample_config \<equiv> \<lparr>cf_local_ip = ''10.0.0.1'', cf_sip_port = 5060, cf_identity_user = ''sbc'', cf_max_hold_duration_s = 0\<rparr>"

theorem route_codec_case_sensitive_witness:
  "rr_kind (do_resolve_route lower_case_offer sample_config
     \<lparr>ro_users = None, ro_bindings = None, ro_routes = Some \<lparr>sn_table_id = [], sn_version = 1,
        sn_routes = [(1, \<lparr>rt_uri = ''*'', rt_sip_address = ''10.0.0.2'', rt_port = 5060, rt_codec = Some ''G722''\<rparr>)]\<rparr>\<rparr>
     ''sip:b@h'' ''v=0'' 0) = KCodecMismatch"
proof -
  let ?rule = "\<lparr>rt_uri = ''*'', rt_sip_address = ''10.0.0.2'', rt_port = 5060, rt_codec = Some ''G722''\<rparr>"
  let ?st = "\<lparr>ro_users = None, ro_bindings = None,
     ro_routes = Some \<lparr>sn_table_id = [], sn_version = 1, sn_routes = [(1, ?rule)]\<rparr>\<rparr>"
  have "map ac_name (extract_all_audio_codecs lower_case_offer (sdp_parse lower_case_offer ''v=0'')) = [''g722'']"
    by code_simp
  moreover have "\<not> known_local_user ?st ''sip:b@h''" "table_route ?st ''sip:b@h'' = Some ?rule"
    by (simp_all add: known_local_user_def table_route_def find_route_def)
  ultimately show ?thesis
    using route_codec_case_sensitive [of ?st "''sip:b@h''" ?rule "sample_config"
        lower_case_offer "''v=0''" 0]
    by simp
qed

end
