(* ===== verification/Offer_Answer_Sm.thy ===== *)
theory Offer_Answer_Sm
  imports Sml_Runner
begin

text \<open>
  The offer/answer exchange machine: \<^verbatim>\<open>offer_answer_events.hpp\<close>,
  \<^verbatim>\<open>i_offer_answer_actions.hpp\<close> and \<^verbatim>\<open>offer_answer_sm.hpp\<close> under
  \<^verbatim>\<open>engine/src/sip/sm/\<close>. The action interface is a record of functions on the context,
  as the template parameter of the source; the table holds for every implementation of it.
\<close>

subsection \<open>Events, reasons, states and the action interface\<close>

datatype oa_event =
    OfferReceived string
  | AnswerReceived string
  | EarlyAnswerReceived string
  | OfferRelayFailed
  | AnswerRelaySucceeded
  | AnswerRelayFailed
  | AnswerRejected int
  | AnswerTimeout
  | AckReceived
  | AckTimeout
  | StopExchange
  | OaCleanup

datatype oa_reason =
    kUnusableOffer | kOfferRelayFailed | kRejected | kAnswerTimeout | kUnusableAnswer
  | kAnswerRelayFailed | kAckTimeout | kStopped

datatype oa_state =
    OaIdle | AwaitingAnswer | AnswerHeld | RelayingAnswer | AwaitingAck
  | Committed | RolledBack | OaFailed | OaDone

record 'c oa_actions =
  offer_usable :: "'c \<Rightarrow> string \<Rightarrow> bool"
  answer_usable :: "'c \<Rightarrow> string \<Rightarrow> bool"
  needs_ack :: "'c \<Rightarrow> bool"
  relay_offer :: "string \<Rightarrow> 'c \<Rightarrow> 'c"
  relay_answer :: "string \<Rightarrow> 'c \<Rightarrow> 'c"
  reject_offer :: "oa_reason \<Rightarrow> 'c \<Rightarrow> 'c"
  relay_rejection :: "int \<Rightarrow> 'c \<Rightarrow> 'c"
  hold_answer :: "string \<Rightarrow> 'c \<Rightarrow> 'c"
  release_answer :: "'c \<Rightarrow> 'c"
  commit :: "'c \<Rightarrow> 'c"
  rollback :: "oa_reason \<Rightarrow> 'c \<Rightarrow> 'c"
  fail :: "oa_reason \<Rightarrow> 'c \<Rightarrow> 'c"
  oa_cleanup :: "'c \<Rightarrow> 'c"

subsection \<open>The transition table\<close>

definition oa_invalid_offer :: "'c oa_actions \<Rightarrow> 'c \<Rightarrow> 'c" where
  "oa_invalid_offer A c = rollback A kUnusableOffer (reject_offer A kUnusableOffer c)"

definition oa_offer_failed :: "'c oa_actions \<Rightarrow> 'c \<Rightarrow> 'c" where
  "oa_offer_failed A c = rollback A kOfferRelayFailed (reject_offer A kOfferRelayFailed c)"

definition oa_rejected :: "'c oa_actions \<Rightarrow> int \<Rightarrow> 'c \<Rightarrow> 'c" where
  "oa_rejected A code c = rollback A kRejected (relay_rejection A code c)"

definition oa_answer_timeout :: "'c oa_actions \<Rightarrow> 'c \<Rightarrow> 'c" where
  "oa_answer_timeout A c = rollback A kAnswerTimeout (reject_offer A kAnswerTimeout c)"

fun oa_table :: "'c oa_actions \<Rightarrow> (oa_state, oa_event, 'c) table" where
  "oa_table A OaIdle e c =
     (case e of
        OfferReceived sdp \<Rightarrow>
          if offer_usable A c sdp then Some (AwaitingAnswer, [], relay_offer A sdp c)
          else Some (RolledBack, [], oa_invalid_offer A c)
      | StopExchange \<Rightarrow> Some (RolledBack, [], rollback A kStopped c)
      | _ \<Rightarrow> None)"
| "oa_table A AwaitingAnswer e c =
     (case e of
        OfferRelayFailed \<Rightarrow> Some (RolledBack, [], oa_offer_failed A c)
      | AnswerReceived sdp \<Rightarrow>
          if answer_usable A c sdp then Some (RelayingAnswer, [], relay_answer A sdp c)
          else Some (OaFailed, [], fail A kUnusableAnswer c)
      | EarlyAnswerReceived sdp \<Rightarrow>
          if answer_usable A c sdp then Some (AnswerHeld, [], hold_answer A sdp c)
          else Some (OaFailed, [], fail A kUnusableAnswer c)
      | AnswerRejected code \<Rightarrow> Some (RolledBack, [], oa_rejected A code c)
      | AnswerTimeout \<Rightarrow> Some (RolledBack, [], oa_answer_timeout A c)
      | StopExchange \<Rightarrow> Some (RolledBack, [], rollback A kStopped c)
      | _ \<Rightarrow> None)"
| "oa_table A AnswerHeld e c =
     (case e of
        AnswerReceived _ \<Rightarrow> Some (RelayingAnswer, [], release_answer A c)
      | AnswerRejected code \<Rightarrow> Some (RolledBack, [], oa_rejected A code c)
      | AnswerTimeout \<Rightarrow> Some (RolledBack, [], oa_answer_timeout A c)
      | StopExchange \<Rightarrow> Some (RolledBack, [], rollback A kStopped c)
      | _ \<Rightarrow> None)"
| "oa_table A RelayingAnswer e c =
     (case e of
        AnswerRelaySucceeded \<Rightarrow>
          if needs_ack A c then Some (AwaitingAck, [], c)
          else Some (Committed, [], commit A c)
      | AnswerRelayFailed \<Rightarrow> Some (OaFailed, [], fail A kAnswerRelayFailed c)
      | StopExchange \<Rightarrow> Some (RolledBack, [], rollback A kStopped c)
      | _ \<Rightarrow> None)"
| "oa_table A AwaitingAck e c =
     (case e of
        AckReceived \<Rightarrow> Some (Committed, [], commit A c)
      | AckTimeout \<Rightarrow> Some (OaFailed, [], fail A kAckTimeout c)
      | AnswerRelayFailed \<Rightarrow> Some (OaFailed, [], fail A kAnswerRelayFailed c)
      | StopExchange \<Rightarrow> Some (RolledBack, [], rollback A kStopped c)
      | _ \<Rightarrow> None)"
| "oa_table A Committed e c = (case e of OaCleanup \<Rightarrow> Some (OaDone, [], oa_cleanup A c) | _ \<Rightarrow> None)"
| "oa_table A RolledBack e c = (case e of OaCleanup \<Rightarrow> Some (OaDone, [], oa_cleanup A c) | _ \<Rightarrow> None)"
| "oa_table A OaFailed e c = (case e of OaCleanup \<Rightarrow> Some (OaDone, [], oa_cleanup A c) | _ \<Rightarrow> None)"
| "oa_table A OaDone e c = None"

lemmas oa_defs = oa_invalid_offer_def oa_offer_failed_def oa_rejected_def oa_answer_timeout_def

lemma oa_fires_nothing: "oa_table A s e c = Some (s', es, c') \<Longrightarrow> es = []"
  by (cases s) (auto split: oa_event.splits if_splits)

text \<open>The machine fires no events of its own, so one event is one row of the table.\<close>

lemma oa_process_event:
  "sml_process_event (oa_table A) s c e =
     (case oa_table A s e c of None \<Rightarrow> Some (s, c, False) | Some (s', _, c') \<Rightarrow> Some (s', c', True))"
  by (auto simp: sml_process_event_def split: option.splits dest: oa_fires_nothing)

interpretation oa: sml_machine "oa_table A" "\<lambda>_. 1" for A :: "'c oa_actions"
  by unfold_locales (auto dest: oa_fires_nothing)

subsection \<open>Every call an exchange makes\<close>

text \<open>
  Any implementation of the interface can be wrapped so that the context also records the calls
  the machine makes; the wrapped machine does what the machine does (\<open>logged_oa_step\<close>).
\<close>

datatype oa_call =
    CRelayOffer string | CRelayAnswer string | CRejectOffer oa_reason | CRelayRejection int
  | CHoldAnswer string | CReleaseAnswer | CCommit | CRollback oa_reason | CFail oa_reason | COaCleanup

definition logged_oa :: "'c oa_actions \<Rightarrow> (oa_call list \<times> 'c) oa_actions" where
  "logged_oa A = \<lparr>
     offer_usable = (\<lambda>(l, c). offer_usable A c),
     answer_usable = (\<lambda>(l, c). answer_usable A c),
     needs_ack = (\<lambda>(l, c). needs_ack A c),
     relay_offer = (\<lambda>sdp (l, c). (l @ [CRelayOffer sdp], relay_offer A sdp c)),
     relay_answer = (\<lambda>sdp (l, c). (l @ [CRelayAnswer sdp], relay_answer A sdp c)),
     reject_offer = (\<lambda>r (l, c). (l @ [CRejectOffer r], reject_offer A r c)),
     relay_rejection = (\<lambda>code (l, c). (l @ [CRelayRejection code], relay_rejection A code c)),
     hold_answer = (\<lambda>sdp (l, c). (l @ [CHoldAnswer sdp], hold_answer A sdp c)),
     release_answer = (\<lambda>(l, c). (l @ [CReleaseAnswer], release_answer A c)),
     commit = (\<lambda>(l, c). (l @ [CCommit], commit A c)),
     rollback = (\<lambda>r (l, c). (l @ [CRollback r], rollback A r c)),
     fail = (\<lambda>r (l, c). (l @ [CFail r], fail A r c)),
     oa_cleanup = (\<lambda>(l, c). (l @ [COaCleanup], oa_cleanup A c))\<rparr>"

lemma logged_oa_step:
  "oa_table A s e c =
     map_option (\<lambda>(s', es, (_, c')). (s', es, c')) (oa_table (logged_oa A) s e (l, c))"
  by (cases s) (auto simp: logged_oa_def oa_defs split: oa_event.splits)

definition is_outcome :: "oa_call \<Rightarrow> bool" where
  "is_outcome k = (case k of CCommit \<Rightarrow> True | CRollback _ \<Rightarrow> True | CFail _ \<Rightarrow> True | _ \<Rightarrow> False)"

definition is_answer_relay :: "oa_call \<Rightarrow> bool" where
  "is_answer_relay k = (case k of CRelayAnswer _ \<Rightarrow> True | CReleaseAnswer \<Rightarrow> True | _ \<Rightarrow> False)"

definition is_final_reply :: "oa_call \<Rightarrow> bool" where
  "is_final_reply k = (case k of CRejectOffer _ \<Rightarrow> True | CRelayRejection _ \<Rightarrow> True | _ \<Rightarrow> False)"

lemmas oa_call_kinds = is_outcome_def is_answer_relay_def is_final_reply_def

text \<open>What the log looks like in each state: the staged offer, at most one answer, at most one
  rejection, one outcome, the clean-up.\<close>

definition answered_log :: "oa_call list \<Rightarrow> bool" where
  "answered_log l \<longleftrightarrow> (\<exists>sdp a. l = [CRelayOffer sdp, CRelayAnswer a]) \<or>
     (\<exists>sdp a. l = [CRelayOffer sdp, CHoldAnswer a, CReleaseAnswer])"

definition open_log :: "oa_call list \<Rightarrow> bool" where
  "open_log l \<longleftrightarrow> l = [] \<or> (\<exists>sdp. l = [CRelayOffer sdp]) \<or>
     (\<exists>sdp a. l = [CRelayOffer sdp, CHoldAnswer a]) \<or> answered_log l"

definition settled_log :: "oa_state \<Rightarrow> oa_call list \<Rightarrow> bool" where
  "settled_log s l =
     (case s of
        Committed \<Rightarrow> (\<exists>l'. l = l' @ [CCommit] \<and> answered_log l')
      | OaFailed \<Rightarrow> (\<exists>l' r. l = l' @ [CFail r] \<and> open_log l' \<and> l' \<noteq> [])
      | RolledBack \<Rightarrow> (\<exists>l' r. open_log l' \<and> (l = l' @ [CRollback r] \<or>
           (\<exists>k. is_final_reply k \<and> \<not> answered_log l' \<and> l = l' @ [k, CRollback r])))
      | _ \<Rightarrow> False)"

definition oa_history :: "oa_state \<Rightarrow> oa_call list \<Rightarrow> bool" where
  "oa_history s l =
     (case s of
        OaIdle \<Rightarrow> l = []
      | AwaitingAnswer \<Rightarrow> (\<exists>sdp. l = [CRelayOffer sdp])
      | AnswerHeld \<Rightarrow> (\<exists>sdp a. l = [CRelayOffer sdp, CHoldAnswer a])
      | RelayingAnswer \<Rightarrow> answered_log l
      | AwaitingAck \<Rightarrow> answered_log l
      | OaDone \<Rightarrow> (\<exists>s' l'. settled_log s' l' \<and> l = l' @ [COaCleanup])
      | _ \<Rightarrow> settled_log s l)"

lemma history_open:
  "oa_history OaIdle l \<Longrightarrow> open_log l"
  "oa_history AwaitingAnswer l \<Longrightarrow> open_log l \<and> l \<noteq> []"
  "oa_history AnswerHeld l \<Longrightarrow> open_log l \<and> l \<noteq> []"
  "oa_history RelayingAnswer l \<Longrightarrow> open_log l \<and> l \<noteq> [] \<and> answered_log l"
  "oa_history AwaitingAck l \<Longrightarrow> open_log l \<and> l \<noteq> [] \<and> answered_log l"
  by (auto simp: oa_history_def open_log_def answered_log_def)

lemma history_unanswered:
  "oa_history OaIdle l \<Longrightarrow> \<not> answered_log l"
  "oa_history AwaitingAnswer l \<Longrightarrow> \<not> answered_log l"
  "oa_history AnswerHeld l \<Longrightarrow> \<not> answered_log l"
  by (auto simp: oa_history_def answered_log_def)

lemma history_grows:
  "oa_history OaIdle l \<Longrightarrow> oa_history AwaitingAnswer (l @ [CRelayOffer sdp])"
  "oa_history AwaitingAnswer l \<Longrightarrow> oa_history AnswerHeld (l @ [CHoldAnswer sdp])"
  "oa_history AwaitingAnswer l \<Longrightarrow> oa_history RelayingAnswer (l @ [CRelayAnswer sdp])"
  "oa_history AnswerHeld l \<Longrightarrow> oa_history RelayingAnswer (l @ [CReleaseAnswer])"
  "oa_history RelayingAnswer l \<Longrightarrow> oa_history AwaitingAck l"
  by (auto simp: oa_history_def answered_log_def)

lemma history_settles:
  "answered_log l \<Longrightarrow> oa_history Committed (l @ [CCommit])"
  "open_log l \<Longrightarrow> l \<noteq> [] \<Longrightarrow> oa_history OaFailed (l @ [CFail r])"
  "open_log l \<Longrightarrow> oa_history RolledBack (l @ [CRollback r])"
  "open_log l \<Longrightarrow> \<not> answered_log l \<Longrightarrow> is_final_reply k \<Longrightarrow>
     oa_history RolledBack (l @ [k, CRollback r])"
  by (auto simp: oa_history_def settled_log_def)

lemma history_done:
  "oa_history s l \<Longrightarrow> s \<in> {Committed, RolledBack, OaFailed} \<Longrightarrow> oa_history OaDone (l @ [COaCleanup])"
  by (auto simp: oa_history_def)

lemma final_replies [simp]: "is_final_reply (CRejectOffer r)" "is_final_reply (CRelayRejection n)"
  by (simp_all add: is_final_reply_def)

lemma oa_history_step:
  assumes "oa_history s l" and "oa_table (logged_oa A) s e (l, c) = Some (s', es, (l', c'))"
  shows "oa_history s' l'"
  using assms history_open [of l] history_unanswered [of l]
  by (cases s; cases e)
    (auto simp: logged_oa_def oa_defs split: if_splits intro: history_grows history_settles history_done)

lemma oa_history_run:
  assumes "run_events (oa_table (logged_oa A)) OaIdle ([], c) es = Some (s, (l, c'))"
  shows "oa_history s l"
proof -
  have step: "oa_history s1 (fst c1)"
    if "oa_history s0 (fst c0)" "sml_process_event (oa_table (logged_oa A)) s0 c0 e = Some (s1, c1, h)"
    for s0 c0 e s1 c1 h
    using that oa_history_step [of s0 "fst c0" A e "snd c0"]
    by (cases c0; cases c1) (auto simp: oa_process_event split: option.splits)
  have "oa_history OaIdle (fst ([] :: oa_call list, c))" by (simp add: oa_history_def)
  from oa.run_inv [where I = "\<lambda>s c. oa_history s (fst c)", OF this assms step]
  show ?thesis by simp
qed

text \<open>Reading the counts off the shape of the log.\<close>

definition settled :: "oa_state \<Rightarrow> bool" where
  "settled s \<longleftrightarrow> s \<in> {Committed, RolledBack, OaFailed, OaDone}"

lemma open_log_counts:
  "open_log l \<Longrightarrow> calls is_outcome l = 0 \<and> calls is_final_reply l = 0 \<and>
     calls is_answer_relay l = (if answered_log l then 1 else 0)"
  by (auto simp: open_log_def answered_log_def oa_call_kinds)

lemma final_reply_kind: "is_final_reply k \<Longrightarrow> \<not> is_outcome k \<and> \<not> is_answer_relay k"
  by (cases k) (simp_all add: oa_call_kinds)

lemma settled_log_counts:
  assumes "settled_log s l"
  shows "calls is_outcome l = 1" "calls is_answer_relay l + calls is_final_reply l \<le> 1"
    "CCommit \<in> set l \<Longrightarrow> calls is_answer_relay l = 1"
proof -
  have kinds: "is_outcome CCommit" "is_outcome (CFail r)" "is_outcome (CRollback r)"
    "\<not> is_answer_relay CCommit" "\<not> is_answer_relay (CFail r)" "\<not> is_answer_relay (CRollback r)"
    "\<not> is_final_reply CCommit" "\<not> is_final_reply (CFail r)" "\<not> is_final_reply (CRollback r)" for r
    by (simp_all add: oa_call_kinds)
  have answered: "answered_log l' \<Longrightarrow> open_log l'" for l' by (simp add: open_log_def)
  have commit: "CCommit \<notin> set l'" if "open_log l'" for l'
    using that by (auto simp: open_log_def answered_log_def)
  note facts = open_log_counts kinds final_reply_kind answered
  show "calls is_outcome l = 1" "calls is_answer_relay l + calls is_final_reply l \<le> 1"
    using assms facts by (auto simp: settled_log_def split: oa_state.splits if_splits)
  show "calls is_answer_relay l = 1" if "CCommit \<in> set l"
    using assms that facts commit by (auto simp: settled_log_def split: oa_state.splits)
qed

lemma unsettled_open: "oa_history s l \<Longrightarrow> \<not> settled s \<Longrightarrow> open_log l"
  by (cases s) (auto simp: settled_def dest: history_open)

lemma history_settled_log:
  "oa_history s l \<Longrightarrow> settled s \<Longrightarrow> \<exists>s' l'. settled_log s' l' \<and> (l = l' \<or> l = l' @ [COaCleanup])"
  by (cases s) (auto simp: oa_history_def settled_def)

lemma oa_one_outcome:
  assumes "run_events (oa_table (logged_oa A)) OaIdle ([], c) es = Some (s, (l, c'))"
  shows "calls is_outcome l = (if settled s then 1 else 0)"
    and "calls is_answer_relay l + calls is_final_reply l \<le> 1"
    and "CCommit \<in> set l \<longrightarrow> calls is_answer_relay l = 1"
proof -
  have hist: "oa_history s l" using assms by (rule oa_history_run)
  have [simp]: "\<not> is_outcome COaCleanup" "\<not> is_answer_relay COaCleanup" "\<not> is_final_reply COaCleanup"
    by (simp_all add: oa_call_kinds)
  have open_none: "CCommit \<notin> set l" if "open_log l"
    using that by (auto simp: open_log_def answered_log_def)
  show "calls is_outcome l = (if settled s then 1 else 0)"
    using unsettled_open [OF hist] open_log_counts [of l] history_settled_log [OF hist] settled_log_counts(1)
    by (cases "settled s") auto
  show "calls is_answer_relay l + calls is_final_reply l \<le> 1"
    using unsettled_open [OF hist] open_log_counts [of l] history_settled_log [OF hist] settled_log_counts(2)
    by (cases "settled s") fastforce+
  show "CCommit \<in> set l \<longrightarrow> calls is_answer_relay l = 1"
    using unsettled_open [OF hist] open_none history_settled_log [OF hist] settled_log_counts(3)
    by (cases "settled s") fastforce+
qed

text \<open>C15: Whatever events an exchange sees and whatever its actions do, dispatch always returns and the
  exchange publishes exactly one outcome (commit, rollback or fail): none before it has settled and
  one from then on. At most one final answer or rejection is relayed to the offering side, and an
  exchange is only committed once an answer has been relayed.\<close>

theorem exchange_publishes_one_outcome:
  "\<exists>s l c'. run_events (oa_table (logged_oa A)) OaIdle ([], c) es = Some (s, (l, c')) \<and>
     calls is_outcome l = (if settled s then 1 else 0) \<and>
     calls is_answer_relay l + calls is_final_reply l \<le> 1 \<and>
     calls (\<lambda>k. k = CCommit) l \<le> calls is_answer_relay l"
proof -
  obtain s l c' where run: "run_events (oa_table (logged_oa A)) OaIdle ([], c) es = Some (s, (l, c'))"
    using oa.run_returns [of "logged_oa A" OaIdle "([], c)" es] by auto
  note out = oa_one_outcome [OF run]
  have "calls (\<lambda>k. k = CCommit) l \<le> calls is_outcome l"
    unfolding calls_def by (induction l) (auto simp: is_outcome_def)
  then have one: "calls (\<lambda>k. k = CCommit) l \<le> 1" using out(1) by (simp split: if_splits)
  have "calls (\<lambda>k. k = CCommit) l = 0" if "CCommit \<notin> set l"
    using that by (auto simp: calls_0_iff)
  with one out(3) have "calls (\<lambda>k. k = CCommit) l \<le> calls is_answer_relay l"
    by (cases "CCommit \<in> set l") auto
  with run out(1,2) show ?thesis by blast
qed

end
