(* ===== verification/Exchange.thy ===== *)
theory Exchange
  imports Offer_Answer_Sm "HOL-Library.Monad_Syntax"
begin

text \<open>
  One offer/answer exchange, \<^verbatim>\<open>engine/src/sip/call/offer_answer_exchange.cpp\<close> and
  \<^verbatim>\<open>.hpp\<close>: the operations the setup lifecycle calls, each of which feeds the exchange
  machine, turns the result of a send into the follow-up event, and reads one logical outcome off
  the state the machine ended in. The adapter's two send flags extend the action interface.
\<close>

record 'c ex_actions = "'c oa_actions" +
  offer_sent :: "'c \<Rightarrow> bool"
  answer_sent :: "'c \<Rightarrow> bool"

definition oa_of :: "'c ex_actions \<Rightarrow> 'c oa_actions" where
  "oa_of A = oa_actions.truncate A"

record exchange =
  ex_runner :: "oa_state runner"
  ex_processing :: bool

type_synonym 'c ex_result = "(exchange_outcome \<times> exchange \<times> 'c) option"

definition new_exchange :: exchange where
  "new_exchange = \<lparr>ex_runner = new_runner OaIdle, ex_processing = False\<rparr>"

definition ex_dispatch :: "'c ex_actions \<Rightarrow> oa_event \<Rightarrow> exchange \<Rightarrow> 'c \<Rightarrow> (exchange \<times> 'c) option" where
  "ex_dispatch A e x c = do {
     (r, c', _) \<leftarrow> process_event (oa_table (oa_of A)) (ex_runner x) c e;
     Some (x\<lparr>ex_runner := r\<rparr>, c') }"

definition finish_operation :: "'c ex_actions \<Rightarrow> exchange \<Rightarrow> 'c \<Rightarrow> 'c ex_result" where
  "finish_operation A x c =
     (let outcome = (if is_in (ex_runner x) Committed then OCommitted
                     else if is_in (ex_runner x) RolledBack then ORolledBack
                     else if is_in (ex_runner x) OaFailed then OFailed
                     else OPending)
      in if outcome \<noteq> OPending then do {
           (x', c') \<leftarrow> ex_dispatch A OaCleanup x c;
           Some (outcome, x'\<lparr>ex_processing := False\<rparr>, c') }
         else Some (outcome, x\<lparr>ex_processing := False\<rparr>, c))"

definition ex_apply :: "'c ex_actions \<Rightarrow> oa_event \<Rightarrow> exchange \<Rightarrow> 'c \<Rightarrow> 'c ex_result" where
  "ex_apply A e x c = do {
     (x', c') \<leftarrow> ex_dispatch A e (x\<lparr>ex_processing := True\<rparr>) c;
     finish_operation A x' c' }"

definition ex_start :: "'c ex_actions \<Rightarrow> string \<Rightarrow> exchange \<Rightarrow> 'c \<Rightarrow> 'c ex_result" where
  "ex_start A sdp x c = do {
     (x1, c1) \<leftarrow> ex_dispatch A (OfferReceived sdp) (x\<lparr>ex_processing := True\<rparr>) c;
     (x2, c2) \<leftarrow> (if is_in (ex_runner x1) AwaitingAnswer \<and> \<not> offer_sent A c1
                  then ex_dispatch A OfferRelayFailed x1 c1 else Some (x1, c1));
     finish_operation A x2 c2 }"

definition receive_answer :: "'c ex_actions \<Rightarrow> string \<Rightarrow> exchange \<Rightarrow> 'c \<Rightarrow> 'c ex_result" where
  "receive_answer A sdp x c = do {
     (x1, c1) \<leftarrow> ex_dispatch A (AnswerReceived sdp) (x\<lparr>ex_processing := True\<rparr>) c;
     (x2, c2) \<leftarrow> (if is_in (ex_runner x1) RelayingAnswer
                  then (if answer_sent A c1 then ex_dispatch A AnswerRelaySucceeded x1 c1
                        else ex_dispatch A AnswerRelayFailed x1 c1)
                  else Some (x1, c1));
     finish_operation A x2 c2 }"

definition receive_early_answer :: "'c ex_actions \<Rightarrow> string \<Rightarrow> exchange \<Rightarrow> 'c \<Rightarrow> 'c ex_result" where
  "receive_early_answer A sdp x c = ex_apply A (EarlyAnswerReceived sdp) x c"

definition ex_reject :: "'c ex_actions \<Rightarrow> int \<Rightarrow> exchange \<Rightarrow> 'c \<Rightarrow> 'c ex_result" where
  "ex_reject A code = ex_apply A (AnswerRejected code)"

definition ex_answer_timeout :: "'c ex_actions \<Rightarrow> exchange \<Rightarrow> 'c \<Rightarrow> 'c ex_result" where
  "ex_answer_timeout A = ex_apply A AnswerTimeout"

definition ex_confirm :: "'c ex_actions \<Rightarrow> exchange \<Rightarrow> 'c \<Rightarrow> 'c ex_result" where
  "ex_confirm A = ex_apply A AckReceived"

definition ex_confirmation_timeout :: "'c ex_actions \<Rightarrow> exchange \<Rightarrow> 'c \<Rightarrow> 'c ex_result" where
  "ex_confirmation_timeout A = ex_apply A AckTimeout"

definition ex_stop :: "'c ex_actions \<Rightarrow> exchange \<Rightarrow> 'c \<Rightarrow> 'c ex_result" where
  "ex_stop A = ex_apply A StopExchange"

definition awaiting_confirmation :: "exchange \<Rightarrow> bool" where
  "awaiting_confirmation x \<longleftrightarrow> is_in (ex_runner x) AwaitingAck"

subsection \<open>Every operation returns, with the state it leaves\<close>

datatype ex_op =
    ExStart string | ExReceiveAnswer string | ExReceiveEarlyAnswer string | ExReject int
  | ExAnswerTimeout | ExConfirm | ExConfirmationTimeout | ExStop

fun ex_perform :: "'c ex_actions \<Rightarrow> ex_op \<Rightarrow> exchange \<Rightarrow> 'c \<Rightarrow> 'c ex_result" where
  "ex_perform A (ExStart sdp) = ex_start A sdp"
| "ex_perform A (ExReceiveAnswer sdp) = receive_answer A sdp"
| "ex_perform A (ExReceiveEarlyAnswer sdp) = receive_early_answer A sdp"
| "ex_perform A (ExReject code) = ex_reject A code"
| "ex_perform A ExAnswerTimeout = ex_answer_timeout A"
| "ex_perform A ExConfirm = ex_confirm A"
| "ex_perform A ExConfirmationTimeout = ex_confirmation_timeout A"
| "ex_perform A ExStop = ex_stop A"

fun ex_run :: "'c ex_actions \<Rightarrow> ex_op list \<Rightarrow> exchange \<Rightarrow> 'c \<Rightarrow> (exchange_outcome list \<times> exchange \<times> 'c) option" where
  "ex_run A [] x c = Some ([], x, c)"
| "ex_run A (p # ps) x c = do {
     (o1, x1, c1) \<leftarrow> ex_perform A p x c;
     (os, x2, c2) \<leftarrow> ex_run A ps x1 c1;
     Some (o1 # os, x2, c2) }"

lemmas ex_op_defs = ex_start_def receive_answer_def receive_early_answer_def ex_reject_def
  ex_answer_timeout_def ex_confirm_def ex_confirmation_timeout_def ex_stop_def ex_apply_def

lemma ex_dispatch_table:
  "ex_dispatch A e x c =
     (case oa_table (oa_of A) (rn_state (ex_runner x)) e c of
        None \<Rightarrow> Some (x\<lparr>ex_runner := (ex_runner x)\<lparr>rn_processing := False\<rparr>\<rparr>, c)
      | Some (s', _, c') \<Rightarrow> Some (x\<lparr>ex_runner := (ex_runner x)\<lparr>rn_state := s', rn_processing := False\<rparr>\<rparr>, c'))"
  by (auto simp: ex_dispatch_def process_event_def oa_process_event Let_def split: option.splits)

text \<open>The states an exchange rests in between two operations: no outcome is ever left unread,
  and no relayed answer is left without the result of its send.\<close>

definition ex_resting :: "exchange \<Rightarrow> bool" where
  "ex_resting x \<longleftrightarrow> rn_state (ex_runner x) \<in> {OaIdle, AwaitingAnswer, AnswerHeld, AwaitingAck, OaDone} \<and>
     \<not> ex_processing x \<and> \<not> rn_processing (ex_runner x)"

abbreviation ex_state :: "exchange \<Rightarrow> oa_state" where
  "ex_state x \<equiv> rn_state (ex_runner x)"

lemma new_exchange_resting [simp]: "ex_resting new_exchange" "ex_state new_exchange = OaIdle"
  by (simp_all add: ex_resting_def new_exchange_def new_runner_def)

lemma finish_operation_returns:
  assumes "ex_state x \<noteq> RelayingAnswer" "\<not> rn_processing (ex_runner x)"
  obtains oc x' c' where "finish_operation A x c = Some (oc, x', c')" "ex_resting x'"
    "oc = OPending \<longleftrightarrow> \<not> settled (ex_state x) \<or> ex_state x = OaDone"
    "ex_state x' = (if settled (ex_state x) then OaDone else ex_state x)"
  using assms that
  by (cases "ex_state x")
    (auto simp: finish_operation_def is_in_def ex_dispatch_table ex_resting_def settled_def)

lemma ex_perform_rests:
  assumes "ex_resting x"
  shows "\<exists>oc x' c'. ex_perform A p x c = Some (oc, x', c') \<and> ex_resting x' \<and>
     (oc \<noteq> OPending \<longrightarrow> ex_state x \<noteq> OaDone) \<and>
     (ex_state x' = OaDone \<longleftrightarrow> oc \<noteq> OPending \<or> ex_state x = OaDone)"
proof -
  have states: "ex_state x = OaIdle \<or> ex_state x = AwaitingAnswer \<or> ex_state x = AnswerHeld \<or>
      ex_state x = AwaitingAck \<or> ex_state x = OaDone"
    using assms by (auto simp: ex_resting_def)
  have flags: "\<not> ex_processing x" "\<not> rn_processing (ex_runner x)"
    using assms by (auto simp: ex_resting_def)
  show ?thesis
    using states
    by (cases p)
      (elim disjE; simp add: ex_op_defs ex_dispatch_table finish_operation_def is_in_def ex_resting_def flags)+
qed

text \<open>An invariant of machine state and context that every row of the table keeps is kept by every operation.\<close>

lemma ex_dispatch_inv:
  assumes "\<And>s e c s' es c'. I s c \<Longrightarrow> oa_table (oa_of A) s e c = Some (s', es, c') \<Longrightarrow> I s' c'"
    and "I (ex_state x) c" and "ex_dispatch A e x c = Some (x', c')"
  shows "I (ex_state x') c'"
  using assms(2,3) assms(1) [of "ex_state x" c e] by (auto simp: ex_dispatch_table split: option.splits)

lemma ex_perform_inv:
  assumes step: "\<And>s e c s' es c'. I s c \<Longrightarrow> oa_table (oa_of A) s e c = Some (s', es, c') \<Longrightarrow> I s' c'"
    and "I (ex_state x) c" and "ex_perform A p x c = Some (oc, x', c')"
  shows "I (ex_state x') c'"
proof -
  have dispatch: "I (ex_state x') c'" if "ex_dispatch A e x c = Some (x', c')" "I (ex_state x) c" for e x c x' c'
    using ex_dispatch_inv [of I A x c e x' c'] step that by blast
  have finish: "I (ex_state x') c'" if "I (ex_state y) d" "finish_operation A y d = Some (oc, x', c')" for y d
    using that dispatch [of OaCleanup y d]
    by (auto simp: finish_operation_def Let_def split: if_splits bind_splits)
  have applied: "I (ex_state x') c'" if "ex_apply A e x c = Some (oc, x', c')" for e
    using that assms(2) finish dispatch [of e "x\<lparr>ex_processing := True\<rparr>" c] by (auto simp: ex_apply_def split: bind_splits)
  show ?thesis
  proof (cases p)
    case (ExStart sdp)
    with assms(2,3) show ?thesis
      by (auto simp: ex_start_def split: bind_splits if_splits
          dest!: dispatch intro: finish)
  next
    case (ExReceiveAnswer sdp)
    with assms(2,3) show ?thesis
      by (auto simp: receive_answer_def split: bind_splits if_splits
          dest!: dispatch intro: finish)
  qed (use assms(3) applied in \<open>simp_all add: receive_early_answer_def ex_reject_def ex_answer_timeout_def ex_confirm_def
      ex_confirmation_timeout_def ex_stop_def\<close>)
qed

lemma ex_run_outcomes:
  assumes "ex_resting x"
  shows "\<exists>os x' c'. ex_run A ps x c = Some (os, x', c') \<and> ex_resting x' \<and>
     calls (\<lambda>oc. oc \<noteq> OPending) os = (if ex_state x' = OaDone \<and> ex_state x \<noteq> OaDone then 1 else 0) \<and>
     (ex_state x = OaDone \<longrightarrow> ex_state x' = OaDone)"
  using assms
proof (induction ps arbitrary: x c)
  case (Cons p ps)
  from ex_perform_rests [OF Cons.prems, of A p c] obtain oc x1 c1 where
    p: "ex_perform A p x c = Some (oc, x1, c1)" "ex_resting x1"
      "oc \<noteq> OPending \<longrightarrow> ex_state x \<noteq> OaDone"
      "ex_state x1 = OaDone \<longleftrightarrow> oc \<noteq> OPending \<or> ex_state x = OaDone"
    by blast
  from Cons.IH [OF p(2), of c1] p show ?case by fastforce
qed simp

text \<open>However the operations of an exchange are interleaved, each returns and leaves the exchange at
  rest, and over its whole life a final outcome (committed, rolled back or failed) is handed to the
  setup lifecycle at most once: exactly when the exchange is done, and never again afterwards.\<close>

theorem exchange_reports_outcome_once:
  "\<exists>os x c'. ex_run A ps new_exchange c = Some (os, x, c') \<and> ex_resting x \<and>
     calls (\<lambda>oc. oc \<noteq> OPending) os = (if ex_state x = OaDone then 1 else 0)"
  using ex_run_outcomes [OF new_exchange_resting(1), of A ps c] by (auto cong: if_cong)

end
