(* ===== verification/Dialog_Sm.thy ===== *)
theory Dialog_Sm
  imports Sml_Runner
begin

text \<open>
  The established-call machine: the dialog events of \<^verbatim>\<open>events.hpp\<close>, the action interface
  \<^verbatim>\<open>i_dialog_actions.hpp\<close> and the table of \<^verbatim>\<open>dialog_sm.hpp\<close>; and the
  stateless request machine of \<^verbatim>\<open>options_sm.hpp\<close>, all under
  \<^verbatim>\<open>engine/src/sip/sm/\<close>.
\<close>

subsection \<open>Events, states and the action interface\<close>

datatype refer_outcome = RSucceeded | RFailed

datatype termination_reason =
    kEngineRequested | kReplaced | kHoldTimeout | kRtpInactivity | kMediaNegotiationFailed

datatype dialog_event =
    DlExchangeFinished exchange_outcome
  | ByeReceived leg
  | ReinviteReceived string leg
  | UpdateReceived string leg
  | ReferReceived leg
  | ReferCompleted refer_outcome
  | CallReplaced
  | CallError termination_reason
  | CallEnded termination_reason
  | DlCleanup

datatype dialog_state =
    Active | Reinviting | Referring | ReferringWhileTerminating | Terminating | Terminated | DialogDone

record 'c dialog_actions =
  forward_bye_to_other_leg :: "leg \<Rightarrow> 'c \<Rightarrow> 'c"
  answer_reinvite :: "string \<Rightarrow> leg \<Rightarrow> 'c \<Rightarrow> exchange_outcome \<times> 'c"
  reject_reinvite_491_request_pending :: "leg \<Rightarrow> 'c \<Rightarrow> 'c"
  answer_update :: "string \<Rightarrow> leg \<Rightarrow> 'c \<Rightarrow> exchange_outcome \<times> 'c"
  reject_update_collision :: "leg \<Rightarrow> 'c \<Rightarrow> 'c"
  refer_started :: "leg \<Rightarrow> 'c \<Rightarrow> bool \<times> 'c"
  refer_completed :: "refer_outcome \<Rightarrow> 'c \<Rightarrow> 'c"
  refer_busy :: "leg \<Rightarrow> 'c \<Rightarrow> 'c"
  terminate_call :: "termination_reason \<Rightarrow> 'c \<Rightarrow> 'c"
  dl_cleanup :: "'c \<Rightarrow> 'c"

subsection \<open>The actions of the table\<close>

definition publish_outcome :: "exchange_outcome \<Rightarrow> dialog_event list" where
  "publish_outcome outcome = (if outcome \<noteq> OPending then [DlExchangeFinished outcome] else [])"

definition handle_reinvite :: "'c dialog_actions \<Rightarrow> string \<Rightarrow> leg \<Rightarrow> 'c \<Rightarrow> dialog_event list \<times> 'c" where
  "handle_reinvite A sdp leg c =
     (let (outcome, c') = answer_reinvite A sdp leg c in (publish_outcome outcome, c'))"

definition handle_update :: "'c dialog_actions \<Rightarrow> string \<Rightarrow> leg \<Rightarrow> 'c \<Rightarrow> dialog_event list \<times> 'c" where
  "handle_update A sdp leg c =
     (let (outcome, c') = answer_update A sdp leg c in (publish_outcome outcome, c'))"

definition handle_refer :: "'c dialog_actions \<Rightarrow> leg \<Rightarrow> 'c \<Rightarrow> dialog_event list \<times> 'c" where
  "handle_refer A leg c =
     (let (started, c') = refer_started A leg c in
      (if \<not> started then [ReferCompleted RFailed] else [], c'))"

subsection \<open>The transition table\<close>

fun dialog_table :: "'c dialog_actions \<Rightarrow> (dialog_state, dialog_event, 'c) table" where
  "dialog_table A Active e c =
     (case e of
        ByeReceived leg \<Rightarrow> Some (Terminating, [], forward_bye_to_other_leg A leg c)
      | ReinviteReceived sdp leg \<Rightarrow> Some (Reinviting, handle_reinvite A sdp leg c)
      | UpdateReceived sdp leg \<Rightarrow> Some (Reinviting, handle_update A sdp leg c)
      | ReferReceived leg \<Rightarrow> Some (Referring, handle_refer A leg c)
      | CallReplaced \<Rightarrow> Some (Terminating, [], terminate_call A kReplaced c)
      | CallError reason \<Rightarrow> Some (Terminating, [], terminate_call A reason c)
      | CallEnded reason \<Rightarrow> Some (Terminating, [], terminate_call A reason c)
      | _ \<Rightarrow> None)"
| "dialog_table A Reinviting e c =
     (case e of
        ReinviteReceived _ leg \<Rightarrow> Some (Reinviting, [], reject_reinvite_491_request_pending A leg c)
      | UpdateReceived _ leg \<Rightarrow> Some (Reinviting, [], reject_update_collision A leg c)
      | ReferReceived leg \<Rightarrow> Some (Reinviting, [], refer_busy A leg c)
      | DlExchangeFinished oc \<Rightarrow>
          if oc = OCommitted then Some (Active, [], c)
          else if oc = ORolledBack then Some (Active, [], c)
          else if oc = OFailed then Some (Terminating, [], terminate_call A kMediaNegotiationFailed c)
          else None
      | CallReplaced \<Rightarrow> Some (Terminating, [], terminate_call A kReplaced c)
      | CallError reason \<Rightarrow> Some (Terminating, [], terminate_call A reason c)
      | CallEnded reason \<Rightarrow> Some (Terminating, [], terminate_call A reason c)
      | _ \<Rightarrow> None)"
| "dialog_table A Referring e c =
     (case e of
        ReferReceived leg \<Rightarrow> Some (Referring, [], refer_busy A leg c)
      | ReferCompleted outcome \<Rightarrow> Some (Active, [], refer_completed A outcome c)
      | ByeReceived leg \<Rightarrow> Some (ReferringWhileTerminating, [], forward_bye_to_other_leg A leg c)
      | CallReplaced \<Rightarrow> Some (Terminating, [], terminate_call A kReplaced c)
      | CallError reason \<Rightarrow> Some (Terminating, [], terminate_call A reason c)
      | CallEnded reason \<Rightarrow> Some (Terminating, [], terminate_call A reason c)
      | _ \<Rightarrow> None)"
| "dialog_table A ReferringWhileTerminating e c =
     (case e of
        ReferCompleted outcome \<Rightarrow> Some (Terminating, [], refer_completed A outcome c)
      | _ \<Rightarrow> None)"
| "dialog_table A Terminating e c = (case e of CallEnded _ \<Rightarrow> Some (Terminated, [DlCleanup], c) | _ \<Rightarrow> None)"
| "dialog_table A Terminated e c = (case e of DlCleanup \<Rightarrow> Some (DialogDone, [], dl_cleanup A c) | _ \<Rightarrow> None)"
| "dialog_table A DialogDone e c = None"

lemmas dl_defs = publish_outcome_def handle_reinvite_def handle_update_def handle_refer_def

text \<open>Requests and the end of the call may fire one result or the clean-up, which fire nothing.\<close>

fun dialog_weight :: "dialog_event \<Rightarrow> nat" where
  "dialog_weight (DlExchangeFinished _) = 1"
| "dialog_weight (ReferCompleted _) = 1"
| "dialog_weight DlCleanup = 1"
| "dialog_weight _ = 2"

interpretation dl: sml_machine "dialog_table A" dialog_weight for A :: "'c dialog_actions"
proof
  show "0 < dialog_weight e" for e by (cases e) simp_all
  show "weight_of dialog_weight es < dialog_weight e" if "dialog_table A s e c = Some (s', es, c')"
    for s e c s' es c'
    using that by (cases s; cases e) (auto simp: dl_defs Let_def split: prod.splits if_splits)
qed

subsection \<open>Every call an established dialog makes\<close>

datatype dialog_call =
    CForwardBye leg
  | CAnswerReinvite leg exchange_outcome
  | CReject491 leg
  | CAnswerUpdate leg exchange_outcome
  | CUpdateCollision leg
  | CReferStarted leg bool
  | CReferCompleted refer_outcome
  | CReferBusy leg
  | CTerminateCall termination_reason
  | CDialogCleanup

definition logged_dialog :: "'c dialog_actions \<Rightarrow> (dialog_call list \<times> 'c) dialog_actions" where
  "logged_dialog A = \<lparr>
     forward_bye_to_other_leg = (\<lambda>g (l, c). (l @ [CForwardBye g], forward_bye_to_other_leg A g c)),
     answer_reinvite = (\<lambda>sdp g (l, c).
        let (oc, c') = answer_reinvite A sdp g c in (oc, (l @ [CAnswerReinvite g oc], c'))),
     reject_reinvite_491_request_pending =
        (\<lambda>g (l, c). (l @ [CReject491 g], reject_reinvite_491_request_pending A g c)),
     answer_update = (\<lambda>sdp g (l, c).
        let (oc, c') = answer_update A sdp g c in (oc, (l @ [CAnswerUpdate g oc], c'))),
     reject_update_collision = (\<lambda>g (l, c). (l @ [CUpdateCollision g], reject_update_collision A g c)),
     refer_started = (\<lambda>g (l, c). let (b, c') = refer_started A g c in (b, (l @ [CReferStarted g b], c'))),
     refer_completed = (\<lambda>r (l, c). (l @ [CReferCompleted r], refer_completed A r c)),
     refer_busy = (\<lambda>g (l, c). (l @ [CReferBusy g], refer_busy A g c)),
     terminate_call = (\<lambda>r (l, c). (l @ [CTerminateCall r], terminate_call A r c)),
     dl_cleanup = (\<lambda>(l, c). (l @ [CDialogCleanup], dl_cleanup A c))\<rparr>"

lemma logged_dialog_step:
  "dialog_table A s e c =
     map_option (\<lambda>(s', es, (_, c')). (s', es, c')) (dialog_table (logged_dialog A) s e (l, c))"
  by (cases s; cases e) (auto simp: logged_dialog_def dl_defs Let_def split: prod.splits)

fun is_teardown :: "dialog_call \<Rightarrow> bool" where
  "is_teardown (CForwardBye _) = True"
| "is_teardown (CTerminateCall _) = True"
| "is_teardown _ = False"

fun is_refer_start :: "dialog_call \<Rightarrow> bool" where
  "is_refer_start (CReferStarted _ _) = True"
| "is_refer_start _ = False"

fun is_refer_end :: "dialog_call \<Rightarrow> bool" where
  "is_refer_end (CReferCompleted _) = True"
| "is_refer_end _ = False"

text \<open>The state of the media lock after a log: the outcome of the last offer that was answered.\<close>

fun last_answer :: "dialog_call list \<Rightarrow> exchange_outcome \<Rightarrow> exchange_outcome" where
  "last_answer [] oc = oc"
| "last_answer (CAnswerReinvite _ oc' # l) oc = last_answer l oc'"
| "last_answer (CAnswerUpdate _ oc' # l) oc = last_answer l oc'"
| "last_answer (_ # l) oc = last_answer l oc"

lemma last_answer_append [simp]: "last_answer (l @ l') oc = last_answer l' (last_answer l oc)"
  by (induction l oc rule: last_answer.induct) simp_all

text \<open>What has been called when no event is pending: one teardown once the call is ending, one
  clean-up, last, once it is done; every REFER that was started has been completed, except the one in
  progress or cut off by the end of the call; the media lock is only held by an offer that is
  really pending.\<close>

definition dialog_ending :: "dialog_state \<Rightarrow> bool" where
  "dialog_ending s \<longleftrightarrow> s \<in> {ReferringWhileTerminating, Terminating, Terminated, DialogDone}"

definition dialog_counts :: "dialog_state \<Rightarrow> dialog_call list \<Rightarrow> bool" where
  "dialog_counts s l \<longleftrightarrow>
     calls is_teardown l = (if dialog_ending s then 1 else 0) \<and>
     calls (\<lambda>k. k = CDialogCleanup) l = (if s = DialogDone then 1 else 0) \<and>
     (s = DialogDone \<longrightarrow> last l = CDialogCleanup) \<and>
     calls is_refer_end l \<le> calls is_refer_start l \<and>
     calls is_refer_start l \<le> Suc (calls is_refer_end l) \<and>
     (s \<in> {Referring, ReferringWhileTerminating} \<longrightarrow> calls is_refer_start l = Suc (calls is_refer_end l)) \<and>
     (s \<in> {Active, Reinviting} \<longrightarrow> calls is_refer_start l = calls is_refer_end l)"

definition dialog_history :: "dialog_state \<Rightarrow> dialog_call list \<Rightarrow> bool" where
  "dialog_history s l \<longleftrightarrow> s \<noteq> Terminated \<and> dialog_counts s l \<and>
     (s = Reinviting \<longrightarrow> last_answer l OCommitted = OPending)"

text \<open>While a dispatch runs, the transient situations wait for the event that resolves them.\<close>

definition dialog_waits :: "dialog_state \<Rightarrow> dialog_call list \<Rightarrow> dialog_event list \<Rightarrow> bool" where
  "dialog_waits s l q \<longleftrightarrow> length q \<le> 1 \<and> dialog_counts s l \<and>
     (s = Terminated \<longrightarrow> q = [DlCleanup]) \<and>
     (s = Reinviting \<longrightarrow> last_answer l OCommitted = OPending \<or> (\<exists>oc. oc \<noteq> OPending \<and> q = [DlExchangeFinished oc]))"

lemma dialog_step_waits:
  assumes "dialog_waits s l (e # q)"
    and "dialog_table (logged_dialog A) s e (l, c) = Some (s', es, (l', c'))"
  shows "dialog_waits s' l' (q @ es)"
  using assms
  by (cases s; cases e)
    (auto simp: logged_dialog_def dl_defs dialog_waits_def dialog_counts_def dialog_ending_def Let_def
      split: prod.splits if_splits)

lemma dialog_unhandled:
  assumes "dialog_waits s l (e # q)" and "dialog_table A s e c = None"
  shows "dialog_waits s l q"
  using assms
  by (cases s; cases e) (auto simp: dialog_waits_def intro: exchange_outcome.exhaust split: if_splits)

lemma dialog_dispatch_history:
  assumes "dialog_history s l"
  shows "\<exists>s' l' c' h. sml_process_event (dialog_table (logged_dialog A)) s (l, c) e = Some (s', (l', c'), h) \<and>
     dialog_history s' l'"
proof -
  let ?J = "\<lambda>s (l, c) q. dialog_waits s l q"
  have "?J s (l, c) [e]" using assms by (auto simp: dialog_waits_def dialog_history_def)
  moreover have "?J s c q" if "?J s c (e # q)" "dialog_table (logged_dialog A) s e c = None" for s c e q
    using that by (auto dest: dialog_unhandled)
  moreover have "?J s' c' (q @ es)"
    if "?J s c (e # q)" "dialog_table (logged_dialog A) s e c = Some (s', es, c')" for s c e q s' es c'
    using that by (cases c; cases c') (auto dest: dialog_step_waits)
  ultimately have "\<exists>s' c' h. sml_process_event (dialog_table (logged_dialog A)) s (l, c) e = Some (s', c', h) \<and>
      ?J s' c' []"
    by (rule dl.dispatch_rule)
  then show ?thesis by (auto simp: dialog_waits_def dialog_history_def)
qed

lemma dialog_run_history:
  assumes "dialog_history s l"
  shows "\<exists>s' l' c'. run_events (dialog_table (logged_dialog A)) s (l, c) es = Some (s', (l', c')) \<and>
     dialog_history s' l'"
  using assms
proof (induction es arbitrary: s l c)
  case (Cons e es)
  from dialog_dispatch_history [OF Cons.prems, of A c e] obtain s1 l1 c1 h where
    1: "sml_process_event (dialog_table (logged_dialog A)) s (l, c) e = Some (s1, (l1, c1), h)"
      "dialog_history s1 l1"
    by blast
  from Cons.IH [OF this(2), of c1] 1(1) show ?case by auto
qed auto


subsection \<open>The end of a call\<close>

fun is_call_ended :: "dialog_event \<Rightarrow> bool" where
  "is_call_ended (CallEnded _) = True"
| "is_call_ended _ = False"

lemma terminating_ignores:
  "\<not> is_call_ended e \<Longrightarrow> sml_process_event (dialog_table A) Terminating c e = Some (Terminating, c, False)"
  by (cases e) (simp_all add: sml_process_event_def)

lemma terminating_ends:
  "sml_process_event (dialog_table A) Terminating c (CallEnded r) = Some (DialogDone, dl_cleanup A c, True)"
  by (simp add: sml_process_event_def table_simps)

lemma terminating_run:
  "run_events (dialog_table A) Terminating c (filter (\<lambda>e. \<not> is_call_ended e) es @ [CallEnded r]) =
     Some (DialogDone, dl_cleanup A c)"
  by (induction es) (simp_all add: terminating_ignores terminating_ends)

fun teardown_of :: "'c dialog_actions \<Rightarrow> dialog_event \<Rightarrow> ('c \<Rightarrow> 'c) option" where
  "teardown_of A (ByeReceived leg) = Some (forward_bye_to_other_leg A leg)"
| "teardown_of A CallReplaced = Some (terminate_call A kReplaced)"
| "teardown_of A (CallError r) = Some (terminate_call A r)"
| "teardown_of A (CallEnded r) = Some (terminate_call A r)"
| "teardown_of A _ = None"

text \<open>An active dialog that is torn down by a BYE, a replacement, an error or an end-of-call event
  does the teardown of that event once, ignores whatever arrives afterwards, and is cleaned up by the
  next end-of-call event.\<close>

theorem active_call_ends:
  assumes "teardown_of A e = Some act"
  shows "run_events (dialog_table A) Active c (e # filter (\<lambda>e. \<not> is_call_ended e) es @ [CallEnded r]) =
     Some (DialogDone, dl_cleanup A (act c))"
  using assms by (cases e) (auto simp: sml_process_event_def terminating_run)

definition counting_dialog :: "dialog_call list dialog_actions" where
  "counting_dialog = \<lparr>
     forward_bye_to_other_leg = (\<lambda>g l. l @ [CForwardBye g]),
     answer_reinvite = (\<lambda>sdp g l. (OCommitted, l @ [CAnswerReinvite g OCommitted])),
     reject_reinvite_491_request_pending = (\<lambda>g l. l @ [CReject491 g]),
     answer_update = (\<lambda>sdp g l. (OCommitted, l @ [CAnswerUpdate g OCommitted])),
     reject_update_collision = (\<lambda>g l. l @ [CUpdateCollision g]),
     refer_started = (\<lambda>g l. (True, l @ [CReferStarted g True])),
     refer_completed = (\<lambda>r l. l @ [CReferCompleted r]),
     refer_busy = (\<lambda>g l. l @ [CReferBusy g]),
     terminate_call = (\<lambda>r l. l @ [CTerminateCall r]),
     dl_cleanup = (\<lambda>l. l @ [CDialogCleanup])\<rparr>"

theorem active_call_ends_witness:
  "run_events (dialog_table counting_dialog) Active []
     [ByeReceived Caller, ByeReceived Callee, CallEnded kEngineRequested] =
     Some (DialogDone, [CForwardBye Caller, CDialogCleanup])"
  using active_call_ends [of counting_dialog "ByeReceived Caller" "\<lambda>l. l @ [CForwardBye Caller]" "[]"
    "[ByeReceived Callee]" kEngineRequested]
  by (simp add: counting_dialog_def)

subsection \<open>The stateless request machine\<close>

datatype options_event = MessageReceived | ResponseSent

datatype options_state = OptionsIdle | OptionsResponding | OptionsDone

record 'c options_actions =
  send_options_response :: "'c \<Rightarrow> 'c"
  op_cleanup :: "'c \<Rightarrow> 'c"

fun options_table :: "'c options_actions \<Rightarrow> (options_state, options_event, 'c) table" where
  "options_table A OptionsIdle MessageReceived c =
     Some (OptionsResponding, [ResponseSent], send_options_response A c)"
| "options_table A OptionsResponding ResponseSent c = Some (OptionsDone, [], op_cleanup A c)"
| "options_table A _ _ c = None"

fun options_weight :: "options_event \<Rightarrow> nat" where
  "options_weight MessageReceived = 2"
| "options_weight ResponseSent = 1"

interpretation op: sml_machine "options_table A" options_weight for A :: "'c options_actions"
proof
  show "0 < options_weight e" for e by (cases e) simp_all
  show "weight_of options_weight es < options_weight e" if "options_table A s e c = Some (s', es, c')"
    for s e c s' es c'
    using that by (cases "(A, s, e, c)" rule: options_table.cases) auto
qed

lemma options_dispatch:
  "sml_process_event (options_table A) OptionsIdle c e =
     (if e = MessageReceived then Some (OptionsDone, op_cleanup A (send_options_response A c), True)
      else Some (OptionsIdle, c, False))"
  by (cases e) (simp_all add: sml_process_event_def table_simps)

lemma options_done: "run_events (options_table A) OptionsDone c es = Some (OptionsDone, c)"
  by (induction es) (simp_all add: sml_process_event_def)

text \<open>However many request events a stateless request is given, it sends its response once and
  is cleaned up once after it, within the dispatch of the first one; without one it does nothing.\<close>

theorem options_answers_once:
  "run_events (options_table A) OptionsIdle c es =
     Some (if MessageReceived \<in> set es
           then (OptionsDone, op_cleanup A (send_options_response A c)) else (OptionsIdle, c))"
  by (induction es) (simp_all add: options_dispatch options_done)

end
