(* ===== verification/Rtp_Packet.thy ===== *)
theory Rtp_Packet
  imports SBC_Prelude "HOL-Library.Monad_Syntax"
begin

text \<open>
  RTP packets: the byte-order helpers, \<^verbatim>\<open>FixedHeader\<close>, \<^verbatim>\<open>ExtensionHeader\<close> and the class
  \<^verbatim>\<open>RtpPacket\<close> of \<^verbatim>\<open>engine/src/net/rtp/rtp_cpp.hpp\<close>, as a release build runs it (assertions
  compiled out). Integers keep their width. Sizes computed in \<^verbatim>\<open>size_t\<close> are natural numbers, and
  \<^verbatim>\<open>narrow_cast\<close> wraps to 16 bits. The buffer is a list of bytes; an access outside it, undefined in the
  source, is \<open>None\<close>. The flag \<open>pk_resizable\<close> tells a growable buffer from a view.
\<close>

unbundle bit_operations_syntax

subsection \<open>Bytes and byte order\<close>

type_synonym byte = "8 word"

definition rd :: "byte list \<Rightarrow> nat \<Rightarrow> byte option" where
  "rd buf i = (if i < length buf then Some (buf ! i) else None)"

definition wr :: "nat \<Rightarrow> byte \<Rightarrow> byte list \<Rightarrow> byte list option" where
  "wr i b buf = (if i < length buf then Some (buf[i := b]) else None)"

definition write_big_endian16 :: "nat \<Rightarrow> 16 word \<Rightarrow> byte list \<Rightarrow> byte list option" where
  "write_big_endian16 i d buf = do {
     buf \<leftarrow> wr i (ucast (drop_bit 8 (d AND 0xFF00))) buf;
     wr (i + 1) (ucast (d AND 0xFF)) buf }"

definition write_big_endian32 :: "nat \<Rightarrow> 32 word \<Rightarrow> byte list \<Rightarrow> byte list option" where
  "write_big_endian32 i d buf = do {
     buf \<leftarrow> wr i (ucast (drop_bit 24 (d AND 0xFF000000))) buf;
     buf \<leftarrow> wr (i + 1) (ucast (drop_bit 16 (d AND 0xFF0000))) buf;
     buf \<leftarrow> wr (i + 2) (ucast (drop_bit 8 (d AND 0xFF00))) buf;
     wr (i + 3) (ucast (d AND 0xFF)) buf }"

definition write_big_endian64 :: "nat \<Rightarrow> 64 word \<Rightarrow> byte list \<Rightarrow> byte list option" where
  "write_big_endian64 i d buf = do {
     buf \<leftarrow> wr i (ucast (drop_bit 56 (d AND 0xFF00000000000000))) buf;
     buf \<leftarrow> wr (i + 1) (ucast (drop_bit 48 (d AND 0x00FF000000000000))) buf;
     buf \<leftarrow> wr (i + 2) (ucast (drop_bit 40 (d AND 0x0000FF0000000000))) buf;
     buf \<leftarrow> wr (i + 3) (ucast (drop_bit 32 (d AND 0x000000FF00000000))) buf;
     buf \<leftarrow> wr (i + 4) (ucast (drop_bit 24 (d AND 0x00000000FF000000))) buf;
     buf \<leftarrow> wr (i + 5) (ucast (drop_bit 16 (d AND 0x0000000000FF0000))) buf;
     buf \<leftarrow> wr (i + 6) (ucast (drop_bit 16 (d AND 0x000000000000FF00))) buf;
     wr (i + 7) (ucast (drop_bit 8 (d AND 0x00000000000000FF))) buf }"

definition read_big_endian16 :: "byte list \<Rightarrow> nat \<Rightarrow> 16 word option" where
  "read_big_endian16 buf i = do {
     b0 \<leftarrow> rd buf i; b1 \<leftarrow> rd buf (i + 1);
     Some (push_bit 8 (ucast b0) OR ucast b1) }"

definition read_big_endian32 :: "byte list \<Rightarrow> nat \<Rightarrow> 32 word option" where
  "read_big_endian32 buf i = do {
     b0 \<leftarrow> rd buf i; b1 \<leftarrow> rd buf (i + 1); b2 \<leftarrow> rd buf (i + 2); b3 \<leftarrow> rd buf (i + 3);
     Some (push_bit 24 (ucast b0) OR push_bit 16 (ucast b1) OR push_bit 8 (ucast b2) OR ucast b3) }"

definition narrow16 :: "nat \<Rightarrow> 16 word" where
  "narrow16 n = word_of_nat n"

subsection \<open>The packet\<close>

record fixed_header =
  fh_timestamp :: "32 word"
  fh_ssrc :: "32 word"
  fh_sequence_number :: "16 word"
  fh_csrc_count :: byte
  fh_payload_type :: byte
  fh_is_extended :: bool
  fh_is_marked :: bool
  fh_is_padded :: bool

definition empty_header :: fixed_header where
  "empty_header = \<lparr>fh_timestamp = 0, fh_ssrc = 0, fh_sequence_number = 0, fh_csrc_count = 0, fh_payload_type = 0,
     fh_is_extended = False, fh_is_marked = False, fh_is_padded = False\<rparr>"

record extension_header =
  xh_id :: "16 word"
  xh_length :: "16 word"

definition data_size_bytes :: "extension_header \<Rightarrow> nat" where
  "data_size_bytes x = unat (xh_length x) * 4"

definition size_bytes :: "extension_header \<Rightarrow> nat" where
  "size_bytes x = 4 + data_size_bytes x"

datatype rtp_result =
    RtpSuccess | RtpError | RtpInvalidPacket | RtpBufferTooSmall | RtpNotImplemented | RtpFixedBufferTooSmall
  | RtpParseBufferOverflow | RtpParseExtensionOverflow | RtpInvalidHeaderLength | RtpInvalidRtpHeader
  | RtpInvalidCsrcCount

record rtp_packet =
  pk_resizable :: bool
  pk_buffer :: "byte list"
  pk_csrc :: "32 word list"
  pk_extension_offset :: "16 word"
  pk_payload_offset :: "16 word"
  pk_payload_size :: "16 word"
  pk_packet_size :: "16 word"
  pk_fields :: fixed_header
  pk_extension :: extension_header
  pk_padding_bytes :: byte

abbreviation kFixedRTPSize :: nat where
  "kFixedRTPSize \<equiv> 12"

type_synonym rtp_op = "(rtp_result \<times> rtp_packet) option"

definition set_version_bits :: "byte \<Rightarrow> byte" where
  "set_version_bits b = (b AND NOT 0xC0) OR (push_bit 6 2 AND 0xC0)"

definition write_rtp_version :: "rtp_packet \<Rightarrow> rtp_packet" where
  "write_rtp_version p =
     (if length (pk_buffer p) < kFixedRTPSize then p
      else p\<lparr>pk_buffer := (pk_buffer p)[0 := set_version_bits (pk_buffer p ! 0)]\<rparr>)"

definition new_packet :: "bool \<Rightarrow> byte list \<Rightarrow> rtp_packet" where
  "new_packet resizable buf = write_rtp_version \<lparr>
     pk_resizable = resizable, pk_buffer = buf, pk_csrc = [], pk_extension_offset = 12, pk_payload_offset = 12,
     pk_payload_size = 0, pk_packet_size = 12, pk_fields = empty_header,
     pk_extension = \<lparr>xh_id = 0, xh_length = 0\<rparr>, pk_padding_bytes = 0\<rparr>"

definition rtp_reset :: "rtp_packet \<Rightarrow> rtp_packet" where
  "rtp_reset p = p\<lparr>pk_fields := empty_header, pk_csrc := [], pk_extension := \<lparr>xh_id = 0, xh_length = 0\<rparr>,
     pk_padding_bytes := 0, pk_payload_offset := 12, pk_payload_size := 0\<rparr>"

definition on_parse :: "nat \<Rightarrow> rtp_packet \<Rightarrow> rtp_packet" where
  "on_parse packet_size p = (rtp_reset p)\<lparr>pk_packet_size := narrow16 packet_size\<rparr>"

subsection \<open>Parsing\<close>

definition version_field :: "byte \<Rightarrow> byte" where
  "version_field b = drop_bit 6 (b AND 0xC0)"

definition padding_flag :: "byte \<Rightarrow> bool" where
  "padding_flag b \<longleftrightarrow> drop_bit 5 (b AND 0x20) \<noteq> 0"

definition extension_flag :: "byte \<Rightarrow> bool" where
  "extension_flag b \<longleftrightarrow> drop_bit 4 (b AND 0x10) \<noteq> 0"

definition csrc_count_field :: "byte \<Rightarrow> byte" where
  "csrc_count_field b = b AND 0x0F"

definition marker_flag :: "byte \<Rightarrow> bool" where
  "marker_flag b \<longleftrightarrow> drop_bit 7 b \<noteq> 0"

definition payload_type_field :: "byte \<Rightarrow> byte" where
  "payload_type_field b = b AND 0x7F"

definition calculate_payload_size :: "rtp_packet \<Rightarrow> rtp_packet" where
  "calculate_payload_size p = p\<lparr>pk_payload_size :=
     word_of_int (uint (pk_packet_size p) - uint (pk_payload_offset p) - uint (pk_padding_bytes p))\<rparr>"

fun read_csrc :: "byte list \<Rightarrow> nat \<Rightarrow> nat \<Rightarrow> 32 word list option" where
  "read_csrc buf offset 0 = Some []"
| "read_csrc buf offset (Suc n) = do {
     x \<leftarrow> read_big_endian32 buf offset;
     xs \<leftarrow> read_csrc buf (offset + 4) n;
     Some (x # xs) }"

definition extract_csrc :: "rtp_packet \<Rightarrow> rtp_packet option" where
  "extract_csrc p = do {
     xs \<leftarrow> read_csrc (pk_buffer p) kFixedRTPSize (unat (fh_csrc_count (pk_fields p)));
     Some (p\<lparr>pk_csrc := xs\<rparr>) }"

definition parse_extension :: "rtp_packet \<Rightarrow> rtp_op" where
  "parse_extension p = do {
     let ext = unat (pk_payload_offset p);
     xid \<leftarrow> read_big_endian16 (pk_buffer p) ext;
     xlen \<leftarrow> read_big_endian16 (pk_buffer p) (ext + 2);
     let p1 = p\<lparr>pk_extension_offset := pk_payload_offset p, pk_extension := \<lparr>xh_id = xid, xh_length = xlen\<rparr>,
                pk_payload_offset := narrow16 (ext + 4 + unat xlen * 4)\<rparr>;
     if pk_payload_offset p1 > pk_packet_size p1 then Some (RtpParseExtensionOverflow, p1)
     else Some (RtpSuccess, calculate_payload_size p1) }"

definition parse_padding :: "byte \<Rightarrow> rtp_packet \<Rightarrow> rtp_op" where
  "parse_padding b0 p =
     (if padding_flag b0 then do {
        pad \<leftarrow> rd (pk_buffer p) (unat (pk_packet_size p) - 1);
        let p1 = p\<lparr>pk_padding_bytes := pad\<rparr>;
        if pad = 0 then Some (RtpInvalidRtpHeader, p1)
        else if unat (pk_packet_size p) < unat pad + kFixedRTPSize then Some (RtpParseBufferOverflow, p1)
        else Some (RtpSuccess, p1) }
      else Some (RtpSuccess, p))"

definition parse_fields :: "byte \<Rightarrow> rtp_packet \<Rightarrow> rtp_op" where
  "parse_fields b0 p = do {
     let cc = csrc_count_field b0;
     let p1 = p\<lparr>pk_fields := (pk_fields p)\<lparr>fh_is_extended := extension_flag b0, fh_csrc_count := cc\<rparr>,
                pk_payload_offset := narrow16 (unat (pk_payload_offset p) + unat cc * 4)\<rparr>;
     if pk_payload_offset p1 > pk_packet_size p1 then Some (RtpParseBufferOverflow, p1)
     else do {
       p2 \<leftarrow> extract_csrc p1;
       b1 \<leftarrow> rd (pk_buffer p2) 1;
       sn \<leftarrow> read_big_endian16 (pk_buffer p2) 2;
       ts \<leftarrow> read_big_endian32 (pk_buffer p2) 4;
       ssrc \<leftarrow> read_big_endian32 (pk_buffer p2) 8;
       let p3 = p2\<lparr>pk_fields := (pk_fields p2)\<lparr>fh_is_marked := marker_flag b1, fh_payload_type := payload_type_field b1,
                    fh_sequence_number := sn, fh_timestamp := ts, fh_ssrc := ssrc\<rparr>\<rparr>;
       if fh_is_extended (pk_fields p3) then parse_extension p3
       else Some (RtpSuccess, calculate_payload_size p3) } }"

definition parse_pkt :: "rtp_packet \<Rightarrow> rtp_op" where
  "parse_pkt p =
     (if unat (pk_packet_size p) < kFixedRTPSize then Some (RtpBufferTooSmall, p)
      else do {
        b0 \<leftarrow> rd (pk_buffer p) 0;
        let p1 = p\<lparr>pk_payload_offset := 12\<rparr>;
        if version_field b0 \<noteq> 2 then Some (RtpInvalidRtpHeader, p1)
        else do {
          (r, p2) \<leftarrow> parse_padding b0 p1;
          if r \<noteq> RtpSuccess then Some (r, p2) else parse_fields b0 p2 } })"

definition rtp_parse_in_place :: "nat \<Rightarrow> rtp_packet \<Rightarrow> rtp_op" where
  "rtp_parse_in_place packet_size p = parse_pkt (on_parse packet_size p)"

definition rtp_parse :: "byte list \<Rightarrow> rtp_packet \<Rightarrow> rtp_op" where
  "rtp_parse buf p = parse_pkt (on_parse (length buf) (p\<lparr>pk_buffer := buf\<rparr>))"

definition rtp_parse_sized :: "byte list \<Rightarrow> nat \<Rightarrow> rtp_packet \<Rightarrow> rtp_op" where
  "rtp_parse_sized buf packet_size p = parse_pkt (on_parse packet_size (p\<lparr>pk_buffer := buf\<rparr>))"

subsection \<open>Changing fields\<close>

definition set_byte :: "nat \<Rightarrow> (byte \<Rightarrow> byte) \<Rightarrow> rtp_packet \<Rightarrow> rtp_packet option" where
  "set_byte i f p = do {
     b \<leftarrow> rd (pk_buffer p) i;
     Some (p\<lparr>pk_buffer := (pk_buffer p)[i := f b]\<rparr>) }"

definition set_flag_bit :: "byte \<Rightarrow> nat \<Rightarrow> bool \<Rightarrow> byte \<Rightarrow> byte" where
  "set_flag_bit m sh flag b = (b AND NOT m) OR (push_bit sh (of_bool flag) AND m)"

definition set_marker :: "bool \<Rightarrow> rtp_packet \<Rightarrow> rtp_packet option" where
  "set_marker mark p =
     set_byte 1 (set_flag_bit 0x80 7 mark)
       (p\<lparr>pk_fields := (pk_fields p)\<lparr>fh_is_marked := mark\<rparr>\<rparr>)"

definition set_payload_type_bits :: "byte \<Rightarrow> byte \<Rightarrow> byte" where
  "set_payload_type_bits pt b = (b AND NOT 0x7F) OR pt"

definition set_payload_type :: "byte \<Rightarrow> rtp_packet \<Rightarrow> rtp_packet option" where
  "set_payload_type pt p =
     set_byte 1 (set_payload_type_bits pt) (p\<lparr>pk_fields := (pk_fields p)\<lparr>fh_payload_type := pt\<rparr>\<rparr>)"

definition set_sequence_number :: "16 word \<Rightarrow> rtp_packet \<Rightarrow> rtp_packet option" where
  "set_sequence_number sn p = do {
     buf \<leftarrow> write_big_endian16 2 sn (pk_buffer p);
     Some (p\<lparr>pk_fields := (pk_fields p)\<lparr>fh_sequence_number := sn\<rparr>, pk_buffer := buf\<rparr>) }"

definition set_timestamp :: "32 word \<Rightarrow> rtp_packet \<Rightarrow> rtp_packet option" where
  "set_timestamp ts p = do {
     buf \<leftarrow> write_big_endian32 4 ts (pk_buffer p);
     Some (p\<lparr>pk_fields := (pk_fields p)\<lparr>fh_timestamp := ts\<rparr>, pk_buffer := buf\<rparr>) }"

definition set_ssrc :: "32 word \<Rightarrow> rtp_packet \<Rightarrow> rtp_packet option" where
  "set_ssrc ssrc p = do {
     buf \<leftarrow> write_big_endian32 8 ssrc (pk_buffer p);
     Some (p\<lparr>pk_fields := (pk_fields p)\<lparr>fh_ssrc := ssrc\<rparr>, pk_buffer := buf\<rparr>) }"

definition resize :: "nat \<Rightarrow> byte list \<Rightarrow> byte list" where
  "resize n buf = (if n \<le> length buf then take n buf else buf @ replicate (n - length buf) 0)"

text \<open>\<^verbatim>\<open>buffer_[packet_size_ - 1] = value\<close>: the index of an empty packet wraps and leaves the buffer.\<close>

definition wr_last :: "16 word \<Rightarrow> byte \<Rightarrow> byte list \<Rightarrow> byte list option" where
  "wr_last psize b buf = (if psize = 0 then None else wr (unat psize - 1) b buf)"

definition set_payload_size :: "16 word \<Rightarrow> rtp_packet \<Rightarrow> rtp_op" where
  "set_payload_size sz p =
     (let end' = unat (pk_payload_offset p) + unat sz + unat (pk_padding_bytes p) in
      if \<not> pk_resizable p \<and> end' > length (pk_buffer p) then Some (RtpBufferTooSmall, p)
      else do {
        let buf = (if pk_resizable p \<and> end' > unat (pk_packet_size p) then resize end' (pk_buffer p) else pk_buffer p);
        let p1 = p\<lparr>pk_payload_size := sz, pk_packet_size := narrow16 end'\<rparr>;
        buf' \<leftarrow> wr_last (pk_packet_size p1) (pk_padding_bytes p1) buf;
        Some (RtpSuccess, p1\<lparr>pk_buffer := buf'\<rparr>) })"

definition set_padding_bytes :: "byte \<Rightarrow> rtp_packet \<Rightarrow> rtp_op" where
  "set_padding_bytes pad p =
     (let updated = uint (pk_packet_size p) - uint (pk_padding_bytes p) + uint pad in
      if pk_resizable p \<and> updated < 0 then None
      else if \<not> pk_resizable p \<and> kFixedRTPSize \<le> length (pk_buffer p) \<and> unat pad > length (pk_buffer p) - kFixedRTPSize
      then Some (RtpBufferTooSmall, p)
      else do {
        let buf = (if pk_resizable p \<and> nat updated > length (pk_buffer p) then resize (nat updated) (pk_buffer p)
                   else pk_buffer p);
        p1 \<leftarrow> (if pad \<noteq> 0 then do {
                 let sz = pk_packet_size p - ucast (pk_padding_bytes p) + ucast pad;
                 buf' \<leftarrow> wr_last sz pad buf;
                 Some (p\<lparr>pk_packet_size := sz, pk_padding_bytes := pad, pk_buffer := buf'\<rparr>) }
               else Some (p\<lparr>pk_buffer := buf\<rparr>));
        p2 \<leftarrow> set_byte 0 (set_flag_bit 0x20 5 (pad \<noteq> 0)) p1;
        Some (RtpSuccess, p2) })"

definition toggle_ext_bit :: "bool \<Rightarrow> rtp_packet \<Rightarrow> rtp_packet option" where
  "toggle_ext_bit flag p =
     set_byte 0 (set_flag_bit 0x10 4 flag) (p\<lparr>pk_fields := (pk_fields p)\<lparr>fh_is_extended := flag\<rparr>\<rparr>)"

definition memmove :: "nat \<Rightarrow> nat \<Rightarrow> nat \<Rightarrow> byte list \<Rightarrow> byte list option" where
  "memmove dst src n buf =
     (if dst + n \<le> length buf \<and> src + n \<le> length buf
      then Some (take dst buf @ take n (drop src buf) @ drop (dst + n) buf) else None)"

definition grow :: "nat \<Rightarrow> rtp_packet \<Rightarrow> rtp_packet option" where
  "grow n p =
     (if n > length (pk_buffer p)
      then if pk_resizable p then Some (p\<lparr>pk_buffer := resize n (pk_buffer p)\<rparr>) else None
      else Some p)"

definition move_tail :: "nat \<Rightarrow> nat \<Rightarrow> nat \<Rightarrow> rtp_packet \<Rightarrow> rtp_packet option" where
  "move_tail dst src n p =
     (if length (pk_buffer p) > dst
      then do { buf \<leftarrow> memmove dst src n (pk_buffer p); Some (p\<lparr>pk_buffer := buf\<rparr>) }
      else Some p)"

definition set_extension_header :: "extension_header option \<Rightarrow> rtp_packet \<Rightarrow> rtp_op" where
  "set_extension_header header p = (case header of
     None \<Rightarrow> do {
       p1 \<leftarrow> toggle_ext_bit False p;
       Some (RtpSuccess, p1\<lparr>pk_extension := \<lparr>xh_id = 0, xh_length = 0\<rparr>\<rparr>) }
   | Some h \<Rightarrow>
       (let dst = unat (pk_extension_offset p) + size_bytes h;
            amount = unat (pk_payload_size p) + unat (pk_padding_bytes p) in
        case grow (dst + amount) p of
          None \<Rightarrow> Some (RtpBufferTooSmall, p)
        | Some p0 \<Rightarrow> do {
            p1 \<leftarrow> move_tail dst (unat (pk_payload_offset p0)) amount p0;
            let p2 = p1\<lparr>pk_packet_size := narrow16 (dst + amount), pk_payload_offset := narrow16 dst, pk_extension := h\<rparr>;
            buf \<leftarrow> write_big_endian16 (unat (pk_extension_offset p2)) (xh_id h) (pk_buffer p2);
            buf \<leftarrow> write_big_endian16 (unat (pk_extension_offset p2) + 2) (xh_length h) buf;
            p3 \<leftarrow> toggle_ext_bit True (p2\<lparr>pk_buffer := buf\<rparr>);
            Some (RtpSuccess, p3) }))"

definition set_extension_id :: "16 word \<Rightarrow> rtp_packet \<Rightarrow> rtp_op" where
  "set_extension_id i p =
     (if \<not> fh_is_extended (pk_fields p) then set_extension_header (Some \<lparr>xh_id = i, xh_length = 0\<rparr>) p
      else do {
        buf \<leftarrow> write_big_endian16 (unat (pk_extension_offset p)) i (pk_buffer p);
        Some (RtpSuccess, p\<lparr>pk_extension := (pk_extension p)\<lparr>xh_id := i\<rparr>, pk_buffer := buf\<rparr>) })"

definition set_extension_length :: "16 word \<Rightarrow> rtp_packet \<Rightarrow> rtp_op" where
  "set_extension_length len p =
     (if \<not> fh_is_extended (pk_fields p) then set_extension_header (Some \<lparr>xh_id = 0, xh_length = len\<rparr>) p
      else let dst = unat (pk_extension_offset p) + (unat len * 4 + 4);
               amount = unat (pk_payload_size p) + unat (pk_padding_bytes p) in
        case grow (dst + amount) p of
          None \<Rightarrow> Some (RtpBufferTooSmall, p)
        | Some p0 \<Rightarrow> do {
            p1 \<leftarrow> move_tail dst (unat (pk_payload_offset p0)) amount p0;
            let p2 = p1\<lparr>pk_packet_size := narrow16 (dst + amount), pk_payload_offset := narrow16 dst,
                        pk_extension := (pk_extension p1)\<lparr>xh_length := len\<rparr>\<rparr>;
            buf \<leftarrow> write_big_endian16 (unat (pk_extension_offset p2) + 2) len (pk_buffer p2);
            Some (RtpSuccess, p2\<lparr>pk_buffer := buf\<rparr>) })"

definition current_ext_size_bytes :: "rtp_packet \<Rightarrow> nat" where
  "current_ext_size_bytes p = (if fh_is_extended (pk_fields p) then size_bytes (pk_extension p) else 0)"

fun write_csrc :: "nat \<Rightarrow> 32 word list \<Rightarrow> byte list \<Rightarrow> byte list option" where
  "write_csrc offset [] buf = Some buf"
| "write_csrc offset (x # xs) buf = do {
     buf \<leftarrow> write_big_endian32 offset x buf;
     write_csrc (offset + 4) xs buf }"

definition set_csrc :: "byte \<Rightarrow> rtp_packet \<Rightarrow> rtp_op" where
  "set_csrc cnt p =
     (if unat cnt > 15 then Some (RtpInvalidCsrcCount, p)
      else let dst = kFixedRTPSize + 4 * unat cnt;
               ext = current_ext_size_bytes p;
               amount = unat (pk_payload_size p) + unat (pk_padding_bytes p) + ext in
        case grow (dst + amount) p of
          None \<Rightarrow> Some (RtpBufferTooSmall, p)
        | Some p0 \<Rightarrow> do {
            p1 \<leftarrow> move_tail dst (unat (pk_extension_offset p0)) amount p0;
            let p2 = p1\<lparr>pk_fields := (pk_fields p1)\<lparr>fh_csrc_count := cnt\<rparr>, pk_extension_offset := narrow16 dst,
                        pk_payload_offset := narrow16 (dst + ext), pk_packet_size := narrow16 (dst + amount)\<rparr>;
            p3 \<leftarrow> set_byte 0 (\<lambda>b. (b AND NOT 0x0F) OR (cnt AND 0x0F)) p2;
            buf \<leftarrow> (if unat cnt \<le> length (pk_csrc p3) then write_csrc kFixedRTPSize (take (unat cnt) (pk_csrc p3)) (pk_buffer p3)
                   else None);
            Some (RtpSuccess, p3\<lparr>pk_buffer := buf\<rparr>) })"

definition commit_csrc :: "rtp_packet \<Rightarrow> rtp_op" where
  "commit_csrc p =
     (if length (pk_csrc p) > 15 then Some (RtpInvalidCsrcCount, p) else set_csrc (word_of_nat (length (pk_csrc p))) p)"

definition span_of :: "nat \<Rightarrow> nat \<Rightarrow> byte list \<Rightarrow> byte list option" where
  "span_of off n buf = (if off + n \<le> length buf then Some (take n (drop off buf)) else None)"

definition payload :: "rtp_packet \<Rightarrow> byte list option" where
  "payload p = span_of (unat (pk_payload_offset p)) (unat (pk_payload_size p)) (pk_buffer p)"

definition extension_data :: "rtp_packet \<Rightarrow> byte list option" where
  "extension_data p =
     (if \<not> fh_is_extended (pk_fields p) then Some []
      else span_of (unat (pk_extension_offset p) + 4) (data_size_bytes (pk_extension p)) (pk_buffer p))"

definition packet :: "rtp_packet \<Rightarrow> byte list option" where
  "packet p = span_of 0 (unat (pk_packet_size p)) (pk_buffer p)"

definition write_payload :: "byte list \<Rightarrow> rtp_packet \<Rightarrow> rtp_packet option" where
  "write_payload bs p =
     (let off = unat (pk_payload_offset p) in
      if off + length bs \<le> length (pk_buffer p)
      then Some (p\<lparr>pk_buffer := take off (pk_buffer p) @ bs @ drop (off + length bs) (pk_buffer p)\<rparr>) else None)"

subsection \<open>Bit facts\<close>

lemma unat_narrow16 [simp]: "n < 65536 \<Longrightarrow> unat (narrow16 n) = n"
  by (simp add: narrow16_def unat_of_nat)

lemma narrow16_eq_0: "n < 65536 \<Longrightarrow> narrow16 n = 0 \<longleftrightarrow> n = 0"
  by (simp only: word_unat_eq_iff unat_narrow16 unat_0)

lemma byte_masks:
  "(0xFF000000 :: 32 word) = push_bit 24 (mask 8)" "(0xFF0000 :: 32 word) = push_bit 16 (mask 8)"
  "(0xFF00 :: 32 word) = push_bit 8 (mask 8)" "(0xFF :: 32 word) = mask 8"
  "(0xFF00 :: 16 word) = push_bit 8 (mask 8)" "(0xFF :: 16 word) = mask 8"
  by code_simp+

lemma bit_masks:
  "(0x7F :: byte) = mask 7" "(0x80 :: byte) = push_bit 7 1" "(0xC0 :: byte) = push_bit 6 (mask 2)"
  "(0x20 :: byte) = push_bit 5 1" "(0x10 :: byte) = push_bit 4 1" "(0x0F :: byte) = mask 4"
  by code_simp+

lemma big_endian16 [simp]:
  "push_bit 8 (ucast (ucast (drop_bit 8 (x AND 0xFF00)) :: byte)) OR ucast (ucast (x AND 0xFF) :: byte) = (x :: 16 word)"
  unfolding byte_masks by (rule bit_word_eqI) (auto simp: bit_simps)

lemma big_endian32 [simp]:
  "push_bit 24 (ucast (ucast (drop_bit 24 (x AND 0xFF000000)) :: byte)) OR
   push_bit 16 (ucast (ucast (drop_bit 16 (x AND 0xFF0000)) :: byte)) OR
   push_bit 8 (ucast (ucast (drop_bit 8 (x AND 0xFF00)) :: byte)) OR ucast (ucast (x AND 0xFF) :: byte) = (x :: 32 word)"
  unfolding byte_masks
proof (rule bit_word_eqI, goal_cases)
  case (1 n)
  then consider "n < 8" | "8 \<le> n" "n < 16" | "16 \<le> n" "n < 24" | "24 \<le> n" "n < 32"
    by fastforce
  then show ?case
    by cases (auto simp add: bit_simps)
qed

lemma seven_bit_payload_type: "pt < 0x80 \<Longrightarrow> \<not> bit (pt :: byte) 7"
proof -
  assume "pt < 0x80"
  then have "uint pt < 2 ^ 7"
    by (simp add: word_less_def)
  then have "take_bit 7 (uint pt) = uint pt"
    by (simp add: take_bit_int_eq_self_iff)
  then have "\<not> bit (uint pt) 7"
    by (metis bit_take_bit_iff less_irrefl)
  then show ?thesis
    by (simp add: bit_uint_iff)
qed

text \<open>Octet 1 of a header: marker bit and payload type.\<close>

definition octet1 :: "byte \<Rightarrow> bool \<Rightarrow> byte" where
  "octet1 pt marker = pt OR push_bit 7 (of_bool marker)"

lemma octet1_written: "pt < 0x80 \<Longrightarrow> set_flag_bit 0x80 7 m (set_payload_type_bits pt b) = octet1 pt m"
  by (drule seven_bit_payload_type, unfold bit_masks set_flag_bit_def set_payload_type_bits_def octet1_def, rule bit_word_eqI, simp add: bit_simps)
     (auto simp: less_Suc_eq numeral_eq_Suc)

lemma octet1_payload_type: "pt < 0x80 \<Longrightarrow> payload_type_field (octet1 pt m) = pt"
  by (drule seven_bit_payload_type, unfold payload_type_field_def bit_masks octet1_def, rule bit_word_eqI, simp add: bit_simps)
     (auto simp: less_Suc_eq numeral_eq_Suc)

lemma seven_bit_payload_type_high: "pt < 0x80 \<Longrightarrow> 7 \<le> n \<Longrightarrow> \<not> bit (pt :: byte) n"
  using bit_imp_le_length [of pt n] seven_bit_payload_type [of pt] by (cases "n = 7") auto

lemma octet1_marker: "pt < 0x80 \<Longrightarrow> marker_flag (octet1 pt m) = m"
proof -
  assume "pt < 0x80"
  then have "drop_bit 7 (octet1 pt m) = of_bool m"
    by (intro bit_word_eqI) (auto simp: octet1_def bit_simps seven_bit_payload_type_high)
  then show ?thesis
    by (simp add: marker_flag_def)
qed

end
