(* ===== verification/Rtp_Stream.thy ===== *)
theory Rtp_Stream
  imports Rtp_Packet
begin

text \<open>
  What the relay does with single packets: the receiver's parse of a datagram
  (\<^verbatim>\<open>RtpReceiver::async_receive_pkt\<close> of \<^verbatim>\<open>engine/src/net/rtp/rtp_cpp.cpp\<close>), the DTMF payload-type
  rewrite (\<^verbatim>\<open>dtmf_pt_relay.hpp\<close>) and the synthesized outgoing stream of a transcoded direction
  (\<^verbatim>\<open>transcoded_rtp_stream.cpp\<close>). A reference encoder of the twelve-octet RTP header states what
  the stream emits, octet by octet.
\<close>

subsection \<open>Receiving\<close>

definition receive_pkt :: "byte list \<Rightarrow> rtp_op" where
  "receive_pkt datagram = rtp_parse_in_place (length datagram) (new_packet False datagram)"

subsection \<open>DTMF relay\<close>

datatype dtmf_relay_outcome = NotDtmf | DropUnmapped | Relay byte

definition relay_dtmf_pt :: "rtp_packet \<Rightarrow> byte option \<Rightarrow> byte option \<Rightarrow> (dtmf_relay_outcome \<times> byte list) option" where
  "relay_dtmf_pt pkt src_dtmf_pt dst_dtmf_pt = (case src_dtmf_pt of
     None \<Rightarrow> Some (NotDtmf, pk_buffer pkt)
   | Some src \<Rightarrow>
       if fh_payload_type (pk_fields pkt) \<noteq> src then Some (NotDtmf, pk_buffer pkt)
       else (case dst_dtmf_pt of
         None \<Rightarrow> Some (DropUnmapped, pk_buffer pkt)
       | Some out_pt \<Rightarrow>
           if out_pt \<noteq> src then do {
             pkt' \<leftarrow> set_payload_type out_pt pkt;
             Some (Relay out_pt, pk_buffer pkt') }
           else Some (Relay out_pt, pk_buffer pkt)))"

subsection \<open>The synthesized stream\<close>

record rtp_stream =
  st_audio_payload_type :: byte
  st_ssrc :: "32 word"
  st_sequence_number :: "16 word"
  st_timestamp :: "32 word"
  st_send_buffer :: "byte list"

datatype stream_send = Sent "byte list" | SendFailed rtp_result

abbreviation kMaxRtpPacketSize :: nat where
  "kMaxRtpPacketSize \<equiv> 1500"

text \<open>The three random initial values are arguments.\<close>

definition new_stream :: "byte \<Rightarrow> 32 word \<Rightarrow> 16 word \<Rightarrow> 32 word \<Rightarrow> rtp_stream" where
  "new_stream pt ssrc sn ts = \<lparr>st_audio_payload_type = pt, st_ssrc = ssrc, st_sequence_number = sn, st_timestamp = ts,
     st_send_buffer = replicate kMaxRtpPacketSize 0\<rparr>"

definition store_view :: "byte list \<Rightarrow> byte list \<Rightarrow> byte list" where
  "store_view view buf = view @ drop (length view) buf"

definition send_as :: "byte \<Rightarrow> byte list \<Rightarrow> bool \<Rightarrow> rtp_stream \<Rightarrow> (stream_send \<times> rtp_stream) option" where
  "send_as payload_type bs marker s =
     (let packet_size = length bs + kFixedRTPSize in
      if packet_size > length (st_send_buffer s) then Some (SendFailed RtpFixedBufferTooSmall, s)
      else do {
        let pkt = new_packet False (take packet_size (st_send_buffer s));
        pkt \<leftarrow> set_timestamp (st_timestamp s) pkt;
        pkt \<leftarrow> set_payload_type payload_type pkt;
        pkt \<leftarrow> set_ssrc (st_ssrc s) pkt;
        pkt \<leftarrow> set_sequence_number (st_sequence_number s) pkt;
        let s1 = s\<lparr>st_sequence_number := st_sequence_number s + 1\<rparr>;
        pkt \<leftarrow> set_marker marker pkt;
        (r, pkt) \<leftarrow> set_payload_size (narrow16 (length bs)) pkt;
        if r \<noteq> RtpSuccess then Some (SendFailed r, s1\<lparr>st_send_buffer := store_view (pk_buffer pkt) (st_send_buffer s1)\<rparr>)
        else do {
          pkt \<leftarrow> write_payload bs pkt;
          let s2 = s1\<lparr>st_send_buffer := store_view (pk_buffer pkt) (st_send_buffer s1)\<rparr>;
          Some (Sent (take packet_size (st_send_buffer s2)), s2) } })"

definition send_audio :: "byte list \<Rightarrow> 32 word \<Rightarrow> rtp_stream \<Rightarrow> (stream_send \<times> rtp_stream) option" where
  "send_audio encoded timestamp_delta s =
     send_as (st_audio_payload_type s) encoded False (s\<lparr>st_timestamp := st_timestamp s + timestamp_delta\<rparr>)"

definition send_dtmf :: "byte \<Rightarrow> byte list \<Rightarrow> bool \<Rightarrow> rtp_stream \<Rightarrow> (stream_send \<times> rtp_stream) option" where
  "send_dtmf dtmf_payload_type bs marker s = send_as dtmf_payload_type bs marker s"

subsection \<open>A reference encoder\<close>

definition be16 :: "16 word \<Rightarrow> byte list" where
  "be16 x = [ucast (drop_bit 8 (x AND 0xFF00)), ucast (x AND 0xFF)]"

definition be32 :: "32 word \<Rightarrow> byte list" where
  "be32 x = [ucast (drop_bit 24 (x AND 0xFF000000)), ucast (drop_bit 16 (x AND 0xFF0000)),
     ucast (drop_bit 8 (x AND 0xFF00)), ucast (x AND 0xFF)]"

definition rtp_bytes :: "byte \<Rightarrow> bool \<Rightarrow> 16 word \<Rightarrow> 32 word \<Rightarrow> 32 word \<Rightarrow> byte list \<Rightarrow> byte list" where
  "rtp_bytes pt marker sn ts ssrc bs = 0x80 # octet1 pt marker # be16 sn @ be32 ts @ be32 ssrc @ bs"

definition stream_inv :: "rtp_stream \<Rightarrow> bool" where
  "stream_inv s \<longleftrightarrow> length (st_send_buffer s) = kMaxRtpPacketSize \<and> (st_send_buffer s ! 0) AND 0x3F = 0"

lemmas packet_ops =
  new_packet_def write_rtp_version_def set_timestamp_def set_payload_type_def set_ssrc_def set_sequence_number_def
  set_marker_def set_byte_def rd_def wr_def write_big_endian16_def write_big_endian32_def

lemma version_octet: "b AND 0x3F = 0 \<Longrightarrow> set_version_bits b = 0x80"
proof -
  assume b: "b AND 0x3F = 0"
  have "NOT 0xC0 = (0x3F :: byte)" "push_bit 6 2 AND 0xC0 = (0x80 :: byte)"
    by code_simp+
  then show ?thesis
    unfolding set_version_bits_def by (simp only: b) simp
qed

lemma length_ge_12_cases:
  assumes "12 \<le> length (xs :: 'a list)"
  obtains x0 x1 x2 x3 x4 x5 x6 x7 x8 x9 x10 x11 rest
  where "xs = x0 # x1 # x2 # x3 # x4 # x5 # x6 # x7 # x8 # x9 # x10 # x11 # rest"
  using assms by (auto simp: numeral_eq_Suc Suc_le_length_iff)

lemma send_as_emits:
  assumes inv: "stream_inv s" and pt: "pt < 0x80" and bs: "bs \<noteq> []" "length bs \<le> kMaxRtpPacketSize - kFixedRTPSize"
  shows "\<exists>buf. send_as pt bs marker s =
           Some (Sent (rtp_bytes pt marker (st_sequence_number s) (st_timestamp s) (st_ssrc s) bs),
                 s\<lparr>st_sequence_number := st_sequence_number s + 1, st_send_buffer := buf\<rparr>)
         \<and> length buf = kMaxRtpPacketSize \<and> (buf ! 0) AND 0x3F = 0"
proof -
  define n where "n = length bs + 12"
  obtain x0 x1 x2 x3 x4 x5 x6 x7 x8 x9 x10 x11 rest where x:
    "take n (st_send_buffer s) = x0 # x1 # x2 # x3 # x4 # x5 # x6 # x7 # x8 # x9 # x10 # x11 # rest"
    by (rule length_ge_12_cases [of "take n (st_send_buffer s)"]) (use inv bs in \<open>auto simp: stream_inv_def n_def\<close>)
  have len: "length rest = length bs"
    using arg_cong [OF x, of length] inv bs by (simp add: stream_inv_def n_def)
  have "x0 = st_send_buffer s ! 0"
    using arg_cong [OF x, of "\<lambda>l. l ! 0"] by (simp add: n_def)
  then have x0: "x0 AND 0x3F = 0" and v: "set_version_bits (st_send_buffer s ! 0) = 0x80"
    using inv version_octet [of x0] by (simp_all add: stream_inv_def)
  obtain k where k: "length bs = Suc k"
    using bs by (cases bs) auto
  have n: "n = 13 + k" "length (st_send_buffer s) = kMaxRtpPacketSize"
    using k inv by (simp_all add: n_def stream_inv_def)
  show ?thesis
    using inv bs x len k
    unfolding send_as_def Let_def
    by (simp add: packet_ops n_def [symmetric] version_octet [OF x0] octet1_written [OF pt] set_payload_size_def
          wr_last_def narrow16_eq_0)
       (simp add: write_payload_def store_view_def rtp_bytes_def be16_def be32_def n v, rule exI, rule conjI, rule refl, simp add: n)
qed

subsection \<open>Parsing what was received\<close>

lemmas parse_ops =
  receive_pkt_def rtp_parse_in_place_def on_parse_def rtp_reset_def new_packet_def write_rtp_version_def parse_pkt_def
  parse_padding_def parse_fields_def extract_csrc_def calculate_payload_size_def rd_def

lemma set_version_bits_eq: "set_version_bits b = (b AND mask 6) OR push_bit 7 1"
proof -
  have "NOT 0xC0 = (mask 6 :: byte)" "push_bit 6 2 AND 0xC0 = (push_bit 7 1 :: byte)"
    by code_simp+
  then show ?thesis
    by (simp only: set_version_bits_def)
qed

lemma version_bits_set [simp]: "version_field (set_version_bits b) = 2"
proof -
  have two: "(2 :: byte) = push_bit 1 1"
    by code_simp
  show ?thesis
    unfolding version_field_def set_version_bits_eq bit_masks two
    by (rule bit_word_eqI) (auto simp: bit_simps)
qed

lemma version_bits_keep_under: "m AND NOT (mask 6) = 0 \<Longrightarrow> set_version_bits b AND m = b AND m" for m :: byte
proof -
  assume "m AND NOT (mask 6) = 0"
  then have m: "\<not> bit m n" if "6 \<le> n" for n
    using that by (metis bit_and_iff bit_mask_iff bit_not_iff bit_imp_le_length impossible_bit not_less zero_and_eq bit_0_eq bot_apply bot_bool_def)
  have "bit (set_version_bits b AND m) n = bit (b AND m) n" for n
    using m [of n] by (cases "6 \<le> n") (simp_all only: set_version_bits_eq bit_and_iff bit_or_iff bit_push_bit_iff bit_mask_iff, auto)
  then show ?thesis
    by (rule bit_eqI)
qed

lemma version_bits_keep [simp]:
  "padding_flag (set_version_bits b) = padding_flag b" "extension_flag (set_version_bits b) = extension_flag b"
  "csrc_count_field (set_version_bits b) = csrc_count_field b"
  unfolding padding_flag_def extension_flag_def csrc_count_field_def
  by (subst version_bits_keep_under, code_simp, rule refl)+

lemma read_csrc_total: "offset + n * 4 \<le> length buf \<Longrightarrow> \<exists>xs. read_csrc buf offset n = Some xs \<and> length xs = n"
proof (induction n arbitrary: offset)
  case (Suc n)
  then have "offset + 4 + n * 4 \<le> length buf"
    by simp
  from Suc.IH [OF this] obtain xs where "read_csrc buf (offset + 4) n = Some xs" "length xs = n"
    by auto
  then show ?case
    using Suc.prems by (simp add: read_big_endian32_def rd_def)
qed simp

lemma csrc_count_le: "unat (csrc_count_field b) \<le> 15"
proof -
  have "b AND 0x0F \<le> 0x0F"
    by (rule word_and_le1)
  then show ?thesis
    by (simp add: word_le_nat_alt csrc_count_field_def)
qed

lemma narrow16_less_iff: "a < 65536 \<Longrightarrow> b < 65536 \<Longrightarrow> narrow16 a < narrow16 b \<longleftrightarrow> a < b"
  by (simp add: word_less_nat_alt)

lemma narrow16_diff: "b \<le> a \<Longrightarrow> a < 65536 \<Longrightarrow> unat (narrow16 a - narrow16 b) = a - b"
  by (simp add: unat_sub word_le_nat_alt)

lemma receive_plain:
  assumes len: "12 \<le> length d" "length d < 65536" and bits: "\<not> padding_flag (d ! 0)" "\<not> extension_flag (d ! 0)"
    and cc: "cc = unat (csrc_count_field (d ! 0))"
  shows "12 + cc * 4 \<le> length d \<Longrightarrow>
           \<exists>p. receive_pkt d = Some (RtpSuccess, p) \<and> pk_buffer p = d[0 := set_version_bits (d ! 0)]
             \<and> payload p = Some (drop (12 + cc * 4) d) \<and> packet p = Some (pk_buffer p)
             \<and> length (pk_csrc p) = cc \<and> fh_payload_type (pk_fields p) = payload_type_field (d ! 1)
             \<and> fh_is_marked (pk_fields p) = marker_flag (d ! 1)
             \<and> Some (fh_sequence_number (pk_fields p)) = read_big_endian16 d 2
             \<and> Some (fh_timestamp (pk_fields p)) = read_big_endian32 d 4
             \<and> Some (fh_ssrc (pk_fields p)) = read_big_endian32 d 8"
    "length d < 12 + cc * 4 \<Longrightarrow> \<exists>p. receive_pkt d = Some (RtpParseBufferOverflow, p)"
proof -
  have ne: "d \<noteq> []"
    using len by auto
  have cc15: "cc \<le> 15"
    using cc csrc_count_le by simp
  have off: "narrow16 (12 + cc * 4) > narrow16 (length d) \<longleftrightarrow> length d < 12 + cc * 4"
    using len cc15 by (simp add: narrow16_less_iff)
  show "length d < 12 + cc * 4 \<Longrightarrow> \<exists>p. receive_pkt d = Some (RtpParseBufferOverflow, p)"
    using len bits off cc ne by (simp add: parse_ops Let_def)
  assume fits: "12 + cc * 4 \<le> length d"
  define d' where "d' = d[0 := set_version_bits (d ! 0)]"
  obtain xs where xs: "read_csrc d' 12 cc = Some xs" "length xs = cc"
    using read_csrc_total [of 12 cc d'] fits by (auto simp: d'_def)
  have drop: "drop (12 + cc * 4) d' = drop (12 + cc * 4) d"
    by (simp add: d'_def)
  show "\<exists>p. receive_pkt d = Some (RtpSuccess, p) \<and> pk_buffer p = d[0 := set_version_bits (d ! 0)]
             \<and> payload p = Some (drop (12 + cc * 4) d) \<and> packet p = Some (pk_buffer p)
             \<and> length (pk_csrc p) = cc \<and> fh_payload_type (pk_fields p) = payload_type_field (d ! 1)
             \<and> fh_is_marked (pk_fields p) = marker_flag (d ! 1)
             \<and> Some (fh_sequence_number (pk_fields p)) = read_big_endian16 d 2
             \<and> Some (fh_timestamp (pk_fields p)) = read_big_endian32 d 4
             \<and> Some (fh_ssrc (pk_fields p)) = read_big_endian32 d 8"
    using len bits off fits xs drop cc15 ne unfolding d'_def
    by (simp add: parse_ops cc [symmetric] Let_def read_big_endian16_def read_big_endian32_def payload_def packet_def span_of_def
         narrow16_diff)
qed

text \<open>The parser reads back what the reference encoder writes.\<close>

lemma receive_rtp_bytes:
  assumes pt: "pt < 0x80" and len: "length bs < 65524"
  shows "\<exists>p. receive_pkt (rtp_bytes pt m sn ts ssrc bs) = Some (RtpSuccess, p) \<and> payload p = Some bs \<and> pk_csrc p = []
           \<and> pk_fields p = empty_header\<lparr>fh_timestamp := ts, fh_ssrc := ssrc, fh_sequence_number := sn,
               fh_payload_type := pt, fh_is_marked := m\<rparr>"
proof -
  define d where "d = rtp_bytes pt m sn ts ssrc bs"
  have d0: "d ! 0 = 0x80" "d ! Suc 0 = octet1 pt m"
    by (simp_all add: d_def rtp_bytes_def)
  have flags: "\<not> padding_flag 0x80" "\<not> extension_flag 0x80" "csrc_count_field 0x80 = 0" "set_version_bits 0x80 = 0x80"
    "version_field 0x80 = 2"
    by code_simp+
  have rds: "read_big_endian16 d 2 = Some sn" "read_big_endian32 d 4 = Some ts" "read_big_endian32 d 8 = Some ssrc"
    using big_endian16 [of sn] big_endian32 [of ts] big_endian32 [of ssrc]
    unfolding d_def rtp_bytes_def be16_def be32_def read_big_endian16_def read_big_endian32_def rd_def
    by simp_all
  have ld: "length d = 12 + length bs" and dd: "drop 12 d = bs" "d[0 := 0x80] = d" "d \<noteq> []"
    by (simp_all add: d_def rtp_bytes_def be16_def be32_def)
  show ?thesis
    unfolding d_def [symmetric]
    using len by (simp add: parse_ops ld d0 dd flags rds Let_def payload_def span_of_def narrow16_diff narrow16_less_iff
        octet1_marker octet1_payload_type pt empty_header_def)
qed

subsection \<open>Properties\<close>

text \<open>C31: Every frame of one to 1488 octets that a synthesized stream sends under a seven-bit payload type is one whole RTP packet:
  parsed by a receiver it is accepted and gives back the frame, the marker and payload type, the stream's SSRC and timestamp
  and the sequence number current at the send. The stream is left with the next sequence number (modulo 2 to the 16), the
  same SSRC, and its reused send buffer fit for the next packet.\<close>

theorem stream_packet_parses_back:
  assumes "stream_inv s" and "pt < 0x80" and "bs \<noteq> []" and "length bs \<le> 1488"
  shows "\<exists>d s' p. send_as pt bs marker s = Some (Sent d, s') \<and> stream_inv s'
           \<and> st_sequence_number s' = st_sequence_number s + 1 \<and> st_ssrc s' = st_ssrc s \<and> st_timestamp s' = st_timestamp s
           \<and> receive_pkt d = Some (RtpSuccess, p) \<and> payload p = Some bs \<and> pk_csrc p = []
           \<and> pk_fields p = empty_header\<lparr>fh_timestamp := st_timestamp s, fh_ssrc := st_ssrc s,
               fh_sequence_number := st_sequence_number s, fh_payload_type := pt, fh_is_marked := marker\<rparr>"
proof -
  obtain buf where "send_as pt bs marker s =
      Some (Sent (rtp_bytes pt marker (st_sequence_number s) (st_timestamp s) (st_ssrc s) bs),
            s\<lparr>st_sequence_number := st_sequence_number s + 1, st_send_buffer := buf\<rparr>)"
    "length buf = kMaxRtpPacketSize" "(buf ! 0) AND 0x3F = 0"
    using send_as_emits [OF assms(1,2,3), of marker] assms(4) by auto
  moreover have "length bs < 65524"
    using assms by simp
  ultimately show ?thesis
    using receive_rtp_bytes [OF assms(2), of bs marker "st_sequence_number s" "st_timestamp s" "st_ssrc s"]
    by (auto simp: stream_inv_def)
qed

theorem stream_packet_parses_back_witness:
  "\<exists>d s' p. send_as 8 [0xD5, 0x55] True (new_stream 8 0xCAFE 0xFFFF 160) = Some (Sent d, s')
     \<and> receive_pkt d = Some (RtpSuccess, p) \<and> payload p = Some [0xD5, 0x55] \<and> st_sequence_number s' = 0"
proof -
  have "stream_inv (new_stream 8 0xCAFE 0xFFFF 160)"
    by (simp add: stream_inv_def new_stream_def)
  then show ?thesis
    using stream_packet_parses_back [of "new_stream 8 0xCAFE 0xFFFF 160" 8 "[0xD5, 0x55]" True]
    by (fastforce simp: new_stream_def)
qed

text \<open>Reception of a datagram of 12 to 65535 octets without padding and extension. It is accepted exactly when its CSRC list
  fits, and then the payload is everything after that list and the header fields are the octets of the datagram.
  The version the sender wrote does not matter: the view overwrites it with 2 before the version check reads it.\<close>

theorem received_datagram:
  assumes "12 \<le> length d" and "length d < 65536" and "\<not> padding_flag (d ! 0)" and "\<not> extension_flag (d ! 0)"
    and "off = 12 + unat (csrc_count_field (d ! 0)) * 4"
  shows "(if off \<le> length d
          then \<exists>p. receive_pkt d = Some (RtpSuccess, p) \<and> payload p = Some (drop off d)
                 \<and> packet p = Some (d[0 := set_version_bits (d ! 0)])
                 \<and> fh_payload_type (pk_fields p) = payload_type_field (d ! 1) \<and> fh_is_marked (pk_fields p) = marker_flag (d ! 1)
                 \<and> Some (fh_sequence_number (pk_fields p)) = read_big_endian16 d 2
                 \<and> Some (fh_timestamp (pk_fields p)) = read_big_endian32 d 4
                 \<and> Some (fh_ssrc (pk_fields p)) = read_big_endian32 d 8
          else \<exists>p. receive_pkt d = Some (RtpParseBufferOverflow, p))"
  using receive_plain [OF assms(1-4) refl] assms(5) by (simp add: not_le) metis

theorem received_datagram_witness:
  "\<exists>p. receive_pkt [0x01, 0x80, 0, 1, 0, 0, 0, 2, 0, 0, 0, 3, 0, 0, 0, 4, 7] = Some (RtpSuccess, p) \<and> payload p = Some [7]"
proof -
  have "\<not> padding_flag 1" "\<not> extension_flag 1" "unat (csrc_count_field 1) = 1"
    by code_simp+
  then show ?thesis
    using received_datagram [of "[0x01, 0x80, 0, 1, 0, 0, 0, 2, 0, 0, 0, 3, 0, 0, 0, 4, 7]" 16] by auto
qed


end
