(* ===== verification/Audio_Transcoder.thy ===== *)
theory Audio_Transcoder
  imports SBC_Prelude Codecs "HOL-Library.Monad_Syntax"
begin

text \<open>
  The codec pipeline of one transcoding call: \<^verbatim>\<open>codec_session.hpp\<close>/\<^verbatim>\<open>.cpp\<close> and
  \<^verbatim>\<open>audio_transcoder.cpp\<close> of \<^verbatim>\<open>engine/src/net/rtp\<close>. PJMEDIA itself (codec manager, codecs,
  resampler) is not part of the repository: it is the record \<open>pjmedia_lib\<close>, an argument of the definitions, whose
  functions thread PJMEDIA's own state. The scratch buffers are their capacities. A span taken outside its buffer,
  undefined in the source, is the outer \<open>None\<close>.
\<close>

subsection \<open>Relay legs\<close>

datatype relay_leg = LegA | LegB

definition opposite :: "relay_leg \<Rightarrow> relay_leg" where
  "opposite l = (if l = LegA then LegB else LegA)"

lemma opposite_simps [simp]: "opposite LegA = LegB" "opposite LegB = LegA" "opposite (opposite l) = l" "opposite l \<noteq> l"
  by (cases l; simp add: opposite_def)+

subsection \<open>PJMEDIA, as the code calls it\<close>

record codec_param =
  cp_clock_rate :: "32 word"
  cp_frm_ptime :: "32 word"
  cp_avg_bps :: "32 word"

record codec_session =
  cs_leg :: relay_leg
  cs_param :: codec_param

record resampler =
  rs_rate_in :: "32 word"
  rs_rate_out :: "32 word"
  rs_samples_per_frame :: "32 word"

record 'st pjmedia_lib =
  pj_open_codec :: "8 word \<Rightarrow> codec_param option"
  pj_create_pool :: bool
  pj_resample_create :: "resampler \<Rightarrow> bool"
  pj_codec_decode :: "codec_session \<Rightarrow> 8 word list \<Rightarrow> nat \<Rightarrow> 'st \<Rightarrow> 8 word list option \<times> 'st"
  pj_codec_encode :: "codec_session \<Rightarrow> 8 word list \<Rightarrow> nat \<Rightarrow> 'st \<Rightarrow> 8 word list option \<times> 'st"
  pj_resample_run :: "resampler \<Rightarrow> 8 word list \<Rightarrow> 'st \<Rightarrow> 8 word list \<times> 'st"

subsection \<open>Codec sessions\<close>

definition codec_open :: "'st pjmedia_lib \<Rightarrow> relay_leg \<Rightarrow> 8 word \<Rightarrow> codec_session option" where
  "codec_open pj l payload_type =
     map_option (\<lambda>param. \<lparr>cs_leg = l, cs_param = param\<rparr>) (pj_open_codec pj payload_type)"

definition clock_rate :: "codec_session \<Rightarrow> 32 word" where
  "clock_rate c = cp_clock_rate (cs_param c)"

definition frame_time_ms :: "codec_session \<Rightarrow> 32 word" where
  "frame_time_ms c = cp_frm_ptime (cs_param c)"

definition pcm_frame_samples :: "codec_session \<Rightarrow> 32 word" where
  "pcm_frame_samples c = clock_rate c * frame_time_ms c div 1000"

definition encoded_frame_bytes :: "codec_session \<Rightarrow> nat" where
  "encoded_frame_bytes c = unat (cp_avg_bps (cs_param c) * frame_time_ms c div 8000)"

definition pcm_frame_bytes :: "codec_session \<Rightarrow> nat" where
  "pcm_frame_bytes c = unat (pcm_frame_samples c) * 2"

subsection \<open>Opening a transcoder\<close>

record direction =
  dr_decoded_pcm :: nat
  dr_resampled_pcm :: nat
  dr_encoded :: nat

record transcoder =
  tc_codec_a :: codec_session
  tc_codec_b :: codec_session
  tc_info_a :: supported_codec
  tc_info_b :: supported_codec
  tc_resample :: "(resampler \<times> resampler) option"
  tc_ab :: direction
  tc_ba :: direction

datatype transcoder_error =
    CodecOpenFailed relay_leg
  | ZeroSizeFrame
  | ResamplePoolFailed
  | ResampleCreateFailed relay_leg

definition open_resamplers ::
  "'st pjmedia_lib \<Rightarrow> codec_session \<Rightarrow> codec_session \<Rightarrow> transcoder_error + (resampler \<times> resampler) option" where
  "open_resamplers pj a b =
     (if clock_rate a \<noteq> clock_rate b then
        if \<not> pj_create_pool pj then Inl ResamplePoolFailed
        else let ab = \<lparr>rs_rate_in = clock_rate a, rs_rate_out = clock_rate b, rs_samples_per_frame = pcm_frame_samples a\<rparr>;
                 ba = \<lparr>rs_rate_in = clock_rate b, rs_rate_out = clock_rate a, rs_samples_per_frame = pcm_frame_samples b\<rparr> in
          if \<not> pj_resample_create pj ab then Inl (ResampleCreateFailed LegA)
          else if \<not> pj_resample_create pj ba then Inl (ResampleCreateFailed LegB)
          else Inr (Some (ab, ba))
      else Inr None)"

definition transcoder_open ::
  "'st pjmedia_lib \<Rightarrow> supported_codec \<Rightarrow> supported_codec \<Rightarrow> nat \<Rightarrow> transcoder_error + transcoder" where
  "transcoder_open pj codec_a codec_b max_payload_bytes =
     (case codec_open pj LegA (sc_payload_type codec_a) of
        None \<Rightarrow> Inl (CodecOpenFailed LegA)
      | Some a \<Rightarrow> (case codec_open pj LegB (sc_payload_type codec_b) of
          None \<Rightarrow> Inl (CodecOpenFailed LegB)
        | Some b \<Rightarrow>
            if encoded_frame_bytes a = 0 \<or> encoded_frame_bytes b = 0 then Inl ZeroSizeFrame
            else (case open_resamplers pj a b of
              Inl err \<Rightarrow> Inl err
            | Inr rs \<Rightarrow>
                let max_frames_a = max_payload_bytes div encoded_frame_bytes a;
                    max_frames_b = max_payload_bytes div encoded_frame_bytes b in
                Inr \<lparr>tc_codec_a = a, tc_codec_b = b, tc_info_a = codec_a, tc_info_b = codec_b, tc_resample = rs,
                     tc_ab = \<lparr>dr_decoded_pcm = max_frames_a * pcm_frame_bytes a,
                              dr_resampled_pcm = (if rs \<noteq> None then max_frames_a * pcm_frame_bytes b else 0),
                              dr_encoded = max_frames_a * encoded_frame_bytes b\<rparr>,
                     tc_ba = \<lparr>dr_decoded_pcm = max_frames_b * pcm_frame_bytes b,
                              dr_resampled_pcm = (if rs \<noteq> None then max_frames_b * pcm_frame_bytes a else 0),
                              dr_encoded = max_frames_b * encoded_frame_bytes a\<rparr>\<rparr>)))"

subsection \<open>Transcoding one payload\<close>

definition frames :: "nat \<Rightarrow> nat \<Rightarrow> 'a list \<Rightarrow> 'a list list" where
  "frames n k xs = map (\<lambda>i. take n (drop (i * n) xs)) [0..<k]"

fun run_codec ::
  "(8 word list \<Rightarrow> 'st \<Rightarrow> 8 word list option \<times> 'st) \<Rightarrow> nat \<Rightarrow> 8 word list list \<Rightarrow> 'st \<Rightarrow> 8 word list option \<times> 'st" where
  "run_codec op expected [] st = (Some [], st)"
| "run_codec op expected (f # fs) st = (case op f st of
     (None, st') \<Rightarrow> (None, st')
   | (Some out, st') \<Rightarrow>
       if length out \<noteq> expected then (None, st')
       else (case run_codec op expected fs st' of
         (None, st'') \<Rightarrow> (None, st'')
       | (Some rest, st'') \<Rightarrow> (Some (out @ rest), st'')))"

fun run_resample :: "(8 word list \<Rightarrow> 'st \<Rightarrow> 8 word list \<times> 'st) \<Rightarrow> 8 word list list \<Rightarrow> 'st \<Rightarrow> 8 word list \<times> 'st" where
  "run_resample op [] st = ([], st)"
| "run_resample op (f # fs) st = (let (out, st') = op f st; (rest, st'') = run_resample op fs st' in (out @ rest, st''))"

type_synonym transcoded = "(8 word list \<times> 32 word) option"

definition timestamp_delta :: "nat \<Rightarrow> codec_session \<Rightarrow> supported_codec \<Rightarrow> 32 word" where
  "timestamp_delta num_frames dst_codec dst_info =
     word_of_nat (num_frames * unat (frame_time_ms dst_codec) * unat (sc_rtp_clock_rate dst_info) div 1000)"

definition encode_pcm ::
  "'st pjmedia_lib \<Rightarrow> codec_session \<Rightarrow> supported_codec \<Rightarrow> direction \<Rightarrow> nat \<Rightarrow> 8 word list \<Rightarrow> 'st \<Rightarrow> (transcoded \<times> 'st) option" where
  "encode_pcm pj dst dst_info scratch num_frames pcm st =
     (if dr_encoded scratch < num_frames * encoded_frame_bytes dst then Some (None, st)
      else if length pcm < num_frames * pcm_frame_bytes dst then None
      else Some (case run_codec (\<lambda>f. pj_codec_encode pj dst f (encoded_frame_bytes dst)) (encoded_frame_bytes dst)
                   (frames (pcm_frame_bytes dst) num_frames pcm) st of
        (None, st') \<Rightarrow> (None, st')
      | (Some encoded, st') \<Rightarrow> (Some (encoded, timestamp_delta num_frames dst dst_info), st')))"

definition transcode_dir ::
  "'st pjmedia_lib \<Rightarrow> codec_session \<Rightarrow> codec_session \<Rightarrow> supported_codec \<Rightarrow> resampler option \<Rightarrow> direction \<Rightarrow>
   8 word list \<Rightarrow> 'st \<Rightarrow> (transcoded \<times> 'st) option" where
  "transcode_dir pj src dst dst_info resample scratch bs st =
     (if bs = [] \<or> length bs mod encoded_frame_bytes src \<noteq> 0 then Some (None, st)
      else let num_frames = length bs div encoded_frame_bytes src in
        if dr_decoded_pcm scratch < num_frames * pcm_frame_bytes src then Some (None, st)
        else (case run_codec (\<lambda>f. pj_codec_decode pj src f (pcm_frame_bytes src)) (pcm_frame_bytes src)
                     (frames (encoded_frame_bytes src) num_frames bs) st of
          (None, st') \<Rightarrow> Some (None, st')
        | (Some pcm, st') \<Rightarrow> (case resample of
            None \<Rightarrow> encode_pcm pj dst dst_info scratch num_frames pcm st'
          | Some rs \<Rightarrow>
              if dr_resampled_pcm scratch < num_frames * pcm_frame_bytes dst then Some (None, st')
              else (case run_resample (pj_resample_run pj rs) (frames (pcm_frame_bytes src) num_frames pcm) st' of
                (pcm', st'') \<Rightarrow> encode_pcm pj dst dst_info scratch num_frames pcm' st''))))"

definition transcode :: "'st pjmedia_lib \<Rightarrow> transcoder \<Rightarrow> relay_leg \<Rightarrow> 8 word list \<Rightarrow> 'st \<Rightarrow> (transcoded \<times> 'st) option" where
  "transcode pj tc src_leg bs st = (case src_leg of
     LegA \<Rightarrow> transcode_dir pj (tc_codec_a tc) (tc_codec_b tc) (tc_info_b tc) (map_option fst (tc_resample tc)) (tc_ab tc) bs st
   | LegB \<Rightarrow> transcode_dir pj (tc_codec_b tc) (tc_codec_a tc) (tc_info_a tc) (map_option snd (tc_resample tc)) (tc_ba tc) bs st)"

subsection \<open>What the code relies on\<close>

text \<open>
  PJMEDIA's documented behaviour for the three supported codecs: atomic frames of 10 ms at 64 kbit/s; a codec turns one
  encoded frame into exactly one PCM frame and back; the resampler turns one frame into one frame at the other rate.
\<close>

definition pjmedia_contract :: "'st pjmedia_lib \<Rightarrow> bool" where
  "pjmedia_contract pj \<longleftrightarrow>
     (\<forall>c \<in> set kSupportedCodecs. pj_open_codec pj (sc_payload_type c) =
        Some \<lparr>cp_clock_rate = sc_clock_rate c, cp_frm_ptime = 10, cp_avg_bps = 64000\<rparr>)
   \<and> pj_create_pool pj \<and> (\<forall>r. pj_resample_create pj r)
   \<and> (\<forall>c bs st. length bs = encoded_frame_bytes c \<longrightarrow>
        (\<exists>out st'. pj_codec_decode pj c bs (pcm_frame_bytes c) st = (Some out, st') \<and> length out = pcm_frame_bytes c))
   \<and> (\<forall>c bs st. length bs = pcm_frame_bytes c \<longrightarrow>
        (\<exists>out st'. pj_codec_encode pj c bs (encoded_frame_bytes c) st = (Some out, st') \<and> length out = encoded_frame_bytes c))
   \<and> (\<forall>r bs st. length bs = 2 * unat (rs_samples_per_frame r) \<longrightarrow>
        length (fst (pj_resample_run pj r bs st)) =
          2 * (unat (rs_samples_per_frame r) * unat (rs_rate_out r) div unat (rs_rate_in r)))"

lemma pjmedia_contractD:
  assumes "pjmedia_contract pj"
  shows "c \<in> set kSupportedCodecs \<Longrightarrow> pj_open_codec pj (sc_payload_type c) =
           Some \<lparr>cp_clock_rate = sc_clock_rate c, cp_frm_ptime = 10, cp_avg_bps = 64000\<rparr>"
    and "pj_create_pool pj" "pj_resample_create pj r"
    and "length bs = encoded_frame_bytes cs \<Longrightarrow>
           \<exists>out st'. pj_codec_decode pj cs bs (pcm_frame_bytes cs) st = (Some out, st') \<and> length out = pcm_frame_bytes cs"
    and "length bs = pcm_frame_bytes cs \<Longrightarrow>
           \<exists>out st'. pj_codec_encode pj cs bs (encoded_frame_bytes cs) st = (Some out, st') \<and> length out = encoded_frame_bytes cs"
    and "length bs = 2 * unat (rs_samples_per_frame r) \<Longrightarrow> length (fst (pj_resample_run pj r bs st)) =
           2 * (unat (rs_samples_per_frame r) * unat (rs_rate_out r) div unat (rs_rate_in r))"
  using assms unfolding pjmedia_contract_def by blast+

lemma length_frames [simp]: "length (frames n k xs) = k"
  by (simp add: frames_def)

lemma frames_whole: "f \<in> set (frames n k xs) \<Longrightarrow> k * n \<le> length xs \<Longrightarrow> length f = n"
proof -
  assume "f \<in> set (frames n k xs)" and k: "k * n \<le> length xs"
  then obtain i where i: "i < k" "f = take n (drop (i * n) xs)"
    by (auto simp: frames_def)
  then have "Suc i * n \<le> k * n"
    by (intro mult_le_mono1) simp
  then show ?thesis
    using i k by simp
qed

lemma run_codec_total:
  "(\<And>f st. f \<in> set fs \<Longrightarrow> \<exists>out st'. op f st = (Some out, st') \<and> length out = n) \<Longrightarrow>
   \<exists>out st'. run_codec op n fs st = (Some out, st') \<and> length out = length fs * n"
proof (induction fs arbitrary: st)
  case (Cons f fs)
  obtain out st' where "op f st = (Some out, st')" "length out = n"
    using Cons.prems [of f st] by auto
  moreover obtain rest st'' where "run_codec op n fs st' = (Some rest, st'')" "length rest = length fs * n"
    using Cons.IH [of st'] Cons.prems by auto
  ultimately show ?case
    by simp
qed simp

lemma run_resample_length:
  "(\<And>f st. f \<in> set fs \<Longrightarrow> length (fst (op f st)) = n) \<Longrightarrow> length (fst (run_resample op fs st)) = length fs * n"
  by (induction fs arbitrary: st) (simp_all add: split_beta Let_def)

definition nominal :: "codec_session \<Rightarrow> supported_codec \<Rightarrow> bool" where
  "nominal c i \<longleftrightarrow> i \<in> set kSupportedCodecs
     \<and> cs_param c = \<lparr>cp_clock_rate = sc_clock_rate i, cp_frm_ptime = 10, cp_avg_bps = 64000\<rparr>"

lemma nominal_sizes:
  assumes "nominal c i"
  shows "encoded_frame_bytes c = 80" "frame_time_ms c = 10" "unat (sc_rtp_clock_rate i) = 8000"
    "clock_rate c = sc_clock_rate i"
    "clock_rate c = 8000 \<and> pcm_frame_bytes c = 160 \<and> pcm_frame_samples c = 80
     \<or> clock_rate c = 16000 \<and> pcm_frame_bytes c = 320 \<and> pcm_frame_samples c = 160"
  using assms
  by (auto simp: nominal_def kSupportedCodecs_def encoded_frame_bytes_def frame_time_ms_def pcm_frame_bytes_def
      pcm_frame_samples_def clock_rate_def)

lemma encode_pcm_total:
  assumes pj: "pjmedia_contract pj" and dst: "nominal dst i" and fits: "num_frames * 80 \<le> dr_encoded scratch"
    and pcm: "length pcm = num_frames * pcm_frame_bytes dst"
  shows "\<exists>out st'. encode_pcm pj dst i scratch num_frames pcm st = Some (Some (out, word_of_nat (num_frames * 80)), st')
           \<and> length out = num_frames * 80"
proof -
  have "\<exists>out st'. run_codec (\<lambda>f. pj_codec_encode pj dst f (encoded_frame_bytes dst)) (encoded_frame_bytes dst)
          (frames (pcm_frame_bytes dst) num_frames pcm) st = (Some out, st')
          \<and> length out = length (frames (pcm_frame_bytes dst) num_frames pcm) * encoded_frame_bytes dst"
    by (rule run_codec_total, rule pjmedia_contractD(5) [OF pj], erule frames_whole) (simp add: pcm)
  then show ?thesis
    using fits pcm nominal_sizes [OF dst] by (auto simp: encode_pcm_def timestamp_delta_def)
qed

lemma resample_total:
  assumes pj: "pjmedia_contract pj" and src: "nominal src i" and dst: "nominal dst j"
    and rs: "rs = \<lparr>rs_rate_in = clock_rate src, rs_rate_out = clock_rate dst, rs_samples_per_frame = pcm_frame_samples src\<rparr>"
    and pcm: "length pcm = num_frames * pcm_frame_bytes src"
  shows "length (fst (run_resample (pj_resample_run pj rs) (frames (pcm_frame_bytes src) num_frames pcm) st))
           = num_frames * pcm_frame_bytes dst"
proof -
  have "length (fst (pj_resample_run pj rs f st)) = pcm_frame_bytes dst"
    if "f \<in> set (frames (pcm_frame_bytes src) num_frames pcm)" for f st
  proof -
    have "length f = 2 * unat (rs_samples_per_frame rs)"
      using frames_whole [OF that] pcm by (simp add: rs pcm_frame_bytes_def)
    from pjmedia_contractD(6) [OF pj this, of st] show ?thesis
      using nominal_sizes(5) [OF src] nominal_sizes(5) [OF dst] by (auto simp: rs)
  qed
  then show ?thesis
    using run_resample_length [of "frames (pcm_frame_bytes src) num_frames pcm" "pj_resample_run pj rs" "pcm_frame_bytes dst" st]
    by simp
qed

lemma transcode_dir_total:
  assumes pj: "pjmedia_contract pj" and src: "nominal src i" and dst: "nominal dst j"
    and rs: "resample = (if clock_rate src \<noteq> clock_rate dst then Some \<lparr>rs_rate_in = clock_rate src,
               rs_rate_out = clock_rate dst, rs_samples_per_frame = pcm_frame_samples src\<rparr> else None)"
    and scratch: "scratch = \<lparr>dr_decoded_pcm = 18 * pcm_frame_bytes src,
               dr_resampled_pcm = (if resample \<noteq> None then 18 * pcm_frame_bytes dst else 0), dr_encoded = 18 * 80\<rparr>"
  shows "bs \<noteq> [] \<and> length bs mod 80 = 0 \<and> length bs \<le> 1440 \<Longrightarrow>
           \<exists>out st'. transcode_dir pj src dst j resample scratch bs st = Some (Some (out, word_of_nat (length bs)), st')
             \<and> length out = length bs"
    and "\<not> (bs \<noteq> [] \<and> length bs mod 80 = 0 \<and> length bs \<le> 1440) \<Longrightarrow>
           transcode_dir pj src dst j resample scratch bs st = Some (None, st)"
proof -
  note sz = nominal_sizes [OF src] nominal_sizes [OF dst]
  define k where "k = length bs div 80"
  show "\<not> (bs \<noteq> [] \<and> length bs mod 80 = 0 \<and> length bs \<le> 1440) \<Longrightarrow>
           transcode_dir pj src dst j resample scratch bs st = Some (None, st)"
    using sz by (auto simp: transcode_dir_def scratch Let_def)
  assume bs: "bs \<noteq> [] \<and> length bs mod 80 = 0 \<and> length bs \<le> 1440"
  then have k: "length bs = k * 80" "k \<le> 18"
    by (auto simp: k_def)
  have "\<exists>pcm st'. run_codec (\<lambda>f. pj_codec_decode pj src f (pcm_frame_bytes src)) (pcm_frame_bytes src)
          (frames (encoded_frame_bytes src) k bs) st = (Some pcm, st')
          \<and> length pcm = length (frames (encoded_frame_bytes src) k bs) * pcm_frame_bytes src"
    by (rule run_codec_total, rule pjmedia_contractD(4) [OF pj], erule frames_whole) (simp add: sz k)
  then obtain pcm st' where dec: "run_codec (\<lambda>f. pj_codec_decode pj src f (pcm_frame_bytes src)) (pcm_frame_bytes src)
      (frames 80 k bs) st = (Some pcm, st')" "length pcm = k * pcm_frame_bytes src"
    by (auto simp: sz)
  have step: "transcode_dir pj src dst j resample scratch bs st = (case resample of
            None \<Rightarrow> encode_pcm pj dst j scratch k pcm st'
          | Some rs \<Rightarrow> (case run_resample (pj_resample_run pj rs) (frames (pcm_frame_bytes src) k pcm) st' of
                (pcm', st'') \<Rightarrow> encode_pcm pj dst j scratch k pcm' st''))"
    using bs dec k by (auto simp: transcode_dir_def sz Let_def scratch split: option.split)
  show "\<exists>out st'. transcode_dir pj src dst j resample scratch bs st = Some (Some (out, word_of_nat (length bs)), st')
          \<and> length out = length bs"
  proof (cases "clock_rate src = clock_rate dst")
    case True
    then have "length pcm = k * pcm_frame_bytes dst"
      using dec(2) sz by auto
    from encode_pcm_total [OF pj dst _ this, of scratch st'] show ?thesis
      using step True k by (simp add: rs scratch)
  next
    case False
    define r where "r = \<lparr>rs_rate_in = clock_rate src, rs_rate_out = clock_rate dst, rs_samples_per_frame = pcm_frame_samples src\<rparr>"
    obtain pcm' st'' where res: "run_resample (pj_resample_run pj r) (frames (pcm_frame_bytes src) k pcm) st' = (pcm', st'')"
      by fastforce
    then have "length pcm' = k * pcm_frame_bytes dst"
      using resample_total [OF pj src dst r_def dec(2), of st'] by simp
    from encode_pcm_total [OF pj dst _ this, of scratch st''] show ?thesis
      using step False k res by (simp add: rs scratch r_def)
  qed
qed

lemma transcoder_open_supported:
  assumes pj: "pjmedia_contract pj" and ab: "a \<in> set kSupportedCodecs" "b \<in> set kSupportedCodecs"
  shows "\<exists>ca cb. nominal ca a \<and> nominal cb b \<and> transcoder_open pj a b 1488 = Inr
    (let rs = (if clock_rate ca \<noteq> clock_rate cb then
           Some (\<lparr>rs_rate_in = clock_rate ca, rs_rate_out = clock_rate cb, rs_samples_per_frame = pcm_frame_samples ca\<rparr>,
                 \<lparr>rs_rate_in = clock_rate cb, rs_rate_out = clock_rate ca, rs_samples_per_frame = pcm_frame_samples cb\<rparr>) else None) in
     \<lparr>tc_codec_a = ca, tc_codec_b = cb, tc_info_a = a, tc_info_b = b, tc_resample = rs,
      tc_ab = \<lparr>dr_decoded_pcm = 18 * pcm_frame_bytes ca, dr_resampled_pcm = (if rs \<noteq> None then 18 * pcm_frame_bytes cb else 0),
               dr_encoded = 18 * 80\<rparr>,
      tc_ba = \<lparr>dr_decoded_pcm = 18 * pcm_frame_bytes cb, dr_resampled_pcm = (if rs \<noteq> None then 18 * pcm_frame_bytes ca else 0),
               dr_encoded = 18 * 80\<rparr>\<rparr>)"
proof -
  define ca cb where "ca = \<lparr>cs_leg = LegA, cs_param = \<lparr>cp_clock_rate = sc_clock_rate a, cp_frm_ptime = 10, cp_avg_bps = 64000\<rparr>\<rparr>"
    and "cb = \<lparr>cs_leg = LegB, cs_param = \<lparr>cp_clock_rate = sc_clock_rate b, cp_frm_ptime = 10, cp_avg_bps = 64000\<rparr>\<rparr>"
  have nom: "nominal ca a" "nominal cb b"
    using ab by (simp_all add: nominal_def ca_def cb_def)
  have "codec_open pj LegA (sc_payload_type a) = Some ca" "codec_open pj LegB (sc_payload_type b) = Some cb"
    using pjmedia_contractD(1) [OF pj] ab by (simp_all add: codec_open_def ca_def cb_def)
  then show ?thesis
    using nom nominal_sizes(1) [OF nom(1)] nominal_sizes(1) [OF nom(2)] pjmedia_contractD(2,3) [OF pj]
    by (intro exI [of _ ca] exI [of _ cb]) (simp add: transcoder_open_def open_resamplers_def Let_def)
qed

subsection \<open>Properties\<close>

text \<open>C35: For any two supported codecs a transcoder opens, and in both directions it converts every payload of 1 to 18 whole
  frames of 80 octets into a payload of the same size, which therefore fits one RTP packet, and advances the RTP
  clock by one tick per octet (8000 Hz, G.722 included). Every other payload is dropped without touching a codec.\<close>

theorem transcode_supported:
  assumes "pjmedia_contract pj" and "a \<in> set kSupportedCodecs" and "b \<in> set kSupportedCodecs"
  shows "\<exists>tc. transcoder_open pj a b 1488 = Inr tc \<and> (\<forall>l bs st.
     if bs \<noteq> [] \<and> length bs mod 80 = 0 \<and> length bs \<le> 1440
     then \<exists>out st'. transcode pj tc l bs st = Some (Some (out, word_of_nat (length bs)), st') \<and> length out = length bs
     else transcode pj tc l bs st = Some (None, st))"
proof -
  obtain ca cb where nom: "nominal ca a" "nominal cb b" and op: "transcoder_open pj a b 1488 = Inr
    (let rs = (if clock_rate ca \<noteq> clock_rate cb then
           Some (\<lparr>rs_rate_in = clock_rate ca, rs_rate_out = clock_rate cb, rs_samples_per_frame = pcm_frame_samples ca\<rparr>,
                 \<lparr>rs_rate_in = clock_rate cb, rs_rate_out = clock_rate ca, rs_samples_per_frame = pcm_frame_samples cb\<rparr>) else None) in
     \<lparr>tc_codec_a = ca, tc_codec_b = cb, tc_info_a = a, tc_info_b = b, tc_resample = rs,
      tc_ab = \<lparr>dr_decoded_pcm = 18 * pcm_frame_bytes ca, dr_resampled_pcm = (if rs \<noteq> None then 18 * pcm_frame_bytes cb else 0),
               dr_encoded = 18 * 80\<rparr>,
      tc_ba = \<lparr>dr_decoded_pcm = 18 * pcm_frame_bytes cb, dr_resampled_pcm = (if rs \<noteq> None then 18 * pcm_frame_bytes ca else 0),
               dr_encoded = 18 * 80\<rparr>\<rparr>)"
    using transcoder_open_supported [OF assms] by blast
  note ab = transcode_dir_total [OF assms(1) nom refl refl] and ba = transcode_dir_total [OF assms(1) nom(2,1) refl refl]
  have "if bs \<noteq> [] \<and> length bs mod 80 = 0 \<and> length bs \<le> 1440
     then \<exists>out st'. transcode pj (projr (transcoder_open pj a b 1488)) l bs st = Some (Some (out, word_of_nat (length bs)), st')
            \<and> length out = length bs
     else transcode pj (projr (transcoder_open pj a b 1488)) l bs st = Some (None, st)" for l bs st
    using ab [of bs st] ba [of bs st]
    by (cases l; cases "clock_rate ca = clock_rate cb") (simp_all add: op transcode_def Let_def split: if_splits)
  moreover have "transcoder_open pj a b 1488 = Inr (projr (transcoder_open pj a b 1488))"
    by (simp add: op)
  ultimately show ?thesis
    by blast
qed

definition silence_pjmedia :: "unit pjmedia_lib" where
  "silence_pjmedia = \<lparr>
     pj_open_codec = (\<lambda>pt. map_option (\<lambda>c. \<lparr>cp_clock_rate = sc_clock_rate c, cp_frm_ptime = 10, cp_avg_bps = 64000\<rparr>)
       (find_supported_codec_by_payload_type pt)),
     pj_create_pool = True, pj_resample_create = (\<lambda>r. True),
     pj_codec_decode = (\<lambda>c bs n st. (Some (replicate n 0), st)), pj_codec_encode = (\<lambda>c bs n st. (Some (replicate n 0), st)),
     pj_resample_run = (\<lambda>r bs st. (replicate (2 * (unat (rs_samples_per_frame r) * unat (rs_rate_out r) div unat (rs_rate_in r))) 0, st))\<rparr>"

theorem transcode_supported_witness:
  "\<exists>tc. transcoder_open silence_pjmedia (kSupportedCodecs ! 0) (kSupportedCodecs ! 1) 1488 = Inr tc
     \<and> (\<exists>out st'. transcode silence_pjmedia tc LegA (replicate 160 7) () = Some (Some (out, 160), st') \<and> length out = 160)"
proof -
  have "pjmedia_contract silence_pjmedia"
    using find_by_payload_type_iff by (auto simp: pjmedia_contract_def silence_pjmedia_def)
  moreover have "kSupportedCodecs ! 0 \<in> set kSupportedCodecs" "kSupportedCodecs ! 1 \<in> set kSupportedCodecs"
    by (simp_all add: kSupportedCodecs_def)
  ultimately obtain tc where "transcoder_open silence_pjmedia (kSupportedCodecs ! 0) (kSupportedCodecs ! 1) 1488 = Inr tc"
    and "\<And>l bs st. if bs \<noteq> [] \<and> length bs mod 80 = 0 \<and> length bs \<le> 1440
     then \<exists>out st'. transcode silence_pjmedia tc l bs st = Some (Some (out, word_of_nat (length bs)), st') \<and> length out = length bs
     else transcode silence_pjmedia tc l bs st = Some (None, st)"
    using transcode_supported by blast
  from this(1) this(2) [of "replicate 160 7" LegA "()"] show ?thesis
    by simp
qed

end
