(* ===== verification/Media_Bridge.thy ===== *)
theory Media_Bridge
  imports Rtp_Stream Audio_Transcoder
begin

text \<open>
  The RTP relay of one call: \<^verbatim>\<open>engine/src/net/rtp/media_bridge.cpp\<close> with
  \<^verbatim>\<open>transcode_session.cpp\<close>. All state lives on one executor, so every posted task and every completion
  handler is one atomic step: a function from the bridge to the bridge and the asynchronous operations it starts.
  PJMEDIA is a parameter and its state \<open>'st\<close> is carried along; the time of a step is an argument.
  The outer \<open>None\<close> is an access outside a packet.
\<close>

subsection \<open>State\<close>

type_synonym endpoint = "string \<times> 16 word"

record leg_flow =
  lf_can_send :: bool
  lf_can_receive :: bool

record transcode_session =
  ts_transcoder :: transcoder
  ts_stream_towards_a :: rtp_stream
  ts_stream_towards_b :: rtp_stream

datatype relay_op = OpReceive | OpSend

datatype net_error = OperationAborted | NetError | RtpFault rtp_result

record 'st bridge =
  mb_dest_a :: "endpoint option"
  mb_dest_b :: "endpoint option"
  mb_leg_a_flow :: leg_flow
  mb_leg_b_flow :: leg_flow
  mb_error_handler :: bool
  mb_last_packet_time :: int
  mb_leg_a_dtmf_pt :: "byte option"
  mb_leg_b_dtmf_pt :: "byte option"
  mb_transcode_session :: "transcode_session option"
  mb_closing :: bool
  mb_loop_start_requested :: bool
  mb_loop_started :: bool
  mb_leg_a_rx_armed :: bool
  mb_leg_b_rx_armed :: bool
  mb_pjmedia :: 'st

datatype bridge_out =
    Listen relay_leg
  | SendTo relay_leg endpoint "byte list"
  | ReportError relay_leg relay_op net_error
  | CloseSockets

type_synonym 'st bridge_result = "'st bridge \<times> bridge_out list"

definition new_bridge :: "int \<Rightarrow> 'st \<Rightarrow> 'st bridge" where
  "new_bridge now st = \<lparr>mb_dest_a = None, mb_dest_b = None, mb_leg_a_flow = \<lparr>lf_can_send = True, lf_can_receive = True\<rparr>,
     mb_leg_b_flow = \<lparr>lf_can_send = True, lf_can_receive = True\<rparr>, mb_error_handler = False, mb_last_packet_time = now,
     mb_leg_a_dtmf_pt = None, mb_leg_b_dtmf_pt = None, mb_transcode_session = None, mb_closing = False,
     mb_loop_start_requested = False, mb_loop_started = False, mb_leg_a_rx_armed = False, mb_leg_b_rx_armed = False,
     mb_pjmedia = st\<rparr>"

definition dest :: "relay_leg \<Rightarrow> 'st bridge \<Rightarrow> endpoint option" where
  "dest l b = (case l of LegA \<Rightarrow> mb_dest_a b | LegB \<Rightarrow> mb_dest_b b)"

definition set_dest :: "relay_leg \<Rightarrow> endpoint \<Rightarrow> 'st bridge \<Rightarrow> 'st bridge" where
  "set_dest l ep b = (case l of LegA \<Rightarrow> b\<lparr>mb_dest_a := Some ep\<rparr> | LegB \<Rightarrow> b\<lparr>mb_dest_b := Some ep\<rparr>)"

definition rx_armed :: "relay_leg \<Rightarrow> 'st bridge \<Rightarrow> bool" where
  "rx_armed l b = (case l of LegA \<Rightarrow> mb_leg_a_rx_armed b | LegB \<Rightarrow> mb_leg_b_rx_armed b)"

definition dtmf_pt :: "relay_leg \<Rightarrow> 'st bridge \<Rightarrow> byte option" where
  "dtmf_pt l b = (case l of LegA \<Rightarrow> mb_leg_a_dtmf_pt b | LegB \<Rightarrow> mb_leg_b_dtmf_pt b)"

definition relay_allowed :: "relay_leg \<Rightarrow> 'st bridge \<Rightarrow> bool" where
  "relay_allowed src_leg b =
     (let src_flow = (if src_leg = LegA then mb_leg_a_flow b else mb_leg_b_flow b);
          dst_flow = (if src_leg = LegA then mb_leg_b_flow b else mb_leg_a_flow b) in
      lf_can_send src_flow \<and> lf_can_receive dst_flow)"

subsection \<open>The relay loop\<close>

definition report :: "relay_leg \<Rightarrow> relay_op \<Rightarrow> net_error \<Rightarrow> 'st bridge \<Rightarrow> bridge_out list" where
  "report l operation err b = (if mb_error_handler b then [ReportError l operation err] else [])"

definition send_completion :: "relay_leg \<Rightarrow> net_error option \<Rightarrow> 'st bridge \<Rightarrow> 'st bridge_result" where
  "send_completion src_leg send_err b =
     (if mb_closing b then (b, [])
      else case send_err of
        None \<Rightarrow> (b, [Listen src_leg])
      | Some err \<Rightarrow>
          if err = OperationAborted then (b, [])
          else (b, report (opposite src_leg) OpSend err b @ [Listen src_leg]))"

definition stream_towards :: "relay_leg \<Rightarrow> transcode_session \<Rightarrow> rtp_stream" where
  "stream_towards l s = (case l of LegA \<Rightarrow> ts_stream_towards_a s | LegB \<Rightarrow> ts_stream_towards_b s)"

definition set_stream_towards :: "relay_leg \<Rightarrow> rtp_stream \<Rightarrow> transcode_session \<Rightarrow> transcode_session" where
  "set_stream_towards l st s =
     (case l of LegA \<Rightarrow> s\<lparr>ts_stream_towards_a := st\<rparr> | LegB \<Rightarrow> s\<lparr>ts_stream_towards_b := st\<rparr>)"

definition stream_result ::
  "relay_leg \<Rightarrow> endpoint \<Rightarrow> transcode_session \<Rightarrow> stream_send \<times> rtp_stream \<Rightarrow> 'st bridge \<Rightarrow> 'st bridge_result" where
  "stream_result src_leg dst_ep session r b =
     (let b' = b\<lparr>mb_transcode_session := Some (set_stream_towards (opposite src_leg) (snd r) session)\<rparr> in
      case fst r of
        Sent bytes \<Rightarrow> (b', [SendTo src_leg dst_ep bytes])
      | SendFailed err \<Rightarrow> send_completion src_leg (Some (RtpFault err)) b')"

definition process_packet :: "'st pjmedia_lib \<Rightarrow> int \<Rightarrow> relay_leg \<Rightarrow> rtp_packet \<Rightarrow> 'st bridge \<Rightarrow> 'st bridge_result option" where
  "process_packet pj now src_leg pkt b =
     (if \<not> relay_allowed src_leg b then Some (b, [Listen src_leg])
      else do {
        let b = b\<lparr>mb_last_packet_time := now\<rparr>;
        (dtmf, buf) \<leftarrow> relay_dtmf_pt pkt (dtmf_pt src_leg b) (dtmf_pt (opposite src_leg) b);
        let pkt = pkt\<lparr>pk_buffer := buf\<rparr>;
        if dtmf = DropUnmapped then Some (b, [Listen src_leg])
        else do {
          dst_ep \<leftarrow> dest (opposite src_leg) b;
          case mb_transcode_session b of
            None \<Rightarrow> do { bytes \<leftarrow> packet pkt; Some (b, [SendTo src_leg dst_ep bytes]) }
          | Some session \<Rightarrow> do {
              bs \<leftarrow> payload pkt;
              let out_stream = stream_towards (opposite src_leg) session;
              case dtmf of
                Relay pt \<Rightarrow> do {
                  r \<leftarrow> send_dtmf pt bs (fh_is_marked (pk_fields pkt)) out_stream;
                  Some (stream_result src_leg dst_ep session r b) }
              | _ \<Rightarrow> do {
                  (transcoded, st) \<leftarrow> transcode pj (ts_transcoder session) src_leg bs (mb_pjmedia b);
                  let b = b\<lparr>mb_pjmedia := st\<rparr>;
                  case transcoded of
                    None \<Rightarrow> Some (b, [Listen src_leg])
                  | Some (encoded, delta) \<Rightarrow> do {
                      r \<leftarrow> send_audio encoded delta out_stream;
                      Some (stream_result src_leg dst_ep session r b) } } } } })"

definition receive_completion ::
  "'st pjmedia_lib \<Rightarrow> int \<Rightarrow> relay_leg \<Rightarrow> net_error + rtp_packet \<Rightarrow> 'st bridge \<Rightarrow> 'st bridge_result option" where
  "receive_completion pj now src_leg r b =
     (if mb_closing b then Some (b, [])
      else case r of
        Inl err \<Rightarrow>
          if err = OperationAborted then Some (b, [])
          else Some (b, report src_leg OpReceive err b @ [Listen src_leg])
      | Inr pkt \<Rightarrow> process_packet pj now src_leg pkt b)"

text \<open>The receiver parses the datagram before it calls back; a parse failure is the callback's error.\<close>

definition on_datagram ::
  "'st pjmedia_lib \<Rightarrow> int \<Rightarrow> relay_leg \<Rightarrow> net_error + byte list \<Rightarrow> 'st bridge \<Rightarrow> 'st bridge_result option" where
  "on_datagram pj now src_leg r b = (case r of
     Inl err \<Rightarrow> receive_completion pj now src_leg (Inl err) b
   | Inr datagram \<Rightarrow> do {
       (res, pkt) \<leftarrow> receive_pkt datagram;
       receive_completion pj now src_leg (if res = RtpSuccess then Inr pkt else Inl (RtpFault res)) b })"

definition arm_leg :: "relay_leg \<Rightarrow> 'st bridge \<Rightarrow> 'st bridge_result" where
  "arm_leg l b =
     (if \<not> rx_armed l b \<and> dest (opposite l) b \<noteq> None
      then (case l of LegA \<Rightarrow> b\<lparr>mb_leg_a_rx_armed := True\<rparr> | LegB \<Rightarrow> b\<lparr>mb_leg_b_rx_armed := True\<rparr>, [Listen l])
      else (b, []))"

definition arm_pending_legs :: "'st bridge \<Rightarrow> 'st bridge_result" where
  "arm_pending_legs b =
     (if \<not> mb_loop_started b \<or> mb_closing b then (b, [])
      else let (b1, out1) = arm_leg LegA b; (b2, out2) = arm_leg LegB b1 in (b2, out1 @ out2))"

subsection \<open>Operations of the SIP side\<close>

record leg_codec =
  lc_audio :: supported_codec
  lc_dtmf_pt :: "byte option"

text \<open>The initial identities of the two synthesized streams are random; they are arguments.\<close>

definition transcode_session_open ::
  "'st pjmedia_lib \<Rightarrow> supported_codec \<Rightarrow> supported_codec \<Rightarrow> (32 word \<times> 16 word \<times> 32 word) \<times> (32 word \<times> 16 word \<times> 32 word) \<Rightarrow>
   transcoder_error + transcode_session" where
  "transcode_session_open pj a b ids =
     (case transcoder_open pj a b (kMaxRtpPacketSize - kFixedRTPSize) of
        Inl err \<Rightarrow> Inl err
      | Inr tc \<Rightarrow> (case ids of ((ssrc_a, sn_a, ts_a), (ssrc_b, sn_b, ts_b)) \<Rightarrow>
          Inr \<lparr>ts_transcoder = tc, ts_stream_towards_a = new_stream (sc_payload_type a) ssrc_a sn_a ts_a,
               ts_stream_towards_b = new_stream (sc_payload_type b) ssrc_b sn_b ts_b\<rparr>))"

definition configure_legs ::
  "'st pjmedia_lib \<Rightarrow> (32 word \<times> 16 word \<times> 32 word) \<times> (32 word \<times> 16 word \<times> 32 word) \<Rightarrow> leg_codec \<Rightarrow> leg_codec \<Rightarrow>
   transcoder_error + transcode_session option" where
  "configure_legs pj ids a b =
     (if sc_name (lc_audio a) \<noteq> sc_name (lc_audio b)
      then (case transcode_session_open pj (lc_audio a) (lc_audio b) ids of Inl err \<Rightarrow> Inl err | Inr s \<Rightarrow> Inr (Some s))
      else Inr None)"

datatype bridge_event =
    SetRemote relay_leg endpoint
  | StartRequested int
  | ResetBaseline int
  | SetErrorHandler
  | RetargetTask relay_leg endpoint
  | FlowTask relay_leg leg_flow
  | ConfigureTask "byte option" "byte option" "transcode_session option"
  | StartTask
  | CloseTask

definition bridge_task :: "bridge_event \<Rightarrow> 'st bridge \<Rightarrow> 'st bridge_result" where
  "bridge_task e b = (case e of
     SetRemote l ep \<Rightarrow> (set_dest l ep b, [])
   | StartRequested now \<Rightarrow> (b\<lparr>mb_last_packet_time := now, mb_loop_start_requested := True\<rparr>, [])
   | ResetBaseline now \<Rightarrow> (b\<lparr>mb_last_packet_time := now\<rparr>, [])
   | SetErrorHandler \<Rightarrow> (b\<lparr>mb_error_handler := True\<rparr>, [])
   | RetargetTask l ep \<Rightarrow> arm_pending_legs (set_dest l ep b)
   | FlowTask l flow \<Rightarrow> (if l = LegA then b\<lparr>mb_leg_a_flow := flow\<rparr> else b\<lparr>mb_leg_b_flow := flow\<rparr>, [])
   | ConfigureTask a_pt b_pt session \<Rightarrow>
       (b\<lparr>mb_leg_a_dtmf_pt := a_pt, mb_leg_b_dtmf_pt := b_pt, mb_transcode_session := session\<rparr>, [])
   | StartTask \<Rightarrow>
       if mb_loop_started b \<or> mb_closing b then (b, []) else arm_pending_legs (b\<lparr>mb_loop_started := True\<rparr>)
   | CloseTask \<Rightarrow> (b\<lparr>mb_closing := True\<rparr>, [CloseSockets]))"

subsection \<open>The bridge and its outstanding operations\<close>

datatype pending = Receiving | Sending

fun started :: "bridge_out \<Rightarrow> (relay_leg \<times> pending) option" where
  "started (Listen l) = Some (l, Receiving)"
| "started (SendTo l ep bytes) = Some (l, Sending)"
| "started (ReportError l operation err) = None"
| "started CloseSockets = None"

definition started_on :: "relay_leg \<Rightarrow> bridge_out list \<Rightarrow> pending list" where
  "started_on l outs = map snd (filter (\<lambda>p. fst p = l) (List.map_filter started outs))"

type_synonym outstanding = "relay_leg \<Rightarrow> pending list"

definition start_ops :: "bridge_out list \<Rightarrow> outstanding \<Rightarrow> outstanding" where
  "start_ops outs pend = (\<lambda>l. pend l @ started_on l outs)"

text \<open>
  A completion fires only for an operation that is outstanding. The address of a leg is set directly only before the
  loop is requested, as the assertion of the source demands.
\<close>

inductive relay_step :: "'st pjmedia_lib \<Rightarrow> 'st bridge \<times> outstanding \<Rightarrow> 'st bridge \<times> outstanding \<Rightarrow> bool"
  for pj :: "'st pjmedia_lib" where
  task: "bridge_task e b = (b', outs) \<Longrightarrow> (\<And>l ep. e = SetRemote l ep \<Longrightarrow> \<not> mb_loop_start_requested b) \<Longrightarrow>
      (e = StartTask \<Longrightarrow> mb_loop_start_requested b) \<Longrightarrow>
      relay_step pj (b, pend) (b', start_ops outs pend)"
| received: "Receiving \<in> set (pend l) \<Longrightarrow> on_datagram pj now l r b = Some (b', outs) \<Longrightarrow> r \<noteq> Inl OperationAborted \<Longrightarrow>
      relay_step pj (b, pend) (b', start_ops outs (pend(l := remove1 Receiving (pend l))))"
| sent: "Sending \<in> set (pend l) \<Longrightarrow> send_completion l err b = (b', outs) \<Longrightarrow> err \<noteq> Some OperationAborted \<Longrightarrow>
      relay_step pj (b, pend) (b', start_ops outs (pend(l := remove1 Sending (pend l))))"
| aborted: "p \<in> set (pend l) \<Longrightarrow> mb_closing b \<Longrightarrow>
      relay_step pj (b, pend) (b, pend(l := remove1 p (pend l)))"

inductive reachable :: "'st pjmedia_lib \<Rightarrow> 'st bridge \<times> outstanding \<Rightarrow> bool" for pj :: "'st pjmedia_lib" where
  start: "reachable pj (new_bridge now st, \<lambda>l. [])"
| step: "reachable pj s \<Longrightarrow> relay_step pj s s' \<Longrightarrow> reachable pj s'"

subsection \<open>Every completion starts exactly one operation on its own leg\<close>

definition core :: "'st bridge \<Rightarrow> endpoint option \<times> endpoint option \<times> bool \<times> bool \<times> bool \<times> bool \<times> bool" where
  "core b = (mb_dest_a b, mb_dest_b b, mb_closing b, mb_loop_start_requested b, mb_loop_started b,
     mb_leg_a_rx_armed b, mb_leg_b_rx_armed b)"

definition one_on :: "relay_leg \<Rightarrow> bridge_out list \<Rightarrow> bool" where
  "one_on l outs \<longleftrightarrow> (\<forall>l'. length (started_on l' outs) = (if l' = l then 1 else 0))"

lemma started_on_simps [simp]:
  "started_on l [] = []" "started_on l (Listen l' # outs) = (if l' = l then [Receiving] else []) @ started_on l outs"
  "started_on l (SendTo l' ep bytes # outs) = (if l' = l then [Sending] else []) @ started_on l outs"
  "started_on l (ReportError l' operation err # outs) = started_on l outs" "started_on l (CloseSockets # outs) = started_on l outs"
  "started_on l (outs @ outs') = started_on l outs @ started_on l outs'"
  by (simp_all add: started_on_def List.map_filter_def)

lemma report_starts_nothing [simp]: "started_on l (report l' operation err b) = []"
  by (simp add: report_def)

lemma one_on_simps [simp]:
  "one_on l [Listen l]" "one_on l [SendTo l ep bytes]" "one_on l (report l' operation err b @ [Listen l])"
  by (simp_all add: one_on_def)

lemma core_updates [simp]:
  "core (b\<lparr>mb_last_packet_time := t\<rparr>) = core b" "core (b\<lparr>mb_pjmedia := st\<rparr>) = core b"
  "core (b\<lparr>mb_transcode_session := s\<rparr>) = core b" "core (b\<lparr>mb_error_handler := h\<rparr>) = core b"
  "core (b\<lparr>mb_leg_a_flow := f\<rparr>) = core b" "core (b\<lparr>mb_leg_b_flow := f\<rparr>) = core b"
  "core (b\<lparr>mb_leg_a_dtmf_pt := pt\<rparr>) = core b" "core (b\<lparr>mb_leg_b_dtmf_pt := pt\<rparr>) = core b"
  by (simp_all add: core_def)

lemma send_completion_one:
  "send_completion l err b = (b', outs) \<Longrightarrow> \<not> mb_closing b \<Longrightarrow> err \<noteq> Some OperationAborted \<Longrightarrow> core b' = core b \<and> one_on l outs"
  by (auto simp: send_completion_def split: option.splits if_splits)

lemma stream_result_one:
  "stream_result l ep session r b = (b', outs) \<Longrightarrow> \<not> mb_closing b \<Longrightarrow> core b' = core b \<and> one_on l outs"
  by (auto simp: stream_result_def Let_def split: stream_send.splits dest!: send_completion_one)

lemma process_packet_one:
  "process_packet pj now l pkt b = Some (b', outs) \<Longrightarrow> \<not> mb_closing b \<Longrightarrow> core b' = core b \<and> one_on l outs"
  by (auto simp: process_packet_def Let_def
      split: if_splits option.splits dtmf_relay_outcome.splits bind_splits prod.splits dest!: stream_result_one)

lemma on_datagram_one:
  "on_datagram pj now l r b = Some (b', outs) \<Longrightarrow> \<not> mb_closing b \<Longrightarrow> r \<noteq> Inl OperationAborted \<Longrightarrow>
   core b' = core b \<and> one_on l outs"
  by (auto simp: on_datagram_def receive_completion_def split: if_splits sum.splits bind_splits prod.splits
      dest: process_packet_one)

lemma closing_starts_nothing:
  "mb_closing b \<Longrightarrow> on_datagram pj now l r b = Some (b', outs) \<Longrightarrow> b' = b \<and> outs = []"
  "mb_closing b \<Longrightarrow> send_completion l err b = (b', outs) \<Longrightarrow> b' = b \<and> outs = []"
  by (auto simp: on_datagram_def receive_completion_def send_completion_def split: sum.splits bind_splits prod.splits)

subsection \<open>The invariant\<close>

definition leg_inv :: "'st bridge \<Rightarrow> relay_leg \<Rightarrow> pending list \<Rightarrow> bool" where
  "leg_inv b l ops \<longleftrightarrow>
     (rx_armed l b \<longrightarrow> mb_loop_started b \<and> dest (opposite l) b \<noteq> None)
   \<and> (\<not> mb_closing b \<and> mb_loop_started b \<and> dest (opposite l) b \<noteq> None \<longrightarrow> rx_armed l b)
   \<and> length ops \<le> of_bool (rx_armed l b) \<and> (\<not> mb_closing b \<longrightarrow> length ops = of_bool (rx_armed l b))"

definition relay_inv :: "'st bridge \<times> outstanding \<Rightarrow> bool" where
  "relay_inv s \<longleftrightarrow> (\<forall>l. leg_inv (fst s) l (snd s l)) \<and> (mb_loop_started (fst s) \<longrightarrow> mb_loop_start_requested (fst s))"

lemma leg_inv_core: "core b' = core b \<Longrightarrow> leg_inv b' l ops = leg_inv b l ops"
  by (cases l) (simp_all add: core_def leg_inv_def rx_armed_def dest_def)

lemma relay_inv_core: "core b' = core b \<Longrightarrow> relay_inv (b', pend) = relay_inv (b, pend)"
  by (simp add: relay_inv_def leg_inv_core [of b' b]) (simp add: core_def)

lemma leg_cases: "(\<forall>l. P l) \<longleftrightarrow> P LegA \<and> P LegB"
  by (metis relay_leg.exhaust)

lemma set_dest_simps [simp]:
  "dest l (set_dest l' ep b) = (if l' = l then Some ep else dest l b)" "rx_armed l (set_dest l' ep b) = rx_armed l b"
  "mb_closing (set_dest l' ep b) = mb_closing b" "mb_loop_started (set_dest l' ep b) = mb_loop_started b"
  "mb_loop_start_requested (set_dest l' ep b) = mb_loop_start_requested b"
  by (cases l; cases l'; simp add: dest_def set_dest_def rx_armed_def)+

lemma arm_leg_effect:
  assumes "arm_leg l b = (b', outs)"
  shows "rx_armed l' b' \<longleftrightarrow> rx_armed l' b \<or> l' = l \<and> dest (opposite l) b \<noteq> None"
    "length (started_on l' outs) = of_bool (l' = l \<and> \<not> rx_armed l b \<and> dest (opposite l) b \<noteq> None)"
    "dest l' b' = dest l' b" "mb_closing b' = mb_closing b" "mb_loop_started b' = mb_loop_started b"
    "mb_loop_start_requested b' = mb_loop_start_requested b"
  using assms by (cases l; cases l'; auto simp: arm_leg_def rx_armed_def dest_def split: if_splits)+

lemma arm_pending_legs_inv:
  assumes arm: "arm_pending_legs b = (b', outs)" and req: "mb_loop_started b \<longrightarrow> mb_loop_start_requested b"
    and pend: "\<And>l. (rx_armed l b \<longrightarrow> mb_loop_started b \<and> dest (opposite l) b \<noteq> None) \<and> length (pend l) \<le> of_bool (rx_armed l b)
                 \<and> (\<not> mb_closing b \<longrightarrow> length (pend l) = of_bool (rx_armed l b))"
  shows "relay_inv (b', start_ops outs pend)"
proof (cases "\<not> mb_loop_started b \<or> mb_closing b")
  case True
  then show ?thesis
    using arm req pend by (auto simp: arm_pending_legs_def relay_inv_def leg_inv_def start_ops_def)
next
  case False
  obtain b1 o1 where 1: "arm_leg LegA b = (b1, o1)"
    by fastforce
  obtain o2 where 2: "arm_leg LegB b1 = (b', o2)" "outs = o1 @ o2"
    using arm False 1 by (auto simp: arm_pending_legs_def split: prod.splits)
  have "leg_inv b' l (start_ops outs pend l)" for l
  proof -
    note eff = arm_leg_effect [OF 1] arm_leg_effect [OF 2(1)]
    have "rx_armed l b' \<longleftrightarrow> rx_armed l b \<or> dest (opposite l) b \<noteq> None"
      by (cases l) (simp_all add: eff)
    moreover have "length (started_on l outs) = of_bool (\<not> rx_armed l b \<and> dest (opposite l) b \<noteq> None)"
      by (cases l) (simp_all add: eff 2(2))
    moreover have "dest (opposite l) b' = dest (opposite l) b" "\<not> mb_closing b'" "mb_loop_started b'"
      using False by (simp_all add: eff)
    ultimately show ?thesis
      using False pend [of l] by (cases "rx_armed l b"; cases "dest (opposite l) b") (simp_all add: leg_inv_def start_ops_def)
  qed
  then show ?thesis
    using False req arm_leg_effect(5,6) [OF 1] arm_leg_effect(5,6) [OF 2(1)] by (simp add: relay_inv_def)
qed

lemma start_ops_Nil [simp]: "start_ops [] pend = pend"
  by (simp add: start_ops_def)

lemma relay_invD:
  assumes "relay_inv (b, pend)"
  shows "rx_armed l b \<longrightarrow> mb_loop_started b \<and> dest (opposite l) b \<noteq> None" "length (pend l) \<le> of_bool (rx_armed l b)"
    "\<not> mb_closing b \<longrightarrow> length (pend l) = of_bool (rx_armed l b)" "mb_loop_started b \<longrightarrow> mb_loop_start_requested b"
    "\<not> mb_closing b \<and> mb_loop_started b \<and> dest (opposite l) b \<noteq> None \<longrightarrow> rx_armed l b"
  using assms unfolding relay_inv_def leg_inv_def fst_conv snd_conv by blast+

lemma set_remote_inv: "relay_inv (b, pend) \<Longrightarrow> \<not> mb_loop_start_requested b \<Longrightarrow> relay_inv (set_dest l ep b, pend)"
proof -
  assume inv: "relay_inv (b, pend)" and "\<not> mb_loop_start_requested b"
  then have "\<not> mb_loop_started b" and "\<And>l. \<not> rx_armed l b"
    using relay_invD(1,4) [OF inv] by blast+
  moreover from this have "pend l = []" for l
    using relay_invD(2) [OF inv, of l] by simp
  ultimately show ?thesis
    by (simp add: relay_inv_def leg_inv_def)
qed

lemma bridge_task_inv:
  assumes task: "bridge_task e b = (b', outs)" and inv: "relay_inv (b, pend)"
    and rem: "\<And>l ep. e = SetRemote l ep \<Longrightarrow> \<not> mb_loop_start_requested b" and start: "e = StartTask \<Longrightarrow> mb_loop_start_requested b"
  shows "relay_inv (b', start_ops outs pend)"
proof -
  have keeps_core: "core b' = core b \<Longrightarrow> outs = [] \<Longrightarrow> relay_inv (b', start_ops outs pend)"
    using inv relay_inv_core by (metis start_ops_Nil)
  show ?thesis
proof (cases e)
  case (SetRemote l ep)
  then show ?thesis
    using task inv rem set_remote_inv [of b pend l ep] by (auto simp: bridge_task_def)
next
  case (RetargetTask l ep)
  have "(rx_armed l' (set_dest l ep b) \<longrightarrow> mb_loop_started (set_dest l ep b) \<and> dest (opposite l') (set_dest l ep b) \<noteq> None)
      \<and> length (pend l') \<le> of_bool (rx_armed l' (set_dest l ep b))
      \<and> (\<not> mb_closing (set_dest l ep b) \<longrightarrow> length (pend l') = of_bool (rx_armed l' (set_dest l ep b)))" for l'
    using relay_invD(1-3) [OF inv, of l'] by simp
  then show ?thesis
    using task RetargetTask relay_invD(4) [OF inv]
    by (intro arm_pending_legs_inv [of "set_dest l ep b"]) (simp_all add: bridge_task_def)
next
  case StartTask
  show ?thesis
  proof (cases "mb_loop_started b \<or> mb_closing b")
    case True
    then show ?thesis
      using task inv StartTask by (simp add: bridge_task_def)
  next
    case False
    have "(rx_armed l' (b\<lparr>mb_loop_started := True\<rparr>) \<longrightarrow> dest (opposite l') (b\<lparr>mb_loop_started := True\<rparr>) \<noteq> None)
        \<and> length (pend l') \<le> of_bool (rx_armed l' (b\<lparr>mb_loop_started := True\<rparr>))
        \<and> (\<not> mb_closing b \<longrightarrow> length (pend l') = of_bool (rx_armed l' (b\<lparr>mb_loop_started := True\<rparr>)))" for l'
      using relay_invD(1-3) [OF inv, of l'] by (cases l') (simp_all add: rx_armed_def dest_def)
    then show ?thesis
      using task StartTask False start
      by (intro arm_pending_legs_inv [of "b\<lparr>mb_loop_started := True\<rparr>"]) (simp_all add: bridge_task_def)
  qed
next
  case CloseTask
  have "leg_inv (b\<lparr>mb_closing := True\<rparr>) l (pend l)" for l
    using relay_invD(1-2) [OF inv, of l] by (cases l) (simp_all add: leg_inv_def rx_armed_def dest_def)
  then show ?thesis
    using task CloseTask relay_invD(4) [OF inv] by (auto simp: bridge_task_def relay_inv_def start_ops_def)
next
  case (StartRequested now)
  have "leg_inv (b\<lparr>mb_last_packet_time := now, mb_loop_start_requested := True\<rparr>) l (pend l) = leg_inv b l (pend l)" for l
    by (cases l) (simp_all add: leg_inv_def rx_armed_def dest_def)
  then show ?thesis
    using task inv StartRequested by (auto simp: bridge_task_def relay_inv_def)
qed (rule keeps_core; use task in \<open>auto simp: bridge_task_def split: if_splits\<close>)+
qed

lemma relay_inv_lengths: "(\<And>l. length (pend' l) = length (pend l)) \<Longrightarrow> relay_inv (b, pend') = relay_inv (b, pend)"
  unfolding relay_inv_def leg_inv_def fst_conv snd_conv by (simp only:)

lemma one_on_inv:
  assumes inv: "relay_inv (b, pend)" and p: "p \<in> set (pend l)" and open': "\<not> mb_closing b" and one: "one_on l outs"
  shows "relay_inv (b, start_ops outs (pend(l := remove1 p (pend l))))"
proof -
  have "length (pend l) = 1"
    using relay_invD(3) [OF inv, of l] p open' by (cases "rx_armed l b") auto
  then have "length (remove1 p (pend l)) = 0"
    using p by (simp add: length_remove1)
  moreover have "length (started_on l' outs) = (if l' = l then 1 else 0)" for l'
    using one by (simp add: one_on_def)
  ultimately have "length (start_ops outs (pend(l := remove1 p (pend l))) l') = length (pend l')" for l'
    using \<open>length (pend l) = 1\<close> by (simp add: start_ops_def)
  then show ?thesis
    using inv relay_inv_lengths by blast
qed

lemma closing_inv:
  assumes inv: "relay_inv (b, pend)" and p: "p \<in> set (pend l)" and "mb_closing b"
  shows "relay_inv (b, pend(l := remove1 p (pend l)))"
proof -
  have "length ((pend(l := remove1 p (pend l))) l') \<le> length (pend l')" for l'
    by (simp add: length_remove1)
  then have "leg_inv b l' ((pend(l := remove1 p (pend l))) l')" for l'
    unfolding leg_inv_def using relay_invD(1,2) [OF inv, of l'] \<open>mb_closing b\<close> le_trans by blast
  then show ?thesis
    using relay_invD(4) [OF inv] by (simp only: relay_inv_def fst_conv snd_conv) blast
qed

lemma relay_step_inv: "relay_step pj s s' \<Longrightarrow> relay_inv s \<Longrightarrow> relay_inv s'"
proof (induction rule: relay_step.induct)
  case (task e b b' outs pend)
  then show ?case
    using bridge_task_inv by blast
next
  case (received pend l now r b b' outs)
  show ?case
  proof (cases "mb_closing b")
    case True
    then show ?thesis
      using closing_starts_nothing(1) [OF True received(2)] closing_inv [OF received(4,1) True] by simp
  next
    case False
    then have "core b' = core b" "one_on l outs"
      using on_datagram_one received by blast+
    then show ?thesis
      using one_on_inv [OF received(4,1) False] relay_inv_core by blast
  qed
next
  case (sent pend l err b b' outs)
  show ?case
  proof (cases "mb_closing b")
    case True
    then show ?thesis
      using closing_starts_nothing(2) [OF True sent(2)] closing_inv [OF sent(4,1) True] by simp
  next
    case False
    then have "core b' = core b" "one_on l outs"
      using send_completion_one sent by blast+
    then show ?thesis
      using one_on_inv [OF sent(4,1) False] relay_inv_core by blast
  qed
next
  case (aborted p pend l b)
  then show ?case
    using closing_inv by blast
qed

lemma reachable_inv: "reachable pj s \<Longrightarrow> relay_inv s"
proof (induction rule: reachable.induct)
  case (start now st)
  show ?case
    by (simp add: relay_inv_def leg_inv_def new_bridge_def rx_armed_def dest_def split: relay_leg.split)
qed (rule relay_step_inv)

lemma closing_task:
  "mb_closing b \<Longrightarrow> bridge_task e b = (b', outs) \<Longrightarrow> mb_closing b' \<and> started_on l outs = []"
  by (auto simp: bridge_task_def arm_pending_legs_def set_dest_def split: bridge_event.splits relay_leg.splits if_splits)

subsection \<open>Passthrough\<close>

lemma packet_same_length:
  "packet p = Some (pk_buffer p) \<Longrightarrow> length buf = length (pk_buffer p) \<Longrightarrow> packet (p\<lparr>pk_buffer := buf\<rparr>) = Some buf"
  by (auto simp: packet_def span_of_def split: if_splits)

lemma own_payload_type_bits: "set_payload_type_bits (payload_type_field b) b = b"
  unfolding set_payload_type_bits_def payload_type_field_def by (rule bit_word_eqI) (auto simp: bit_simps)

lemma relay_dtmf_pt_cases:
  assumes "1 < length (pk_buffer p)" and "fh_payload_type (pk_fields p) = payload_type_field (pk_buffer p ! 1)"
  shows "relay_dtmf_pt p src dst = Some (
     if src = Some (payload_type_field (pk_buffer p ! 1))
     then (case dst of None \<Rightarrow> (DropUnmapped, pk_buffer p)
           | Some q \<Rightarrow> (Relay q, (pk_buffer p)[1 := set_payload_type_bits q (pk_buffer p ! 1)]))
     else (NotDtmf, pk_buffer p))"
  using assms by (auto simp: relay_dtmf_pt_def set_payload_type_def set_byte_def rd_def own_payload_type_bits split: option.split)

subsection \<open>Properties\<close>

text \<open>C16: In every interleaving of the bridge's tasks and completions, a leg never has more than one asynchronous operation
  outstanding, so a receive never overwrites the shared receive buffer of a packet still being relayed and a synthesized
  stream's send buffer is never reused while a send from it is in flight. And the relay never stalls: once the loop has started
  and the far side's address is known, a bridge that is not closing always has exactly one operation outstanding on
  that leg.\<close>

theorem relay_one_operation_per_leg:
  assumes "reachable pj (b, pend)"
  shows "length (pend l) \<le> 1 \<and>
    (mb_loop_started b \<and> \<not> mb_closing b \<and> dest (opposite l) b \<noteq> None \<longrightarrow> length (pend l) = 1)"
  using relay_invD(2,3,5) [OF reachable_inv [OF assms], of l] by (cases "rx_armed l b") auto

theorem relay_one_operation_per_leg_witness:
  "\<exists>b pend. reachable silence_pjmedia (b, pend) \<and> length (pend LegA) = 1"
proof -
  define b0 where "b0 = new_bridge 0 ()"
  define b1 where "b1 = fst (bridge_task (SetRemote LegB (''10.0.0.2'', 4000)) b0)"
  define b2 where "b2 = fst (bridge_task (StartRequested 5) b1)"
  define b3 where "b3 = fst (bridge_task StartTask b2)"
  note defs = b0_def b1_def b2_def b3_def new_bridge_def bridge_task_def set_dest_def arm_pending_legs_def arm_leg_def
    rx_armed_def dest_def
  have "reachable silence_pjmedia (b0, \<lambda>l. [])"
    unfolding b0_def by (rule reachable.start)
  then have "reachable silence_pjmedia (b1, start_ops [] (\<lambda>l. []))"
    by (rule reachable.step) (rule relay_step.task [of "SetRemote LegB (''10.0.0.2'', 4000)"], simp_all add: defs)
  then have "reachable silence_pjmedia (b2, start_ops [] (start_ops [] (\<lambda>l. [])))"
    by (rule reachable.step) (rule relay_step.task [of "StartRequested 5"], simp_all add: defs)
  then have "reachable silence_pjmedia (b3, start_ops [Listen LegA] (start_ops [] (start_ops [] (\<lambda>l. []))))"
    by (rule reachable.step) (rule relay_step.task [of StartTask], simp_all add: defs)
  then show ?thesis
    using relay_one_operation_per_leg [of silence_pjmedia b3 _ LegA] by (fastforce simp: defs)
qed

text \<open>Once the bridge is closing it starts nothing more: whatever task or completion runs next, it stays closing and no leg
  gains an outstanding operation.\<close>

theorem closing_bridge_is_quiet:
  assumes "relay_step pj (b, pend) (b', pend')" and "mb_closing b"
  shows "mb_closing b' \<and> length (pend' l) \<le> length (pend l)"
  using assms
proof (cases rule: relay_step.cases)
  case (task e outs)
  then show ?thesis
    using closing_task [OF assms(2) task(2), of l] by (simp add: start_ops_def)
next
  case (received l' now r outs)
  then show ?thesis
    using closing_starts_nothing(1) [OF assms(2) received(3)] assms(2) by (simp add: length_remove1)
next
  case (sent l' err outs)
  then show ?thesis
    using closing_starts_nothing(2) [OF assms(2) sent(3)] assms(2) by (simp add: length_remove1)
next
  case (aborted p l')
  then show ?thesis
    by (simp add: length_remove1)
qed

theorem closing_bridge_is_quiet_witness:
  "mb_closing (fst (bridge_task StartTask ((new_bridge 0 ())\<lparr>mb_closing := True, mb_loop_start_requested := True\<rparr>)))"
  using closing_bridge_is_quiet [OF relay_step.task [of StartTask "(new_bridge 0 ())\<lparr>mb_closing := True, mb_loop_start_requested := True\<rparr>"
        _ _ silence_pjmedia "\<lambda>l. []"]]
  by (simp add: bridge_task_def)

text \<open>C17: Passthrough of a well-formed datagram between two legs with the same codec. Nothing leaves while either side holds the
  media, and the clock of the inactivity watch stands still. Otherwise the datagram goes to the destination the opposite
  leg currently has, octet for octet except its version bits and, for a telephone event, its payload type, which
  becomes the destination leg's; an event the destination has no payload type for is dropped.\<close>

theorem passthrough_relays_datagram:
  assumes "\<not> mb_closing b" and "mb_transcode_session b = None" and "dest (opposite l) b = Some ep"
    and "12 \<le> length d" and "length d < 65536" and "\<not> padding_flag (d ! 0)" and "\<not> extension_flag (d ! 0)"
    and "12 + unat (csrc_count_field (d ! 0)) * 4 \<le> length d" and "d' = d[0 := set_version_bits (d ! 0)]"
  shows "on_datagram pj now l (Inr d) b = Some (
     if \<not> relay_allowed l b then (b, [Listen l])
     else (b\<lparr>mb_last_packet_time := now\<rparr>,
       if dtmf_pt l b = Some (payload_type_field (d ! 1))
       then (case dtmf_pt (opposite l) b of
               None \<Rightarrow> [Listen l]
             | Some q \<Rightarrow> [SendTo l ep (d'[1 := set_payload_type_bits q (d ! 1)])])
       else [SendTo l ep d']))"
proof -
  obtain p where p: "receive_pkt d = Some (RtpSuccess, p)" "pk_buffer p = d'" "packet p = Some (pk_buffer p)"
    "fh_payload_type (pk_fields p) = payload_type_field (d ! 1)"
    using receive_plain(1) [OF assms(4-7) refl assms(8)] assms(9) by blast
  have d': "d' ! 1 = d ! 1" "d' ! Suc 0 = d ! Suc 0" "1 < length d'"
    using assms by simp_all
  have dt: "relay_dtmf_pt p src dst = Some (
     if src = Some (payload_type_field (d ! 1))
     then (case dst of None \<Rightarrow> (DropUnmapped, d') | Some q \<Rightarrow> (Relay q, d'[1 := set_payload_type_bits q (d ! 1)]))
     else (NotDtmf, d'))" for src dst
    using relay_dtmf_pt_cases [of p src dst] p d' by (simp split: option.split)
  have pk: "packet (p\<lparr>pk_buffer := buf\<rparr>) = Some buf" if "length buf = length d'" for buf
    using packet_same_length p that by simp
  show ?thesis
    using assms(1-3)
    by (auto simp: on_datagram_def p(1) receive_completion_def process_packet_def dt pk Let_def dtmf_pt_def dest_def
        split: option.split relay_leg.split)
qed

theorem passthrough_relays_datagram_witness:
  "map_option snd (on_datagram silence_pjmedia 9 LegA (Inr [0x80, 0x65, 0, 1, 0, 0, 0, 2, 0, 0, 0, 3, 7, 8])
     ((new_bridge 0 ())\<lparr>mb_dest_b := Some (''10.0.0.2'', 4000), mb_leg_a_dtmf_pt := Some 101, mb_leg_b_dtmf_pt := Some 96\<rparr>))
   = Some [SendTo LegA (''10.0.0.2'', 4000) [0x80, 0x60, 0, 1, 0, 0, 0, 2, 0, 0, 0, 3, 7, 8]]"
proof -
  have "\<not> padding_flag 0x80" "\<not> extension_flag 0x80" "unat (csrc_count_field 0x80) = 0" "set_version_bits 0x80 = 0x80"
    "payload_type_field 0x65 = 101" "set_payload_type_bits 96 0x65 = 0x60"
    by code_simp+
  then show ?thesis
    using passthrough_relays_datagram [of "(new_bridge 0 ())\<lparr>mb_dest_b := Some (''10.0.0.2'', 4000),
        mb_leg_a_dtmf_pt := Some 101, mb_leg_b_dtmf_pt := Some 96\<rparr>" LegA "(''10.0.0.2'', 4000)"
        "[0x80, 0x65, 0, 1, 0, 0, 0, 2, 0, 0, 0, 3, 7, 8]" _ silence_pjmedia 9, OF _ _ _ _ _ _ _ _ refl]
    by (simp add: new_bridge_def dest_def dtmf_pt_def relay_allowed_def)
qed

end
