(* ===== verification/Call_Session.thy ===== *)
theory Call_Session
  imports Inv_Session Routing Exchange Dialog_Sm Media_Bridge
begin

text \<open>
  One call, \<^verbatim>\<open>engine/src/sip/call/call_session.hpp\<close> and \<^verbatim>\<open>.cpp\<close>: the two legs, the state
  machines, the exchange slot, the history events and the hold clock. The members of the per-call action objects
  (setup actions, offer/answer actions, re-INVITE and REFER handlers) are fields of the same record, so
  that the actions of a machine are functions on it.

  Two kinds of effects leave the call: tasks posted to the media bridge (\<open>cs_bridge_posts\<close>, in order)
  and events sent to the control plane (\<open>cs_call_events\<close>); what the call asks of the call manager is
  \<open>cs_manager_ops\<close>. The SIP stack's state is \<open>cs_pj\<close>. The libraries, the configuration and the readings of the
  clocks during one callback are the environment.
\<close>

subsection \<open>The environment of a callback\<close>

type_synonym stream_ids = "(32 word \<times> 16 word \<times> 32 word) \<times> (32 word \<times> 16 word \<times> 32 word)"

record ('p, 'st) engine_env =
  en_pjsip :: "'p pjsip"
  en_sdp :: pjmedia
  en_pjmedia :: "'st pjmedia_lib"
  en_has_pjmedia_endpoint :: bool
  en_config :: sbc_config
  en_stores :: route_stores
  en_has_event_sink :: bool
  en_module_id :: int
  en_now :: int
  en_wall_clock :: string
  en_stream_ids :: stream_ids
  en_bind :: "relay_leg \<Rightarrow> 16 word option"

subsection \<open>State\<close>

record call_leg =
  lg_inv :: "inv option"
  lg_dialog :: "dlg option"
  lg_disconnected :: bool
  lg_codec :: "audio_codec_info option"
  lg_dtmf_pt :: "8 word option"
  lg_media_direction :: media_direction

record replacement_target =
  rp_replaced_session_id :: string
  rp_call_id :: string
  rp_to_tag :: string
  rp_from_tag :: string
  rp_target_uri :: string
  rp_early_only :: bool
  rp_matched_dialog_is_uac :: bool

datatype call_event =
    CallStarted string string string string
  | CallUpdated string string "string option" string
  | CallTerminated string string "string option" string "int option"

datatype manager_op =
    ScheduleRemove string
  | QueueReplaced string bool

record oa_data =
  oa_destination :: string
  oa_required_codec :: "supported_codec option"
  oa_offer :: string
  oa_answer :: string
  oa_held_caller_answer :: "sdp_session option"
  oa_offer_sent :: bool
  oa_answer_sent :: bool
  oa_early_media_relayed :: bool

record refer_request =
  rfq_dialog :: dlg
  rfq_refer_to :: "string list"
  rfq_referred_by :: "string list"
  rfq_max_fwd :: "32 word option"

record refer_state =
  rf_pending :: "refer_request option"
  rf_inbound_sub :: "nat option"
  rf_outbound_sub :: "nat option"
  rf_result_delivered :: bool

record 'p call =
  cs_call_id :: string
  cs_caller_offer_sdp :: string
  cs_request_uri :: string
  cs_caller_uri :: string
  cs_caller_display_name :: string
  cs_outbound_destination :: string
  cs_current_rdata :: "rx_data option"
  cs_replacement_target :: "replacement_target option"
  cs_caller :: call_leg
  cs_callee :: call_leg
  cs_setup :: "setup_state runner"
  cs_dialog :: "dialog_state runner"
  cs_exchange :: "exchange option"
  cs_oa :: oa_data
  cs_negotiated_offer :: string
  cs_negotiated_answer :: string
  cs_answered_at :: "int option"
  cs_terminated_reported :: bool
  cs_hold_started_at :: "int option"
  cs_failure_status :: string
  cs_failure_reason :: string
  cs_last_relayed_status_code :: int
  cs_offerless :: "leg \<Rightarrow> inv option"
  cs_pending_reinvite :: "rx_data option"
  cs_refer :: refer_state
  cs_leg_port :: "relay_leg \<Rightarrow> 16 word option"
  cs_last_packet_time :: int
  cs_bridge_posts :: "bridge_event list"
  cs_call_events :: "call_event list"
  cs_manager_ops :: "manager_op list"
  cs_pj :: 'p

definition kSuccess :: string where "kSuccess = ''Success''"
definition kFailed_status :: string where "kFailed_status = ''Failed''"
definition kNoRouteAvailable :: string where "kNoRouteAvailable = ''No Route Available''"

definition new_leg :: call_leg where
  "new_leg = \<lparr>lg_inv = None, lg_dialog = None, lg_disconnected = False, lg_codec = None, lg_dtmf_pt = None,
     lg_media_direction = SendRecv\<rparr>"

definition new_oa :: "string \<Rightarrow> supported_codec option \<Rightarrow> oa_data" where
  "new_oa destination codec = \<lparr>oa_destination = destination, oa_required_codec = codec, oa_offer = [], oa_answer = [],
     oa_held_caller_answer = None, oa_offer_sent = False, oa_answer_sent = False, oa_early_media_relayed = False\<rparr>"

definition new_call :: "string \<Rightarrow> rx_data \<Rightarrow> int \<Rightarrow> 'p \<Rightarrow> 'p call" where
  "new_call call_id rdata now p = \<lparr>cs_call_id = call_id, cs_caller_offer_sdp = rx_sdp rdata,
     cs_request_uri = rx_request_uri rdata, cs_caller_uri = rx_from_uri rdata,
     cs_caller_display_name = rx_from_display rdata, cs_outbound_destination = [], cs_current_rdata = Some rdata,
     cs_replacement_target = None, cs_caller = new_leg, cs_callee = new_leg, cs_setup = new_runner SuIdle,
     cs_dialog = new_runner Active, cs_exchange = None, cs_oa = new_oa [] None, cs_negotiated_offer = [],
     cs_negotiated_answer = [], cs_answered_at = None, cs_terminated_reported = False, cs_hold_started_at = None,
     cs_failure_status = kFailed_status, cs_failure_reason = [], cs_last_relayed_status_code = 0,
     cs_offerless = (\<lambda>_. None), cs_pending_reinvite = None, cs_refer = \<lparr>rf_pending = None, rf_inbound_sub = None, rf_outbound_sub = None,
       rf_result_delivered = False\<rparr>, cs_leg_port = (\<lambda>_. None), cs_last_packet_time = now,
     cs_bridge_posts = [SetErrorHandler], cs_call_events = [], cs_manager_ops = [], cs_pj = p\<rparr>"

subsection \<open>Legs\<close>

definition get_leg :: "leg \<Rightarrow> 'p call \<Rightarrow> call_leg" where
  "get_leg which c = (case which of Caller \<Rightarrow> cs_caller c | Callee \<Rightarrow> cs_callee c)"

definition update_leg :: "leg \<Rightarrow> (call_leg \<Rightarrow> call_leg) \<Rightarrow> 'p call \<Rightarrow> 'p call" where
  "update_leg which f c = (case which of
     Caller \<Rightarrow> c\<lparr>cs_caller := f (cs_caller c)\<rparr> | Callee \<Rightarrow> c\<lparr>cs_callee := f (cs_callee c)\<rparr>)"

definition set_inv :: "('p, 'st) engine_env \<Rightarrow> leg \<Rightarrow> inv option \<Rightarrow> 'p call \<Rightarrow> 'p call" where
  "set_inv E which h c = update_leg which
     (\<lambda>l. l\<lparr>lg_inv := h, lg_dialog := (case h of None \<Rightarrow> None | Some i \<Rightarrow> pj_dlg (en_pjsip E) i (cs_pj c)),
            lg_disconnected := False\<rparr>) c"

definition leg_for :: "inv \<Rightarrow> 'p call \<Rightarrow> leg" where
  "leg_for i c = (if lg_inv (cs_callee c) = Some i then Callee else Caller)"

definition relay_leg_of :: "leg \<Rightarrow> relay_leg" where
  "relay_leg_of which = (case which of Caller \<Rightarrow> LegA | Callee \<Rightarrow> LegB)"

definition is_established :: "'p call \<Rightarrow> bool" where
  "is_established c \<longleftrightarrow> is_in (cs_setup c) Established"

definition can_terminate :: "'p call \<Rightarrow> bool" where
  "can_terminate c \<longleftrightarrow> is_in (cs_dialog c) Active \<or> is_in (cs_dialog c) Reinviting \<or> is_in (cs_dialog c) Referring"

subsection \<open>The exchange slot\<close>

definition create_exchange :: "string \<Rightarrow> supported_codec option \<Rightarrow> 'p call \<Rightarrow> bool \<times> 'p call" where
  "create_exchange destination codec c =
     (if cs_exchange c \<noteq> None then (False, c)
      else (True, c\<lparr>cs_exchange := Some new_exchange, cs_oa := new_oa destination codec\<rparr>))"

definition release_exchange :: "'p call \<Rightarrow> 'p call" where
  "release_exchange c = c\<lparr>cs_exchange := None\<rparr>"

definition commit_offer_answer :: "string \<Rightarrow> string \<Rightarrow> 'p call \<Rightarrow> 'p call" where
  "commit_offer_answer offer answer c = c\<lparr>cs_negotiated_offer := offer, cs_negotiated_answer := answer\<rparr>"

subsection \<open>Tasks for the media bridge\<close>

definition post_bridge :: "bridge_event list \<Rightarrow> 'p call \<Rightarrow> 'p call" where
  "post_bridge es c = c\<lparr>cs_bridge_posts := cs_bridge_posts c @ es\<rparr>"

definition start_bridge_loop :: "('p, 'st) engine_env \<Rightarrow> 'p call \<Rightarrow> 'p call" where
  "start_bridge_loop E c =
     post_bridge [StartRequested (en_now E), StartTask] (c\<lparr>cs_last_packet_time := en_now E\<rparr>)"

definition reset_inactivity_baseline :: "('p, 'st) engine_env \<Rightarrow> 'p call \<Rightarrow> 'p call" where
  "reset_inactivity_baseline E c = post_bridge [ResetBaseline (en_now E)] (c\<lparr>cs_last_packet_time := en_now E\<rparr>)"

subsection \<open>Call history events\<close>

definition send_event :: "('p, 'st) engine_env \<Rightarrow> call_event \<Rightarrow> 'p call \<Rightarrow> 'p call" where
  "send_event E ev c = (if en_has_event_sink E then c\<lparr>cs_call_events := cs_call_events c @ [ev]\<rparr> else c)"

definition report_call_started :: "('p, 'st) engine_env \<Rightarrow> 'p call \<Rightarrow> 'p call" where
  "report_call_started E c = send_event E (CallStarted (cs_call_id c) (cs_caller_uri c) (cs_request_uri c) (en_wall_clock E)) c"

definition send_call_updated :: "('p, 'st) engine_env \<Rightarrow> 'p call \<Rightarrow> 'p call" where
  "send_call_updated E c =
     send_event E (CallUpdated (cs_call_id c) (cs_outbound_destination c)
       (map_option ac_name (lg_codec (cs_caller c))) (en_wall_clock E)) c"

definition report_call_answered :: "('p, 'st) engine_env \<Rightarrow> 'p call \<Rightarrow> 'p call" where
  "report_call_answered E c = send_call_updated E (c\<lparr>cs_answered_at := Some (en_now E)\<rparr>)"

definition report_call_updated :: "('p, 'st) engine_env \<Rightarrow> 'p call \<Rightarrow> 'p call" where
  "report_call_updated E c = (if cs_answered_at c \<noteq> None then send_call_updated E c else c)"

text \<open>Durations of the steady clock are nanoseconds; \<^verbatim>\<open>duration_cast\<close> to seconds truncates towards zero.\<close>

definition to_seconds :: "int \<Rightarrow> int" where
  "to_seconds ns = (if 0 \<le> ns then ns div 1000000000 else - ((- ns) div 1000000000))"

definition report_call_terminated :: "('p, 'st) engine_env \<Rightarrow> string \<Rightarrow> string option \<Rightarrow> 'p call \<Rightarrow> 'p call" where
  "report_call_terminated E status failure_reason c =
     (if cs_terminated_reported c then c
      else
        let c = c\<lparr>cs_terminated_reported := True, cs_hold_started_at := None\<rparr> in
        send_event E (CallTerminated (cs_call_id c) status failure_reason (en_wall_clock E)
          (if status = kSuccess then map_option (\<lambda>t. to_seconds (en_now E - t)) (cs_answered_at c) else None)) c)"

definition established_duration :: "('p, 'st) engine_env \<Rightarrow> 'p call \<Rightarrow> int option" where
  "established_duration E c = map_option (\<lambda>t. to_seconds (en_now E - t)) (cs_answered_at c)"

subsection \<open>Hold and inactivity\<close>

definition media_is_held :: "'p call \<Rightarrow> bool" where
  "media_is_held c =
     (let caller_direction = lg_media_direction (cs_caller c);
          callee_direction = lg_media_direction (cs_callee c);
          caller_requests_hold = (caller_direction = SendOnly \<or> caller_direction = Inactive);
          callee_requests_hold = (callee_direction = SendOnly \<or> callee_direction = Inactive);
          neither_leg_sends = (caller_direction = RecvOnly \<and> callee_direction = RecvOnly) in
      caller_requests_hold \<or> callee_requests_hold \<or> neither_leg_sends)"

definition record_media_direction :: "('p, 'st) engine_env \<Rightarrow> leg \<Rightarrow> media_direction \<Rightarrow> 'p call \<Rightarrow> 'p call" where
  "record_media_direction E which direction c =
     (let was_held = media_is_held c;
          c = update_leg which (\<lambda>l. l\<lparr>lg_media_direction := direction\<rparr>) c;
          is_held = media_is_held c in
      if cs_hold_started_at c = None \<and> is_held \<and> is_established c then c\<lparr>cs_hold_started_at := Some (en_now E)\<rparr>
      else if was_held \<and> \<not> is_held then reset_inactivity_baseline E (c\<lparr>cs_hold_started_at := None\<rparr>)
      else c)"

definition apply_media_direction :: "('p, 'st) engine_env \<Rightarrow> leg \<Rightarrow> media_direction \<Rightarrow> 'p call \<Rightarrow> 'p call" where
  "apply_media_direction E which direction c =
     record_media_direction E which direction
       (post_bridge [FlowTask (relay_leg_of which) \<lparr>lf_can_send = can_send direction, lf_can_receive = can_receive direction\<rparr>] c)"

definition rtp_inactivity_expired :: "int \<Rightarrow> int \<Rightarrow> 'p call \<Rightarrow> bool" where
  "rtp_inactivity_expired now timeout c \<longleftrightarrow> \<not> media_is_held c \<and> now - cs_last_packet_time c \<ge> timeout"

definition hold_timeout_expired :: "('p, 'st) engine_env \<Rightarrow> 'p call \<Rightarrow> bool" where
  "hold_timeout_expired E c =
     (if cf_max_hold_duration_s (en_config E) \<le> 0 then False
      else case cs_hold_started_at c of
        None \<Rightarrow> False
      | Some t \<Rightarrow> en_now E - t \<ge> cf_max_hold_duration_s (en_config E) * 1000000000)"

subsection \<open>The hold clock\<close>

lemma media_is_held_cong:
  "lg_media_direction (cs_caller c) = lg_media_direction (cs_caller c') \<Longrightarrow>
   lg_media_direction (cs_callee c) = lg_media_direction (cs_callee c') \<Longrightarrow> media_is_held c = media_is_held c'"
  by (simp add: media_is_held_def)

lemma record_media_direction_hold:
  assumes "is_established c"
  shows "is_established (record_media_direction E which d c)"
    "media_is_held (record_media_direction E which d c) =
       media_is_held (update_leg which (\<lambda>l. l\<lparr>lg_media_direction := d\<rparr>) c)"
    "cs_hold_started_at c \<noteq> None \<longrightarrow> media_is_held c \<Longrightarrow>
     cs_hold_started_at (record_media_direction E which d c) =
       (if media_is_held (record_media_direction E which d c)
        then Some (case cs_hold_started_at c of None \<Rightarrow> en_now E | Some t \<Rightarrow> t) else None)"
  using assms
  by (cases which; auto simp: record_media_direction_def is_established_def update_leg_def media_is_held_def Let_def
      reset_inactivity_baseline_def post_bridge_def split: option.splits)+

text \<open>The directions the legs announce over the life of an established call, each with the reading of the clock, and
  the moment the hold in force now began: the last change from media flowing to media held.\<close>

type_synonym direction_change = "leg \<times> media_direction \<times> int"

definition apply_change :: "('p, 'st) engine_env \<Rightarrow> 'p call \<Rightarrow> direction_change \<Rightarrow> 'p call" where
  "apply_change E c ch = (case ch of (which, d, now) \<Rightarrow> apply_media_direction (E\<lparr>en_now := now\<rparr>) which d c)"

definition held :: "(leg \<Rightarrow> media_direction) \<Rightarrow> bool" where
  "held ds \<longleftrightarrow> (\<exists>which. \<not> can_receive (ds which)) \<or> (\<forall>which. \<not> can_send (ds which))"

fun hold_since :: "(leg \<Rightarrow> media_direction) \<Rightarrow> int option \<Rightarrow> direction_change list \<Rightarrow> int option" where
  "hold_since ds since [] = since"
| "hold_since ds since ((which, d, now) # chs) =
     (let ds' = ds(which := d) in
      hold_since ds' (if \<not> held ds' then None else if held ds then since else Some now) chs)"

abbreviation directions :: "'p call \<Rightarrow> leg \<Rightarrow> media_direction" where
  "directions c \<equiv> (\<lambda>which. lg_media_direction (get_leg which c))"

lemma all_legs: "(\<forall>which. Q which) \<longleftrightarrow> Q Caller \<and> Q Callee" "(\<exists>which. Q which) \<longleftrightarrow> Q Caller \<or> Q Callee"
  by (metis leg.exhaust)+

lemma media_is_held_iff: "media_is_held c \<longleftrightarrow> held (directions c)"
  by (cases "lg_media_direction (cs_caller c)"; cases "lg_media_direction (cs_callee c)")
    (simp_all add: media_is_held_def held_def all_legs get_leg_def can_receive_def can_send_def)

lemma directions_after:
  "directions (apply_change E c (which, d, now)) = (directions c)(which := d)"
  by (cases which)
    (auto simp: apply_change_def apply_media_direction_def record_media_direction_def reset_inactivity_baseline_def
      post_bridge_def update_leg_def get_leg_def fun_eq_iff Let_def split: leg.splits)

lemma apply_change_hold:
  assumes "is_established c" and "cs_hold_started_at c \<noteq> None \<longleftrightarrow> media_is_held c"
  shows "is_established (apply_change E c (which, d, now))"
    "cs_hold_started_at (apply_change E c (which, d, now)) =
       (if \<not> media_is_held (apply_change E c (which, d, now)) then None
        else if media_is_held c then cs_hold_started_at c else Some now)"
proof -
  let ?c = "post_bridge [FlowTask (relay_leg_of which) \<lparr>lf_can_send = can_send d, lf_can_receive = can_receive d\<rparr>] c"
  have "is_established ?c" "media_is_held ?c = media_is_held c" "cs_hold_started_at ?c = cs_hold_started_at c"
    using assms by (simp_all add: post_bridge_def is_established_def media_is_held_def)
  then show "is_established (apply_change E c (which, d, now))"
      "cs_hold_started_at (apply_change E c (which, d, now)) =
        (if \<not> media_is_held (apply_change E c (which, d, now)) then None
         else if media_is_held c then cs_hold_started_at c else Some now)"
    using assms(2) record_media_direction_hold [of ?c "E\<lparr>en_now := now\<rparr>" which d]
    by (auto simp: apply_change_def apply_media_direction_def split: option.splits)
qed

lemma hold_clock_run:
  assumes "is_established c" and "cs_hold_started_at c \<noteq> None \<longleftrightarrow> media_is_held c"
  shows "cs_hold_started_at (foldl (apply_change E) c chs) = hold_since (directions c) (cs_hold_started_at c) chs \<and>
    (cs_hold_started_at (foldl (apply_change E) c chs) \<noteq> None \<longleftrightarrow> media_is_held (foldl (apply_change E) c chs))"
  using assms
proof (induction chs arbitrary: c)
  case (Cons ch chs)
  obtain which d now where ch: "ch = (which, d, now)" by (cases ch)
  note step = apply_change_hold [OF Cons.prems, of E which d now]
  have "cs_hold_started_at (apply_change E c ch) \<noteq> None \<longleftrightarrow> media_is_held (apply_change E c ch)"
    using Cons.prems(2) step(2) ch by auto
  note IH = Cons.IH [OF _ this]
  have "hold_since (directions c) (cs_hold_started_at c) (ch # chs) =
      hold_since (directions (apply_change E c ch)) (cs_hold_started_at (apply_change E c ch)) chs"
    unfolding ch step(2) media_is_held_iff directions_after by (simp add: Let_def)
  with IH step(1) [folded ch] show ?case unfolding foldl.simps by argo
qed simp


text \<open>A call that is put on hold before it is established, by an UPDATE on the early dialog, gets no hold clock,
  and establishing it does not start one: as long as the legs keep their directions such a call is watched by
  neither of the two watchdogs, however long it stays silent and whatever the configured limits are.\<close>

theorem early_hold_unwatched:
  assumes "\<not> is_established c" and "cs_hold_started_at c = None"
    and "media_is_held (apply_media_direction E which d c)"
    and "established = (apply_media_direction E which d c)\<lparr>cs_setup := r\<rparr>"
  shows "\<not> rtp_inactivity_expired now timeout established \<and> \<not> hold_timeout_expired E' established"
proof -
  let ?c = "post_bridge [FlowTask (relay_leg_of which) \<lparr>lf_can_send = can_send d, lf_can_receive = can_receive d\<rparr>] c"
  have "\<not> is_established (update_leg which f ?c)" "cs_hold_started_at (update_leg which f ?c) = None" for f
    using assms(1,2) by (simp_all add: is_established_def post_bridge_def update_leg_def split: leg.split)
  then have "cs_hold_started_at (apply_media_direction E which d c) = None"
    by (auto simp: apply_media_direction_def record_media_direction_def reset_inactivity_baseline_def post_bridge_def Let_def)
  then show ?thesis
    using assms(3,4) by (simp add: rtp_inactivity_expired_def hold_timeout_expired_def media_is_held_def)
qed

subsection \<open>Sample environment\<close>

definition sample_env :: "(unit, unit) engine_env" where
  "sample_env = \<lparr>en_pjsip = sample_pjsip, en_sdp = sample_pjmedia\<lparr>pm_parse := (\<lambda>_. Some sample_sdp)\<rparr>,
     en_pjmedia = silence_pjmedia, en_has_pjmedia_endpoint = True, en_config = sample_config\<lparr>cf_max_hold_duration_s := 60\<rparr>,
     en_stores = \<lparr>ro_users = None, ro_bindings = None, ro_routes = None\<rparr>, en_has_event_sink = True, en_module_id = 1,
     en_now = 0, en_wall_clock = [], en_stream_ids = ((1, 2, 3), (4, 5, 6)), en_bind = (\<lambda>_. Some 20000)\<rparr>"

definition sample_rdata :: rx_data where
  "sample_rdata = \<lparr>rx_method = ''INVITE'', rx_call_id = ''c1'', rx_status_code = 0, rx_sdp = ''v=0'', rx_request_uri = ''sip:b@h'',
     rx_from_uri = ''sip:a@h'', rx_from_display = [], rx_max_fwd = Some 70\<rparr>"

definition sample_call :: "unit call" where
  "sample_call = (new_call ''c1'' sample_rdata 0 ())\<lparr>
     cs_setup := \<lparr>rn_state = Established, rn_initial = SuIdle, rn_processing = False\<rparr>,
     cs_caller := new_leg\<lparr>lg_inv := Some 1, lg_codec := Some (static_info (hd kSupportedCodecs))\<rparr>,
     cs_callee := new_leg\<lparr>lg_inv := Some 2, lg_codec := Some (static_info (hd kSupportedCodecs))\<rparr>,
     cs_leg_port := (\<lambda>_. Some 20000)\<rparr>"


theorem early_hold_unwatched_witness:
  "let early = sample_call\<lparr>cs_setup := new_runner Ringing\<rparr>;
       established = (apply_media_direction sample_env Caller SendOnly early)\<lparr>cs_setup := cs_setup sample_call\<rparr> in
   is_established established \<and> \<not> rtp_inactivity_expired (10 ^ 18) 1 established \<and>
   \<not> hold_timeout_expired (sample_env\<lparr>en_now := 10 ^ 18\<rparr>) established"
proof -
  let ?early = "sample_call\<lparr>cs_setup := new_runner Ringing\<rparr>"
  have "\<not> is_established ?early" "cs_hold_started_at ?early = None"
    by (simp_all add: sample_call_def new_call_def is_established_def is_in_def new_runner_def)
  moreover have "media_is_held (apply_media_direction sample_env Caller SendOnly ?early)"
    by (simp add: sample_call_def new_call_def new_leg_def apply_media_direction_def record_media_direction_def
        media_is_held_def update_leg_def post_bridge_def Let_def)
  moreover have "is_established ((apply_media_direction sample_env Caller SendOnly ?early)\<lparr>cs_setup := cs_setup sample_call\<rparr>)"
    by (simp add: sample_call_def is_established_def is_in_def)
  ultimately show ?thesis
    using early_hold_unwatched [of ?early sample_env Caller SendOnly, OF _ _ _ refl] unfolding Let_def by blast
qed

end
