(* ===== verification/Mid_Dialog.thy ===== *)
theory Mid_Dialog
  imports Call_Session
begin

text \<open>
  Renegotiation inside a dialog: \<^verbatim>\<open>mid_dialog_offer.cpp\<close>, \<^verbatim>\<open>reinvite_handler.cpp\<close> and
  \<^verbatim>\<open>update_handler.cpp\<close> under \<^verbatim>\<open>engine/src/sip/call/handlers/\<close>. An offer is answered on the leg it came
  from and never forwarded; the media bridge converts between the legs.
\<close>

subsection \<open>Negotiation\<close>

record negotiated_offer =
  ng_answer_sdp :: "sdp_session option"
  ng_codec :: "audio_codec_info option"
  ng_dtmf_pt :: "8 word option"
  ng_offer_direction :: media_direction

definition reconfigure_media_bridge ::
  "('p, 'st) engine_env \<Rightarrow> leg \<Rightarrow> supported_codec \<Rightarrow> 8 word option \<Rightarrow> 'p call \<Rightarrow> bool \<times> 'p call" where
  "reconfigure_media_bridge E which codec pt c =
     (let other_leg = get_leg (other which) c;
          other_codec = (case lg_codec other_leg of None \<Rightarrow> None | Some i \<Rightarrow> find_supported_codec_by_name (ac_name i)) in
      case other_codec of
        None \<Rightarrow> (False, c)
      | Some oc \<Rightarrow>
          if \<not> en_has_pjmedia_endpoint E then (False, c)
          else
            let changed = \<lparr>lc_audio = codec, lc_dtmf_pt = pt\<rparr>;
                unchanged = \<lparr>lc_audio = oc, lc_dtmf_pt = lg_dtmf_pt other_leg\<rparr>;
                a = (if which = Caller then changed else unchanged);
                b = (if which = Caller then unchanged else changed) in
            (case configure_legs (en_pjmedia E) (en_stream_ids E) a b of
               Inl _ \<Rightarrow> (False, c)
             | Inr session \<Rightarrow> (True, post_bridge [ConfigureTask (lc_dtmf_pt a) (lc_dtmf_pt b) session] c)))"

definition retarget_leg :: "leg \<Rightarrow> string \<Rightarrow> 16 word \<Rightarrow> 'p call \<Rightarrow> 'p call" where
  "retarget_leg which address port c = post_bridge [RetargetTask (relay_leg_of which) (address, port)] c"

definition media_changed :: "audio_codec_info option \<Rightarrow> 8 word option \<Rightarrow> string \<Rightarrow> 8 word option \<Rightarrow> bool" where
  "media_changed current current_dtmf_pt chosen pt \<longleftrightarrow>
     (case current of None \<Rightarrow> True | Some i \<Rightarrow> ac_name i \<noteq> chosen) \<or> current_dtmf_pt \<noteq> pt"

definition caller_codec_changed :: "leg \<Rightarrow> audio_codec_info option \<Rightarrow> audio_codec_info option \<Rightarrow> bool" where
  "caller_codec_changed which before after =
     (if which \<noteq> Caller then False
      else case (before, after) of
        (Some b, Some a) \<Rightarrow> ac_name b \<noteq> ac_name a
      | _ \<Rightarrow> (before \<noteq> None) \<noteq> (after \<noteq> None))"

definition commit_negotiated_media :: "('p, 'st) engine_env \<Rightarrow> leg \<Rightarrow> negotiated_offer \<Rightarrow> 'p call \<Rightarrow> 'p call" where
  "commit_negotiated_media E which negotiated c =
     (let codec_changed = caller_codec_changed which (lg_codec (get_leg which c)) (ng_codec negotiated);
          c = update_leg which (\<lambda>l. l\<lparr>lg_codec := ng_codec negotiated, lg_dtmf_pt := ng_dtmf_pt negotiated\<rparr>) c;
          c = apply_media_direction E which (ng_offer_direction negotiated) c in
      if codec_changed then report_call_updated E c else c)"

definition negotiate_mid_dialog_offer ::
  "('p, 'st) engine_env \<Rightarrow> string \<Rightarrow> leg \<Rightarrow> 'p call \<Rightarrow> (exchange_outcome + negotiated_offer) \<times> 'p call" where
  "negotiate_mid_dialog_offer E offer which c =
     (let P = en_sdp E; h = lg_inv (get_leg which c) in
      if (case h of None \<Rightarrow> True | Some i \<Rightarrow> \<not> pj_has_neg (en_pjsip E) i (cs_pj c)) then (Inl OFailed, c)
      else if \<not> is_valid_sdp P offer then (Inl ORolledBack, c)
      else case sdp_parse P offer of
        None \<Rightarrow> (Inl ORolledBack, c)
      | Some offer_sdp \<Rightarrow>
          let offer_endpoint = extract_rtp_endpoint (Some offer_sdp) in
          if ep_ip offer_endpoint = [] then (Inl ORolledBack, c)
          else
            let offer_direction = extract_audio_direction P (Some offer_sdp) offer_endpoint in
            (case pick_answer_codec (lg_codec (get_leg (other which) c)) (extract_all_audio_codecs P (Some offer_sdp)) of
               None \<Rightarrow> (Inl ORolledBack, c)
             | Some chosen \<Rightarrow>
                 let pt = extract_telephone_event_pt P (Some offer_sdp);
                     current = get_leg which c;
                     changed = media_changed (lg_codec current) (lg_dtmf_pt current) (sc_name chosen) pt;
                     (configured, c1) = (if changed then reconfigure_media_bridge E which chosen pt c else (True, c)) in
                 if \<not> configured then (Inl ORolledBack, c1)
                 else
                   let restricted = restrict_audio_codecs P offer_sdp [chosen];
                       (directed, set) = set_audio_direction P restricted (answer_direction offer_direction) in
                   if \<not> set then (Inl OFailed, c1)
                   else case cs_leg_port c1 (relay_leg_of which) of
                     None \<Rightarrow> (Inl OFailed, c1)
                   | Some relay_port \<Rightarrow>
                       let answer = rewrite_connection_and_port (cf_local_ip (en_config E)) relay_port directed;
                           c2 = (if \<not> is_hold_address P (ep_ip offer_endpoint)
                                 then retarget_leg which (ep_ip offer_endpoint) (ep_port offer_endpoint) c1 else c1) in
                       (Inr \<lparr>ng_answer_sdp = Some answer, ng_codec = extract_active_audio_codec P (Some answer),
                             ng_dtmf_pt = pt, ng_offer_direction = offer_direction\<rparr>, c2)))"

definition apply_answered_media :: "('p, 'st) engine_env \<Rightarrow> leg \<Rightarrow> sdp_session \<Rightarrow> 'p call \<Rightarrow> bool \<times> 'p call" where
  "apply_answered_media E which answer c =
     (let P = en_sdp E; ep = extract_rtp_endpoint (Some answer);
          declined = (ep_port ep = 0);
          direction = (if declined then Inactive else extract_audio_direction P (Some answer) ep);
          current = get_leg which c;
          finish = (\<lambda>codec pt c. (True, commit_negotiated_media E which
            \<lparr>ng_answer_sdp = None, ng_codec = codec, ng_dtmf_pt = pt, ng_offer_direction = direction\<rparr> c)) in
      if declined then finish (lg_codec current) (lg_dtmf_pt current) c
      else case pick_answer_codec (lg_codec current) (extract_all_audio_codecs P (Some answer)) of
        None \<Rightarrow> (False, c)
      | Some chosen \<Rightarrow>
          let pt = extract_telephone_event_pt P (Some answer);
              changed = media_changed (lg_codec current) (lg_dtmf_pt current) (sc_name chosen) pt;
              (configured, c1) = (if changed then reconfigure_media_bridge E which chosen pt c else (True, c)) in
          if \<not> configured then (False, c1)
          else finish (if changed then extract_active_audio_codec P (Some answer) else lg_codec current) pt
                 (if ep_ip ep \<noteq> [] \<and> \<not> is_hold_address P (ep_ip ep) then retarget_leg which (ep_ip ep) (ep_port ep) c1 else c1))"

subsection \<open>The re-INVITE and UPDATE handlers\<close>

definition with_pj :: "('p \<Rightarrow> 'r \<times> 'p) \<Rightarrow> 'p call \<Rightarrow> 'r \<times> 'p call" where
  "with_pj f c = (let (r, p) = f (cs_pj c) in (r, c\<lparr>cs_pj := p\<rparr>))"

definition reinvite_respond ::
  "('p, 'st) engine_env \<Rightarrow> inv option \<Rightarrow> int \<Rightarrow> sdp_session option \<Rightarrow> 'p call \<Rightarrow> bool \<times> 'p call" where
  "reinvite_respond E h code answer c = with_pj (answer_request (en_pjsip E) h (cs_pending_reinvite c) code answer) c"

definition reinvite_answer :: "('p, 'st) engine_env \<Rightarrow> string \<Rightarrow> leg \<Rightarrow> 'p call \<Rightarrow> exchange_outcome \<times> 'p call" where
  "reinvite_answer E offer which c =
     (let h = lg_inv (get_leg which c) in
      if (case h of None \<Rightarrow> True | Some i \<Rightarrow> \<not> pj_has_neg (en_pjsip E) i (cs_pj c)) then (OFailed, c)
      else if offer = [] then (OPending, c\<lparr>cs_offerless := (cs_offerless c)(which := h)\<rparr>)
      else case negotiate_mid_dialog_offer E offer which c of
        (Inl err, c1) \<Rightarrow>
          if err = ORolledBack then
            (let (ok, c2) = reinvite_respond E h 488 None c1 in (if ok then ORolledBack else OFailed, c2))
          else (OFailed, snd (reinvite_respond E h 500 None c1))
      | (Inr negotiated, c1) \<Rightarrow>
          let (ok, c2) = reinvite_respond E h 200 (ng_answer_sdp negotiated) c1 in
          if \<not> ok then (OFailed, c2) else (OCommitted, commit_negotiated_media E which negotiated c2))"

definition on_create_offer :: "('p, 'st) engine_env \<Rightarrow> inv \<Rightarrow> 'p call \<Rightarrow> sdp_session option" where
  "on_create_offer E i c =
     (if \<not> pj_has_neg (en_pjsip E) i (cs_pj c) then None
      else if \<not> (cs_offerless c Caller = Some i \<or> cs_offerless c Callee = Some i) then None
      else case pj_active_local (en_pjsip E) i (cs_pj c) of
        None \<Rightarrow> None
      | Some active_local \<Rightarrow>
          let (offer, ok) = set_audio_direction (en_sdp E) active_local SendRecv in if ok then Some offer else None)"

text \<open>The outcome the callback reports to the dialog machine, or \<open>None\<close> when the update is not the answer to an
  offerless re-INVITE.\<close>

definition reinvite_on_media_update ::
  "('p, 'st) engine_env \<Rightarrow> inv \<Rightarrow> bool \<Rightarrow> 'p call \<Rightarrow> exchange_outcome option \<times> 'p call" where
  "reinvite_on_media_update E i success c =
     (let found = (if cs_offerless c Caller = Some i then Some Caller
                   else if cs_offerless c Callee = Some i then Some Callee else None) in
      case found of
        None \<Rightarrow> (None, c)
      | Some slot \<Rightarrow>
          let c = c\<lparr>cs_offerless := (cs_offerless c)(slot := None)\<rparr> in
          if success \<and> pj_has_neg (en_pjsip E) i (cs_pj c) then
            (case pj_active_remote (en_pjsip E) i (cs_pj c) of
               None \<Rightarrow> (Some OFailed, c)
             | Some active_remote \<Rightarrow>
                 let (ok, c1) = apply_answered_media E (leg_for i c) active_remote c in
                 (Some (if ok then OCommitted else OFailed), c1))
          else (Some OFailed, c))"

definition reject_491 :: "('p, 'st) engine_env \<Rightarrow> leg \<Rightarrow> 'p call \<Rightarrow> 'p call" where
  "reject_491 E which c = snd (reinvite_respond E (lg_inv (get_leg which c)) 491 None c)"

definition reinvite_reset :: "'p call \<Rightarrow> 'p call" where
  "reinvite_reset c = c\<lparr>cs_offerless := (\<lambda>_. None)\<rparr>"

definition update_answer :: "('p, 'st) engine_env \<Rightarrow> string \<Rightarrow> leg \<Rightarrow> 'p call \<Rightarrow> exchange_outcome \<times> 'p call" where
  "update_answer E offer which c =
     (case lg_inv (get_leg which c) of
        None \<Rightarrow> (OFailed, c)
      | Some i \<Rightarrow>
          if \<not> pj_has_neg (en_pjsip E) i (cs_pj c) then (OFailed, c)
          else case negotiate_mid_dialog_offer E offer which c of
            (Inl err, c1) \<Rightarrow> (err, c1)
          | (Inr negotiated, c1) \<Rightarrow>
              (case ng_answer_sdp negotiated of
                 None \<Rightarrow> (OFailed, c1)
               | Some answer \<Rightarrow>
                   let (ok, c2) = with_pj (pj_inv_set_sdp_answer (en_pjsip E) i answer) c1 in
                   if \<not> ok then (OFailed, c2) else (OCommitted, commit_negotiated_media E which negotiated c2)))"

subsection \<open>What a negotiation changes\<close>

lemma get_update_leg [simp]:
  "get_leg w (update_leg w' f c) = (if w = w' then f (get_leg w c) else get_leg w c)"
  by (cases w; cases w') (simp_all add: get_leg_def update_leg_def)

lemma post_bridge_simps [simp]:
  "post_bridge [] c = c" "post_bridge xs (post_bridge ys c) = post_bridge (ys @ xs) c"
  "cs_bridge_posts (post_bridge xs c) = cs_bridge_posts c @ xs" "cs_pj (post_bridge xs c) = cs_pj c"
  "get_leg w (post_bridge xs c) = get_leg w c" "cs_leg_port (post_bridge xs c) = cs_leg_port c"
  by (simp_all add: post_bridge_def get_leg_def split: leg.splits)

lemma reconfigure_result:
  assumes "reconfigure_media_bridge E which codec pt c = (ok, c')"
  shows "(\<not> ok \<and> c' = c) \<or> (ok \<and> (\<exists>a_pt b_pt session. c' = post_bridge [ConfigureTask a_pt b_pt session] c \<and>
     (if which = Caller then a_pt else b_pt) = pt \<and>
     (if which = Caller then b_pt else a_pt) = lg_dtmf_pt (get_leg (other which) c)))"
  using assms unfolding reconfigure_media_bridge_def Let_def
  by (auto split: option.splits sum.splits if_splits)

text \<open>The tasks a successful negotiation hands to the bridge: the new codec configuration if the codec or
  the DTMF payload type changed, then the new address unless the offer is a hold with the null address.\<close>

definition renegotiation_tasks :: "pjmedia \<Rightarrow> leg \<Rightarrow> bool \<Rightarrow> rtp_endpoint \<Rightarrow> bridge_event list \<Rightarrow> bool" where
  "renegotiation_tasks P which changed ep tasks \<longleftrightarrow>
     (\<exists>conf. tasks = conf @ (if is_hold_address P (ep_ip ep) then []
                             else [RetargetTask (relay_leg_of which) (ep_ip ep, ep_port ep)]) \<and>
        (if changed then \<exists>a b s. conf = [ConfigureTask a b s] else conf = []))"

lemma negotiate_cases:
  obtains "negotiate_mid_dialog_offer E offer which c = (Inl ORolledBack, c)"
  | tasks where "negotiate_mid_dialog_offer E offer which c = (Inl OFailed, post_bridge tasks c)"
  | tasks sdp chosen directed port where
    "negotiate_mid_dialog_offer E offer which c =
       (Inr \<lparr>ng_answer_sdp = Some (rewrite_connection_and_port (cf_local_ip (en_config E)) port directed),
             ng_codec = extract_active_audio_codec (en_sdp E)
               (Some (rewrite_connection_and_port (cf_local_ip (en_config E)) port directed)),
             ng_dtmf_pt = extract_telephone_event_pt (en_sdp E) (Some sdp),
             ng_offer_direction = extract_audio_direction (en_sdp E) (Some sdp) (extract_rtp_endpoint (Some sdp))\<rparr>,
        post_bridge tasks c)"
    "sdp_parse (en_sdp E) offer = Some sdp" "is_valid_sdp (en_sdp E) offer" "ep_ip (extract_rtp_endpoint (Some sdp)) \<noteq> []"
    "pick_answer_codec (lg_codec (get_leg (other which) c)) (extract_all_audio_codecs (en_sdp E) (Some sdp)) = Some chosen"
    "set_audio_direction (en_sdp E) (restrict_audio_codecs (en_sdp E) sdp [chosen])
       (answer_direction (extract_audio_direction (en_sdp E) (Some sdp) (extract_rtp_endpoint (Some sdp)))) = (directed, True)"
    "cs_leg_port c (relay_leg_of which) = Some port"
    "renegotiation_tasks (en_sdp E) which
       (media_changed (lg_codec (get_leg which c)) (lg_dtmf_pt (get_leg which c)) (sc_name chosen)
          (extract_telephone_event_pt (en_sdp E) (Some sdp)))
       (extract_rtp_endpoint (Some sdp)) tasks"
proof -
  note negotiate_def = negotiate_mid_dialog_offer_def [of E offer which c, unfolded Let_def]
  show ?thesis
  proof (cases "sdp_parse (en_sdp E) offer")
    case None
    then show ?thesis
      using that(1) that(2) [of "[]"] by (fastforce simp: negotiate_def split: if_splits option.splits)
  next
    case (Some sdp)
    show ?thesis
    proof (cases "pick_answer_codec (lg_codec (get_leg (other which) c)) (extract_all_audio_codecs (en_sdp E) (Some sdp))")
      case None
      with Some show ?thesis
        using that(1) that(2) [of "[]"] by (fastforce simp: negotiate_def split: if_splits option.splits)
    next
      case (Some chosen)
      let ?pt = "extract_telephone_event_pt (en_sdp E) (Some sdp)"
      let ?changed = "media_changed (lg_codec (get_leg which c)) (lg_dtmf_pt (get_leg which c)) (sc_name chosen) ?pt"
      let ?conf = "if ?changed then reconfigure_media_bridge E which chosen ?pt c else (True, c)"
      let ?ep = "extract_rtp_endpoint (Some sdp)"
      let ?usable = "(case lg_inv (get_leg which c) of None \<Rightarrow> False | Some i \<Rightarrow> pj_has_neg (en_pjsip E) i (cs_pj c)) \<and>
        is_valid_sdp (en_sdp E) offer \<and> ep_ip ?ep \<noteq> []"
      note parsed = \<open>sdp_parse (en_sdp E) offer = Some sdp\<close> Some
      consider "?conf = (False, c)" | conf where "?conf = (True, post_bridge conf c)"
          "if ?changed then \<exists>a b s. conf = [ConfigureTask a b s] else conf = []"
        using reconfigure_result [of E which chosen ?pt c "fst ?conf" "snd ?conf"]
        by (cases ?changed; cases ?conf) (auto simp del: post_bridge_simps(3-))
      then show ?thesis
      proof cases
        case 1
        with parsed show ?thesis
          using that(1) that(2) [of "[]"] by (fastforce simp: negotiate_def split: if_splits option.splits)
      next
        case (2 conf)
        show ?thesis
        proof (cases ?usable)
          case False
          with parsed show ?thesis
            using that(1) that(2) [of "[]"] by (fastforce simp: negotiate_def split: if_splits option.splits)
        next
          case True
          obtain directed ok where dir: "set_audio_direction (en_sdp E) (restrict_audio_codecs (en_sdp E) sdp [chosen])
             (answer_direction (extract_audio_direction (en_sdp E) (Some sdp) ?ep)) = (directed, ok)"
            by fastforce
          show ?thesis
          proof (cases "ok \<and> cs_leg_port c (relay_leg_of which) \<noteq> None")
            case False
            then have "negotiate_mid_dialog_offer E offer which c = (Inl OFailed, post_bridge conf c)"
              using parsed 2(1) True dir by (auto simp: negotiate_def split: option.splits)
            then show ?thesis by (rule that(2))
          next
            case ok: True
            then obtain port where port: "cs_leg_port c (relay_leg_of which) = Some port" by blast
            let ?tasks = "conf @ (if is_hold_address (en_sdp E) (ep_ip ?ep) then []
               else [RetargetTask (relay_leg_of which) (ep_ip ?ep, ep_port ?ep)])"
            have "negotiate_mid_dialog_offer E offer which c =
                (Inr \<lparr>ng_answer_sdp = Some (rewrite_connection_and_port (cf_local_ip (en_config E)) port directed),
                   ng_codec = extract_active_audio_codec (en_sdp E)
                     (Some (rewrite_connection_and_port (cf_local_ip (en_config E)) port directed)),
                   ng_dtmf_pt = ?pt, ng_offer_direction = extract_audio_direction (en_sdp E) (Some sdp) ?ep\<rparr>,
                 post_bridge ?tasks c)"
              using parsed 2(1) True dir ok port by (simp add: negotiate_def retarget_leg_def split: option.splits)
            moreover have "renegotiation_tasks (en_sdp E) which ?changed ?ep ?tasks"
              using 2(2) unfolding renegotiation_tasks_def by blast
            ultimately show ?thesis using that(3) [of port directed sdp ?tasks chosen] parsed True dir ok port by simp
          qed
        qed
      qed
    qed
  qed
qed

text \<open>A renegotiation that is refused leaves the call exactly as it was: when a re-INVITE or UPDATE ends rolled
  back, neither the legs, nor the hold clock, nor the relay have been touched, and only the SIP stack has moved.
  Every UPDATE is decided at once, and a re-INVITE stays pending only when it carries no offer.\<close>

theorem refused_renegotiation_changes_nothing:
  "(case reinvite_answer E offer which c of (oc, c') \<Rightarrow>
      (oc = ORolledBack \<longrightarrow> c' = c\<lparr>cs_pj := cs_pj c'\<rparr>) \<and> (oc = OPending \<longrightarrow> offer = [] \<and> cs_bridge_posts c' = cs_bridge_posts c)) \<and>
   (case update_answer E offer which c of (oc, c') \<Rightarrow> oc \<noteq> OPending \<and> (oc = ORolledBack \<longrightarrow> c' = c))"
proof -
  have "case reinvite_answer E offer which c of (oc, c') \<Rightarrow>
      (oc = ORolledBack \<longrightarrow> c' = c\<lparr>cs_pj := cs_pj c'\<rparr>) \<and> (oc = OPending \<longrightarrow> offer = [] \<and> cs_bridge_posts c' = cs_bridge_posts c)"
    by (rule negotiate_cases [of E offer which c])
      (auto simp: reinvite_answer_def reinvite_respond_def with_pj_def Let_def split: prod.splits if_splits)
  moreover have "case update_answer E offer which c of (oc, c') \<Rightarrow> oc \<noteq> OPending \<and> (oc = ORolledBack \<longrightarrow> c' = c)"
    by (rule negotiate_cases [of E offer which c])
      (auto simp: update_answer_def with_pj_def Let_def split: prod.splits if_splits option.splits)
  ultimately show ?thesis by blast
qed

subsection \<open>The answer\<close>

text \<open>What PJMEDIA documents of its attribute accessors: an attribute is found when one of that name is present, and
  removing a name removes exactly the attributes that carry it.\<close>

definition attr_access_ok :: "pjmedia \<Rightarrow> bool" where
  "attr_access_ok P \<longleftrightarrow>
     (\<forall>attrs name. pm_has_attr P attrs name \<longleftrightarrow> (\<exists>a \<in> set attrs. at_name a = name)) \<and>
     (\<forall>attrs name. pm_remove_all P name attrs = filter (\<lambda>a. at_name a \<noteq> name) attrs)"

definition direction_attrs :: "sdp_media \<Rightarrow> sdp_attr list" where
  "direction_attrs m = filter (\<lambda>a. at_name a \<in> {''sendrecv'', ''sendonly'', ''recvonly'', ''inactive''}) (md_attr m)"

lemma set_direction_media:
  assumes "attr_access_ok P" and "set_audio_direction P sdp d = (sdp', True)" and "find_active_audio_media sdp = Some i"
  shows "length (sd_media sdp') = length (sd_media sdp)" "md_fmt (sd_media sdp' ! i) = md_fmt (sd_media sdp ! i)"
    "direction_attrs (sd_media sdp' ! i) = [\<lparr>at_name = direction_name d, at_value = []\<rparr>]"
proof -
  have len: "i < length (sd_media sdp)"
    using assms(3) find_pos_SomeD by (fastforce simp: find_active_audio_media_def)
  obtain attrs where attrs: "sd_media sdp' = (sd_media sdp)[i := (sd_media sdp ! i)\<lparr>md_attr := attrs\<rparr>]"
      "attrs = filter (\<lambda>a. at_name a \<notin> {''sendrecv'', ''sendonly'', ''recvonly'', ''inactive''}) (md_attr (sd_media sdp ! i)) @
        [\<lparr>at_name = direction_name d, at_value = []\<rparr>]"
    using assms unfolding set_audio_direction_def attr_access_ok_def
    by (auto simp: Let_def conj_ac split: if_splits intro!: filter_cong)
  from attrs(1) len show "length (sd_media sdp') = length (sd_media sdp)"
      "md_fmt (sd_media sdp' ! i) = md_fmt (sd_media sdp ! i)" by simp_all
  show "direction_attrs (sd_media sdp' ! i) = [\<lparr>at_name = direction_name d, at_value = []\<rparr>]"
    using attrs len by (cases d) (auto simp: direction_attrs_def filter_empty_conv)
qed

lemma rewrite_media [simp]:
  "i < length (sd_media sdp) \<Longrightarrow>
     direction_attrs (sd_media (rewrite_connection_and_port ip port sdp) ! i) = direction_attrs (sd_media sdp ! i)"
  "i < length (sd_media sdp) \<Longrightarrow> md_fmt (sd_media (rewrite_connection_and_port ip port sdp) ! i) = md_fmt (sd_media sdp ! i)"
  "map md_port (sd_media (rewrite_connection_and_port ip port sdp)) = replicate (length (sd_media sdp)) port"
  by (simp_all add: rewrite_connection_and_port_def direction_attrs_def comp_def map_replicate_const)

text \<open>A session that offers a codec has an active audio line.\<close>

lemma picked_has_active:
  "pick_answer_codec preferred (extract_all_audio_codecs P (Some sdp)) = Some chosen \<Longrightarrow>
   \<exists>i. find_active_audio_media sdp = Some i \<and> i < length (sd_media sdp)"
  using find_pos_SomeD
  by (fastforce simp: pick_answer_codec_def extract_all_audio_codecs_def offers_def find_active_audio_media_def
      find_None_iff find_Some_iff Let_def split: option.splits)


lemma sample_attr_access: "attr_access_ok (en_sdp sample_env)"
  by (simp add: attr_access_ok_def sample_env_def sample_pjmedia_def list_ex_iff)


end
