(* ===== verification/Offer_Answer_Actions.thy ===== *)
theory Offer_Answer_Actions
  imports Mid_Dialog
begin

text \<open>
  The SIP side of the initial exchange, \<^verbatim>\<open>engine/src/sip/call/offer_answer_actions.cpp\<close>: the offer
  to the callee, the answer to the caller, and what is committed. The actions are those of the exchange
  machine, on the call.
\<close>

subsection \<open>The outbound leg\<close>

definition own_contact_uri :: "sbc_config \<Rightarrow> string" where
  "own_contact_uri cfg = ''<sip:'' @ cf_identity_user cfg @ ''@'' @ cf_local_ip cfg @ '':'' @ format_int (cf_sip_port cfg) @ ''>''"

definition caller_facing_from_uri :: "sbc_config \<Rightarrow> string \<Rightarrow> string \<Rightarrow> string" where
  "caller_facing_from_uri cfg display_name user =
     (let uri = ''<sip:'' @ user @ ''@'' @ cf_local_ip cfg @ '':'' @ format_int (cf_sip_port cfg) @ ''>'' in
      if display_name = [] then uri else ''\"'' @ display_name @ ''\" '' @ uri)"

definition kGenericArrayMaxCount :: nat where
  "kGenericArrayMaxCount = 32"

text \<open>The first \<^verbatim>\<open>Require\<close> header with room gets the tag, unless some header already has it.\<close>

fun add_to_first_with_room :: "string \<Rightarrow> string list list \<Rightarrow> string list list" where
  "add_to_first_with_room tag [] = [[tag]]"
| "add_to_first_with_room tag (h # hs) =
     (if length h < kGenericArrayMaxCount then (h @ [tag]) # hs else h # add_to_first_with_room tag hs)"

definition require_replaces :: "tx_data \<Rightarrow> tx_data" where
  "require_replaces t =
     (if list_ex (list_ex (\<lambda>v. ascii_iequals v ''replaces'')) (tx_require t) then t
      else t\<lparr>tx_require := add_to_first_with_room ''replaces'' (tx_require t)\<rparr>)"

definition bind_leg :: "('p, 'st) engine_env \<Rightarrow> relay_leg \<Rightarrow> 'p call \<Rightarrow> bool \<times> 'p call" where
  "bind_leg E l c = (case en_bind E l of
     None \<Rightarrow> (False, c) | Some port \<Rightarrow> (True, c\<lparr>cs_leg_port := (cs_leg_port c)(l := Some port)\<rparr>))"

text \<open>The offer towards the callee: the codecs the route allows, anchored at the callee-facing relay socket.\<close>

definition callee_offer :: "('p, 'st) engine_env \<Rightarrow> supported_codec option \<Rightarrow> 16 word \<Rightarrow> sdp_session \<Rightarrow> sdp_session" where
  "callee_offer E required port offer =
     rewrite_connection_and_port (cf_local_ip (en_config E)) port
       (restrict_audio_codecs (en_sdp E) offer (case required of Some codec \<Rightarrow> [codec] | None \<Rightarrow> kSupportedCodecs))"

definition create_outbound_dialog :: "('p, 'st) engine_env \<Rightarrow> string \<Rightarrow> sdp_session \<Rightarrow> 'p call \<Rightarrow> bool \<times> 'p call" where
  "create_outbound_dialog E destination offer c =
     (let K = en_pjsip E; cfg = en_config E; caller_user = extract_uri_user (cs_caller_uri c) in
      if caller_user = [] then (False, c)
      else
        let target = (case cs_replacement_target c of Some r \<Rightarrow> rp_target_uri r | None \<Rightarrow> destination);
            (d, c1) = with_pj (pj_dlg_create_uac K (caller_facing_from_uri cfg (cs_caller_display_name c) caller_user)
                         (own_contact_uri cfg) destination target) c in
        case d of
          None \<Rightarrow> (False, c1)
        | Some dlg \<Rightarrow>
            let (h, c2) = with_pj (pj_inv_create_uac K dlg offer) c1 in
            (case h of
               None \<Rightarrow> (False, c2\<lparr>cs_pj := pj_dlg_terminate K dlg (cs_pj c2)\<rparr>)
             | Some i \<Rightarrow>
                 let (added, c3) = with_pj (pj_dlg_add_usage K dlg) c2 in
                 if \<not> added then (False, c3\<lparr>cs_pj := pj_inv_terminate K i 500 (cs_pj c3)\<rparr>)
                 else (True, (set_inv E Callee (Some i) c3)\<lparr>cs_outbound_destination := destination\<rparr>)))"

definition create_outbound_leg :: "('p, 'st) engine_env \<Rightarrow> string \<Rightarrow> 'p call \<Rightarrow> bool \<times> 'p call" where
  "create_outbound_leg E destination c =
     (let (a_ok, c1) = bind_leg E LegA c in
      if \<not> a_ok then (False, c1)
      else
        let (b_ok, c2) = bind_leg E LegB c1 in
        if \<not> b_ok then (False, c2)
        else case sdp_parse (en_sdp E) (oa_offer (cs_oa c2)) of
          None \<Rightarrow> (False, c2)
        | Some offer \<Rightarrow>
            let caller_rtp = extract_rtp_endpoint (Some offer);
                c3 = (if ep_ip caller_rtp \<noteq> [] then post_bridge [SetRemote LegA (ep_ip caller_rtp, ep_port caller_rtp)] c2 else c2) in
            (case cs_leg_port c3 LegB of
               None \<Rightarrow> (False, c3)
             | Some port \<Rightarrow>
                 create_outbound_dialog E destination (callee_offer E (oa_required_codec (cs_oa c3)) port offer) c3))"

definition kDefaultMaxForwards :: "32 word" where
  "kDefaultMaxForwards = 70"

definition outbound_max_fwd :: "rx_data option \<Rightarrow> 32 word" where
  "outbound_max_fwd rdata =
     (let inbound = (case rdata of
            None \<Rightarrow> kDefaultMaxForwards
          | Some r \<Rightarrow> (case rx_max_fwd r of None \<Rightarrow> kDefaultMaxForwards | Some n \<Rightarrow> n)) in
      if inbound > 0 then inbound - 1 else 0)"

text \<open>The headers stamped on the outbound INVITE.\<close>

definition stamp_invite :: "rx_data option \<Rightarrow> replacement_target option \<Rightarrow> tx_data \<Rightarrow> tx_data" where
  "stamp_invite rdata replacement t =
     (let t = t\<lparr>tx_max_fwd := Some (outbound_max_fwd rdata)\<rparr> in
      case replacement of
        None \<Rightarrow> t
      | Some r \<Rightarrow>
          let t = require_replaces t in
          t\<lparr>tx_replaces := tx_replaces t @
             [\<lparr>rh_call_id = rp_call_id r, rh_to_tag = rp_to_tag r, rh_from_tag = rp_from_tag r, rh_early_only = rp_early_only r\<rparr>]\<rparr>)"

definition send_outbound_invite :: "('p, 'st) engine_env \<Rightarrow> 'p call \<Rightarrow> bool \<times> 'p call" where
  "send_outbound_invite E c =
     (case lg_inv (cs_callee c) of
        None \<Rightarrow> (False, c)
      | Some i \<Rightarrow>
          let (tdata, c1) = with_pj (pj_inv_invite (en_pjsip E) i) c in
          (case tdata of
             None \<Rightarrow> (False, c1)
           | Some t \<Rightarrow>
               with_pj (inv_send (en_pjsip E) i (Some (stamp_invite (cs_current_rdata c) (cs_replacement_target c) t))) c1))"

definition do_relay_offer :: "('p, 'st) engine_env \<Rightarrow> string \<Rightarrow> 'p call \<Rightarrow> 'p call" where
  "do_relay_offer E sdp c =
     (let c = c\<lparr>cs_oa := (cs_oa c)\<lparr>oa_offer := sdp\<rparr>\<rparr>;
          (sent, c') =
            (if is_gone (en_pjsip E) (lg_inv (cs_caller c)) (cs_pj c) then (False, c)
             else
               let (created, c1) = create_outbound_leg E (oa_destination (cs_oa c)) c in
               if \<not> created then (False, c1) else send_outbound_invite E c1) in
      c'\<lparr>cs_oa := (cs_oa c')\<lparr>oa_offer_sent := sent\<rparr>\<rparr>)"

subsection \<open>The answer to the caller\<close>

definition capture_callee_media :: "('p, 'st) engine_env \<Rightarrow> sdp_session \<Rightarrow> 'p call \<Rightarrow> 'p call" where
  "capture_callee_media E answer c =
     (let ep = extract_rtp_endpoint (Some answer);
          c = (if ep_ip ep \<noteq> [] then post_bridge [SetRemote LegB (ep_ip ep, ep_port ep)] c else c) in
      update_leg Callee (\<lambda>l. l\<lparr>lg_codec := extract_active_audio_codec (en_sdp E) (Some answer),
                              lg_dtmf_pt := extract_telephone_event_pt (en_sdp E) (Some answer)\<rparr>) c)"

definition build_caller_answer :: "('p, 'st) engine_env \<Rightarrow> 'p call \<Rightarrow> sdp_session option \<times> 'p call" where
  "build_caller_answer E c =
     (let P = en_sdp E in
      case sdp_parse P (oa_offer (cs_oa c)) of
        None \<Rightarrow> (None, c)
      | Some offer \<Rightarrow>
          (case pick_answer_codec (lg_codec (cs_callee c)) (extract_all_audio_codecs P (Some offer)) of
             None \<Rightarrow> (None, c)
           | Some chosen \<Rightarrow>
               let answer = restrict_audio_codecs P offer [chosen] in
               (Some answer, update_leg Caller (\<lambda>l. l\<lparr>lg_codec := extract_active_audio_codec P (Some answer),
                                                    lg_dtmf_pt := extract_telephone_event_pt P (Some answer)\<rparr>) c)))"

definition configure_media_bridge :: "('p, 'st) engine_env \<Rightarrow> 'p call \<Rightarrow> bool \<times> 'p call" where
  "configure_media_bridge E c =
     (case (lg_codec (cs_caller c), lg_codec (cs_callee c)) of
        (Some caller_codec, Some callee_codec) \<Rightarrow>
          (case (find_supported_codec_by_name (ac_name caller_codec), find_supported_codec_by_name (ac_name callee_codec)) of
             (Some a, Some b) \<Rightarrow>
               if \<not> en_has_pjmedia_endpoint E then (False, c)
               else
                 (case configure_legs (en_pjmedia E) (en_stream_ids E)
                     \<lparr>lc_audio = a, lc_dtmf_pt = lg_dtmf_pt (cs_caller c)\<rparr> \<lparr>lc_audio = b, lc_dtmf_pt = lg_dtmf_pt (cs_callee c)\<rparr> of
                    Inl _ \<Rightarrow> (False, c)
                  | Inr session \<Rightarrow>
                      (True, post_bridge [ConfigureTask (lg_dtmf_pt (cs_caller c)) (lg_dtmf_pt (cs_callee c)) session] c))
           | _ \<Rightarrow> (False, c))
      | _ \<Rightarrow> (False, c))"

definition prepare_answer :: "('p, 'st) engine_env \<Rightarrow> string \<Rightarrow> 'p call \<Rightarrow> sdp_session option \<times> 'p call" where
  "prepare_answer E sdp c =
     (let c = c\<lparr>cs_oa := (cs_oa c)\<lparr>oa_answer := sdp\<rparr>\<rparr> in
      case sdp_parse (en_sdp E) sdp of
        None \<Rightarrow> (None, c)
      | Some callee_answer \<Rightarrow>
          let (answer, c2) = build_caller_answer E (capture_callee_media E callee_answer c) in
          (case answer of
             None \<Rightarrow> (None, c2)
           | Some a \<Rightarrow>
               let (configured, c3) = configure_media_bridge E c2 in
               if \<not> configured then (None, c3)
               else case cs_leg_port c3 LegA of
                 None \<Rightarrow> (None, c3)
               | Some port \<Rightarrow> (Some (rewrite_connection_and_port (cf_local_ip (en_config E)) port a), c3)))"

definition send_answer :: "('p, 'st) engine_env \<Rightarrow> sdp_session option \<Rightarrow> 'p call \<Rightarrow> 'p call" where
  "send_answer E caller_answer c =
     (if caller_answer = None \<and> \<not> oa_early_media_relayed (cs_oa c) then c
      else
        let h = lg_inv (cs_caller c);
            (sent, c1) = with_pj (if oa_early_media_relayed (cs_oa c) then answer_with_active_local (en_pjsip E) h 200
                                  else inv_answer (en_pjsip E) h 200 caller_answer) c;
            c2 = c1\<lparr>cs_oa := (cs_oa c1)\<lparr>oa_answer_sent := sent\<rparr>\<rparr> in
        if \<not> sent then c2 else start_bridge_loop E c2)"

definition do_relay_answer :: "('p, 'st) engine_env \<Rightarrow> string \<Rightarrow> 'p call \<Rightarrow> 'p call" where
  "do_relay_answer E sdp c = (let (answer, c') = prepare_answer E sdp c in send_answer E answer c')"

definition do_hold_answer :: "('p, 'st) engine_env \<Rightarrow> string \<Rightarrow> 'p call \<Rightarrow> 'p call" where
  "do_hold_answer E sdp c =
     (let (answer, c') = prepare_answer E sdp c in c'\<lparr>cs_oa := (cs_oa c')\<lparr>oa_held_caller_answer := answer\<rparr>\<rparr>)"

definition mark_early_media_relayed :: "('p, 'st) engine_env \<Rightarrow> 'p call \<Rightarrow> 'p call" where
  "mark_early_media_relayed E c = start_bridge_loop E (c\<lparr>cs_oa := (cs_oa c)\<lparr>oa_early_media_relayed := True\<rparr>\<rparr>)"

definition do_release_answer :: "('p, 'st) engine_env \<Rightarrow> 'p call \<Rightarrow> 'p call" where
  "do_release_answer E c =
     (let c' = send_answer E (oa_held_caller_answer (cs_oa c)) c in c'\<lparr>cs_oa := (cs_oa c')\<lparr>oa_held_caller_answer := None\<rparr>\<rparr>)"

subsection \<open>Refusals, commitment and cleanup\<close>

definition answer_caller :: "('p, 'st) engine_env \<Rightarrow> int \<Rightarrow> 'p call \<Rightarrow> 'p call" where
  "answer_caller E code c = snd (with_pj (inv_answer (en_pjsip E) (lg_inv (cs_caller c)) code None) c)"

definition do_reject_offer :: "('p, 'st) engine_env \<Rightarrow> oa_reason \<Rightarrow> 'p call \<Rightarrow> 'p call" where
  "do_reject_offer E reason c =
     answer_caller E (if reason = kUnusableOffer then 488 else if reason = kAnswerTimeout then 408 else 500) c"

definition do_relay_rejection :: "('p, 'st) engine_env \<Rightarrow> int \<Rightarrow> 'p call \<Rightarrow> 'p call" where
  "do_relay_rejection E status_code c = answer_caller E status_code c"

definition do_commit :: "'p call \<Rightarrow> 'p call" where
  "do_commit c = (commit_offer_answer (oa_offer (cs_oa c)) (oa_answer (cs_oa c)) c)\<lparr>
     cs_oa := (cs_oa c)\<lparr>oa_offer := [], oa_answer := []\<rparr>\<rparr>"

definition do_rollback :: "oa_reason \<Rightarrow> 'p call \<Rightarrow> 'p call" where
  "do_rollback reason c = c"

definition do_fail :: "('p, 'st) engine_env \<Rightarrow> oa_reason \<Rightarrow> 'p call \<Rightarrow> 'p call" where
  "do_fail E reason c =
     (if \<not> oa_answer_sent (cs_oa c) then answer_caller E (if reason = kUnusableAnswer then 488 else 500) c else c)"

definition do_oa_cleanup :: "'p call \<Rightarrow> 'p call" where
  "do_oa_cleanup c = c\<lparr>cs_oa := (cs_oa c)\<lparr>oa_offer := [], oa_answer := []\<rparr>\<rparr>"

definition offer_answer_actions :: "('p, 'st) engine_env \<Rightarrow> 'p call ex_actions" where
  "offer_answer_actions E = \<lparr>
     offer_usable = (\<lambda>c sdp. is_valid_sdp (en_sdp E) sdp), answer_usable = (\<lambda>c sdp. is_valid_sdp (en_sdp E) sdp),
     needs_ack = (\<lambda>c. True), relay_offer = do_relay_offer E, relay_answer = do_relay_answer E,
     reject_offer = do_reject_offer E, relay_rejection = do_relay_rejection E, hold_answer = do_hold_answer E,
     release_answer = do_release_answer E, commit = do_commit, rollback = do_rollback, fail = do_fail E,
     oa_cleanup = do_oa_cleanup, offer_sent = (\<lambda>c. oa_offer_sent (cs_oa c)), answer_sent = (\<lambda>c. oa_answer_sent (cs_oa c))\<rparr>"

subsection \<open>What the actions leave alone\<close>

text \<open>The part of a call that only the machines and the session itself move.\<close>

definition ctrl :: "'p call \<Rightarrow> _" where
  "ctrl c = (cs_call_id c, cs_caller_uri c, cs_request_uri c, cs_setup c, cs_dialog c, cs_exchange c, cs_replacement_target c, cs_answered_at c,
     cs_terminated_reported c, cs_call_events c, cs_manager_ops c, cs_failure_status c, cs_failure_reason c)"

lemma ctrl_updates [simp]:
  "ctrl (c\<lparr>cs_pj := p\<rparr>) = ctrl c" "ctrl (c\<lparr>cs_oa := d\<rparr>) = ctrl c" "ctrl (c\<lparr>cs_bridge_posts := bs\<rparr>) = ctrl c"
  "ctrl (c\<lparr>cs_last_packet_time := t\<rparr>) = ctrl c" "ctrl (c\<lparr>cs_leg_port := ps\<rparr>) = ctrl c" "ctrl (c\<lparr>cs_caller := l\<rparr>) = ctrl c"
  "ctrl (c\<lparr>cs_callee := l\<rparr>) = ctrl c" "ctrl (c\<lparr>cs_negotiated_offer := s\<rparr>) = ctrl c" "ctrl (c\<lparr>cs_negotiated_answer := s\<rparr>) = ctrl c"
  "ctrl (c\<lparr>cs_outbound_destination := s\<rparr>) = ctrl c" "ctrl (c\<lparr>cs_last_relayed_status_code := n\<rparr>) = ctrl c"
  "ctrl (c\<lparr>cs_current_rdata := rdata\<rparr>) = ctrl c"
  by (simp_all add: ctrl_def)

lemma ctrl_eqD:
  assumes "ctrl c = ctrl c'"
  shows "cs_call_id c = cs_call_id c'" "cs_caller_uri c = cs_caller_uri c'" "cs_request_uri c = cs_request_uri c'" "cs_setup c = cs_setup c'" "cs_dialog c = cs_dialog c'" "cs_exchange c = cs_exchange c'"
    "cs_replacement_target c = cs_replacement_target c'" "cs_answered_at c = cs_answered_at c'"
    "cs_terminated_reported c = cs_terminated_reported c'" "cs_call_events c = cs_call_events c'"
    "cs_manager_ops c = cs_manager_ops c'" "cs_failure_status c = cs_failure_status c'" "cs_failure_reason c = cs_failure_reason c'"
  using assms by (simp_all add: ctrl_def)

text \<open>The tasks for the bridge keep its contract: addresses are set directly only before the relay is requested, and
  the relay is started only after.\<close>

fun relay_tasks_ok :: "bool \<Rightarrow> bridge_event list \<Rightarrow> bool" where
  "relay_tasks_ok requested [] = True"
| "relay_tasks_ok requested (e # es) =
     ((case e of SetRemote _ _ \<Rightarrow> \<not> requested | StartTask \<Rightarrow> requested | _ \<Rightarrow> True) \<and>
      relay_tasks_ok (requested \<or> (case e of StartRequested _ \<Rightarrow> True | _ \<Rightarrow> False)) es)"

fun relay_requested :: "bridge_event list \<Rightarrow> bool" where
  "relay_requested [] = False"
| "relay_requested (e # es) = ((case e of StartRequested _ \<Rightarrow> True | _ \<Rightarrow> False) \<or> relay_requested es)"

lemma relay_requested_append [simp]: "relay_requested (xs @ ys) \<longleftrightarrow> relay_requested xs \<or> relay_requested ys"
  by (induction xs) simp_all

lemma relay_tasks_ok_append [simp]:
  "relay_tasks_ok requested (xs @ ys) \<longleftrightarrow> relay_tasks_ok requested xs \<and> relay_tasks_ok (requested \<or> relay_requested xs) ys"
  by (induction xs arbitrary: requested) (simp_all add: disj_ac)

abbreviation tasks_ok :: "'p call \<Rightarrow> bool" where
  "tasks_ok c \<equiv> relay_tasks_ok False (cs_bridge_posts c)"

abbreviation relaying :: "'p call \<Rightarrow> bool" where
  "relaying c \<equiv> relay_requested (cs_bridge_posts c)"

text \<open>Before an answer has come there is none to relay and the relay has not been requested; the exchange never
  closes the bridge.\<close>

definition oa_ok :: "oa_state \<Rightarrow> 'p call \<Rightarrow> bool" where
  "oa_ok s c \<longleftrightarrow> tasks_ok c \<and>
     (s \<in> {OaIdle, AwaitingAnswer} \<longrightarrow>
        \<not> relaying c \<and> \<not> oa_early_media_relayed (cs_oa c) \<and> oa_held_caller_answer (cs_oa c) = None) \<and>
     CloseTask \<notin> set (cs_bridge_posts c)"

text \<open>One description of the effect of an action: what it may post, and that it leaves the control part alone.\<close>

definition posts_only :: "(bridge_event list \<Rightarrow> bool) \<Rightarrow> 'p call \<Rightarrow> 'p call \<Rightarrow> bool" where
  "posts_only Q c c' \<longleftrightarrow> ctrl c' = ctrl c \<and> oa_early_media_relayed (cs_oa c') = oa_early_media_relayed (cs_oa c) \<and>
     oa_held_caller_answer (cs_oa c') \<in> {oa_held_caller_answer (cs_oa c), None} \<and>
     (\<exists>ts. cs_bridge_posts c' = cs_bridge_posts c @ ts \<and> Q ts)"

definition setting_up :: "bridge_event list \<Rightarrow> bool" where
  "setting_up ts \<longleftrightarrow> list_all (\<lambda>e. case e of SetRemote _ _ \<Rightarrow> True | ConfigureTask _ _ _ \<Rightarrow> True | _ \<Rightarrow> False) ts"

definition starting :: "bridge_event list \<Rightarrow> bool" where
  "starting ts \<longleftrightarrow> ts = [] \<or> (\<exists>t. ts = [StartRequested t, StartTask])"

lemma setting_up_facts:
  assumes "setting_up ts"
  shows "\<not> relay_requested ts" "relay_tasks_ok False ts" "CloseTask \<notin> set ts"
proof -
  show "\<not> relay_requested ts" using assms by (induction ts) (auto simp: setting_up_def split: bridge_event.splits)
  then show "relay_tasks_ok False ts" using assms by (induction ts) (auto simp: setting_up_def split: bridge_event.splits)
  show "CloseTask \<notin> set ts" using assms by (auto simp: setting_up_def list_all_iff)
qed

lemma starting_facts: "starting ts \<Longrightarrow> relay_tasks_ok requested ts" "starting ts \<Longrightarrow> CloseTask \<notin> set ts"
  by (auto simp: starting_def)

lemma create_dialog_effect:
  "create_outbound_dialog E d offer c = (r, c') \<Longrightarrow>
     ctrl c' = ctrl c \<and> cs_bridge_posts c' = cs_bridge_posts c \<and> cs_oa c' = cs_oa c"
  by (auto simp: create_outbound_dialog_def with_pj_def set_inv_def update_leg_def Let_def
      split: if_splits prod.splits option.splits)

lemma create_leg_effect: "create_outbound_leg E d c = (r, c') \<Longrightarrow> posts_only setting_up c c'"
  by (auto simp: create_outbound_leg_def bind_leg_def post_bridge_def posts_only_def setting_up_def Let_def
      split: if_splits prod.splits option.splits dest!: create_dialog_effect)

lemma send_invite_effect:
  "send_outbound_invite E c = (r, c') \<Longrightarrow> ctrl c' = ctrl c \<and> cs_bridge_posts c' = cs_bridge_posts c \<and> cs_oa c' = cs_oa c"
  by (auto simp: send_outbound_invite_def with_pj_def Let_def split: if_splits prod.splits option.splits)

lemma relay_offer_effect: "posts_only setting_up c (do_relay_offer E sdp c)"
proof -
  let ?c1 = "c\<lparr>cs_oa := (cs_oa c)\<lparr>oa_offer := sdp\<rparr>\<rparr>"
  let ?send = "if is_gone (en_pjsip E) (lg_inv (cs_caller ?c1)) (cs_pj ?c1) then (False, ?c1)
    else let (created, c2) = create_outbound_leg E (oa_destination (cs_oa ?c1)) ?c1 in
      if \<not> created then (False, c2) else send_outbound_invite E c2"
  obtain r c' where r: "?send = (r, c')" by fastforce
  then have "posts_only setting_up c c'"
    by (auto simp: posts_only_def setting_up_def split: if_splits prod.splits dest!: create_leg_effect send_invite_effect)
  moreover have "do_relay_offer E sdp c = c'\<lparr>cs_oa := (cs_oa c')\<lparr>oa_offer_sent := r\<rparr>\<rparr>"
    unfolding do_relay_offer_def Let_def r [unfolded Let_def] by simp
  ultimately show ?thesis by (simp add: posts_only_def)
qed

lemma prepare_answer_effect: "prepare_answer E sdp c = (a, c') \<Longrightarrow> posts_only setting_up c c'"
  by (auto simp: prepare_answer_def build_caller_answer_def capture_callee_media_def configure_media_bridge_def
      posts_only_def setting_up_def post_bridge_def update_leg_def Let_def
      split: if_splits prod.splits option.splits sum.splits)

lemma send_answer_effect: "posts_only starting c (send_answer E a c)"
  by (auto simp: send_answer_def with_pj_def posts_only_def starting_def start_bridge_loop_def post_bridge_def Let_def
      split: prod.splits)

lemma release_answer_effect: "posts_only starting c (do_release_answer E c)"
  using send_answer_effect [of c E "oa_held_caller_answer (cs_oa c)"]
  by (auto simp: do_release_answer_def posts_only_def Let_def)

lemma answer_caller_effect [simp]:
  "ctrl (answer_caller E code c) = ctrl c" "cs_bridge_posts (answer_caller E code c) = cs_bridge_posts c"
  "cs_oa (answer_caller E code c) = cs_oa c"
  by (simp_all add: answer_caller_def with_pj_def Let_def split: prod.splits)

text \<open>Every row of the exchange machine keeps the bridge's contract and leaves the control part of the call alone.\<close>

lemma oa_actions_effect:
  "oa_ok s c \<Longrightarrow> posts_only starting c c' \<Longrightarrow> s' \<notin> {OaIdle, AwaitingAnswer} \<Longrightarrow> oa_ok s' c' \<and> ctrl c' = ctrl c"
  "oa_ok s c \<Longrightarrow> posts_only setting_up c c' \<Longrightarrow> s \<in> {OaIdle, AwaitingAnswer} \<Longrightarrow> oa_ok s' c' \<and> ctrl c' = ctrl c"
  by (auto simp: oa_ok_def posts_only_def setting_up_facts starting_facts)

lemma relay_answer_effect:
  assumes "oa_ok AwaitingAnswer c"
  shows "oa_ok RelayingAnswer (do_relay_answer E sdp c) \<and> ctrl (do_relay_answer E sdp c) = ctrl c"
proof -
  obtain a c1 where p: "prepare_answer E sdp c = (a, c1)" by fastforce
  with oa_actions_effect(2) [OF assms prepare_answer_effect] have "oa_ok AwaitingAnswer c1 \<and> ctrl c1 = ctrl c" by simp
  moreover have "do_relay_answer E sdp c = send_answer E a c1" by (simp add: do_relay_answer_def p)
  ultimately show ?thesis using oa_actions_effect(1) [OF _ send_answer_effect, of AwaitingAnswer c1 RelayingAnswer E a] by simp
qed

lemma hold_answer_effect:
  assumes "oa_ok AwaitingAnswer c"
  shows "oa_ok AnswerHeld (do_hold_answer E sdp c) \<and> ctrl (do_hold_answer E sdp c) = ctrl c"
proof -
  obtain a c1 where p: "prepare_answer E sdp c = (a, c1)" by fastforce
  with oa_actions_effect(2) [OF assms prepare_answer_effect, of E sdp a c1 AnswerHeld]
  show ?thesis by (simp add: do_hold_answer_def oa_ok_def)
qed

lemma oa_step:
  assumes "oa_ok s c" and "oa_table (oa_of (offer_answer_actions E)) s e c = Some (s', es, c')"
  shows "oa_ok s' c' \<and> ctrl c' = ctrl c"
proof (cases s)
  case OaIdle
  with assms show ?thesis
    using oa_actions_effect(2) [OF assms(1) relay_offer_effect, of AwaitingAnswer E]
    by (auto simp: oa_of_def oa_actions.truncate_def offer_answer_actions_def oa_defs do_reject_offer_def do_rollback_def oa_ok_def
        split: oa_event.splits if_splits)
next
  case AwaitingAnswer
  with assms have "oa_ok AwaitingAnswer c" by simp
  note actions = relay_answer_effect [OF this, of E] hold_answer_effect [OF this, of E]
  show ?thesis using assms AwaitingAnswer actions
    by (auto simp: oa_of_def oa_actions.truncate_def offer_answer_actions_def oa_defs do_reject_offer_def do_rollback_def
        do_relay_rejection_def do_fail_def oa_ok_def split: oa_event.splits if_splits)
next
  case AnswerHeld
  with assms show ?thesis
    using oa_actions_effect(1) [OF assms(1) release_answer_effect, of RelayingAnswer E]
    by (auto simp: oa_of_def oa_actions.truncate_def offer_answer_actions_def oa_defs do_reject_offer_def do_rollback_def
        do_relay_rejection_def do_fail_def oa_ok_def split: oa_event.splits if_splits)
qed (use assms in \<open>auto simp: oa_of_def oa_actions.truncate_def offer_answer_actions_def do_rollback_def do_fail_def do_commit_def
      do_oa_cleanup_def commit_offer_answer_def oa_ok_def split: oa_event.splits if_splits\<close>)

lemma exchange_effect:
  assumes "oa_ok (ex_state x) c" and "ex_perform (offer_answer_actions E) p x c = Some (oc, x', c')"
  shows "oa_ok (ex_state x') c'" "ctrl c' = ctrl c"
  using ex_perform_inv [where I = "\<lambda>s d. oa_ok s d \<and> ctrl d = ctrl c", OF _ _ assms(2)] oa_step assms(1) by metis+

end
