(* ===== verification/Setup_Actions.thy ===== *)
theory Setup_Actions
  imports Offer_Answer_Actions
begin

text \<open>
  The setup phase of a call on the SIP stack, \<^verbatim>\<open>engine/src/sip/call/setup_actions.cpp\<close>: the actions of the
  setup machine, and the callback that turns the progress of the two invite sessions into operations on the exchange and
  events of the machine. The stack reports the changes an action itself causes while the machine is processing;
  the callback returns at once then, so a callback that matters comes with the stack's state at that time, between
  two operations.
\<close>

subsection \<open>The exchange and the machine\<close>

definition run_exchange ::
  "(exchange \<Rightarrow> 'p call \<Rightarrow> 'p call ex_result) \<Rightarrow> 'p call \<Rightarrow> exchange_outcome \<times> 'p call" where
  "run_exchange f c =
     (case cs_exchange c of
        None \<Rightarrow> (OPending, c)
      | Some x \<Rightarrow>
          (case f x c of
             None \<Rightarrow> (OPending, c)
           | Some (outcome, x', c') \<Rightarrow> (outcome, c'\<lparr>cs_exchange := Some x'\<rparr>)))"

definition note_failure :: "string \<Rightarrow> string \<Rightarrow> 'p call \<Rightarrow> 'p call" where
  "note_failure status reason c =
     (if cs_failure_reason c = [] then c\<lparr>cs_failure_status := status, cs_failure_reason := reason\<rparr> else c)"

definition fail_setup :: "string \<Rightarrow> 'p call \<Rightarrow> 'p call" where
  "fail_setup reason c = note_failure kFailed_status reason c"

subsection \<open>The actions\<close>

definition do_begin_setup :: "('p, 'st) engine_env \<Rightarrow> 'p call \<Rightarrow> 'p call" where
  "do_begin_setup E c =
     (let c = report_call_started E c in
      snd (with_pj (answer_request (en_pjsip E) (lg_inv (cs_caller c)) (cs_current_rdata c) 100 None) c))"

definition do_route_failed :: "('p, 'st) engine_env \<Rightarrow> 'p call \<Rightarrow> 'p call" where
  "do_route_failed E c =
     answer_caller E 480 (note_failure kNoRouteAvailable (''no route available for '' @ cs_request_uri c) c)"

definition do_routing_loop_detected :: "('p, 'st) engine_env \<Rightarrow> 'p call \<Rightarrow> 'p call" where
  "do_routing_loop_detected E c = answer_caller E 482 (note_failure kFailed_status ''routing loop detected'' c)"

definition do_codec_mismatch_detected :: "('p, 'st) engine_env \<Rightarrow> 'p call \<Rightarrow> 'p call" where
  "do_codec_mismatch_detected E c =
     answer_caller E 488 (note_failure kFailed_status ''no codec in common with the route'' c)"

definition do_start_exchange ::
  "('p, 'st) engine_env \<Rightarrow> string \<Rightarrow> supported_codec option \<Rightarrow> 'p call \<Rightarrow> exchange_outcome \<times> 'p call" where
  "do_start_exchange E destination codec c =
     (let (created, c1) = create_exchange destination codec c in
      if \<not> created then (OFailed, c1)
      else
        let (outcome, c2) = run_exchange (ex_start (offer_answer_actions E) (cs_caller_offer_sdp c1)) c1 in
        (outcome, if outcome \<noteq> OPending then release_exchange c2 else c2))"

definition mirrored_progress_code :: "int \<Rightarrow> int" where
  "mirrored_progress_code status_code = (if status_code = 183 then 183 else 180)"

definition held_answer :: "'p call \<Rightarrow> sdp_session option" where
  "held_answer c = (if cs_exchange c \<noteq> None then oa_held_caller_answer (cs_oa c) else None)"

definition do_report_progress :: "('p, 'st) engine_env \<Rightarrow> int \<Rightarrow> bool \<Rightarrow> 'p call \<Rightarrow> 'p call" where
  "do_report_progress E status_code has_early_answer c =
     (case (if has_early_answer then held_answer c else None) of
        Some early_sdp \<Rightarrow>
          let (ok, c1) = with_pj (inv_answer (en_pjsip E) (lg_inv (cs_caller c)) 183 (Some early_sdp)) c in
          if ok then (mark_early_media_relayed E c1)\<lparr>cs_last_relayed_status_code := 183\<rparr> else c1
      | None \<Rightarrow>
          let code = mirrored_progress_code status_code in
          (answer_caller E code c)\<lparr>cs_last_relayed_status_code := code\<rparr>)"

definition do_is_new_progress :: "'p call \<Rightarrow> int \<Rightarrow> bool \<Rightarrow> bool" where
  "do_is_new_progress c status_code has_early_answer \<longleftrightarrow>
     (has_early_answer \<and> (cs_exchange c = None \<or> \<not> oa_early_media_relayed (cs_oa c))) \<or>
     mirrored_progress_code status_code \<noteq> cs_last_relayed_status_code c"

definition stop_and_release :: "('p, 'st) engine_env \<Rightarrow> 'p call \<Rightarrow> 'p call" where
  "stop_and_release E c =
     (if cs_exchange c \<noteq> None then release_exchange (snd (run_exchange (ex_stop (offer_answer_actions E)) c)) else c)"

definition end_both :: "('p, 'st) engine_env \<Rightarrow> int \<Rightarrow> 'p call \<Rightarrow> 'p call" where
  "end_both E code c =
     (let p1 = end_session (en_pjsip E) (lg_inv (cs_caller c)) code (cs_pj c);
          p2 = end_session (en_pjsip E) (lg_inv (cs_callee c)) code p1 in
      c\<lparr>cs_pj := p2\<rparr>)"

definition do_cancel_call :: "('p, 'st) engine_env \<Rightarrow> 'p call \<Rightarrow> bool \<times> 'p call" where
  "do_cancel_call E c =
     (let c = end_both E 487 (stop_and_release E (note_failure kFailed_status ''caller cancelled the call'' c)) in
      (is_gone (en_pjsip E) (lg_inv (cs_callee c)) (cs_pj c), c))"

definition do_establish_call :: "('p, 'st) engine_env \<Rightarrow> 'p call \<Rightarrow> 'p call" where
  "do_establish_call E c =
     (let c = report_call_answered E c in
      case cs_replacement_target c of
        None \<Rightarrow> c
      | Some r \<Rightarrow> c\<lparr>cs_manager_ops := cs_manager_ops c @ [QueueReplaced (rp_replaced_session_id r) (rp_matched_dialog_is_uac r)]\<rparr>)"

definition do_terminate_setup :: "('p, 'st) engine_env \<Rightarrow> 'p call \<Rightarrow> 'p call" where
  "do_terminate_setup E c = end_both E 408 (stop_and_release E (note_failure kFailed_status ''call setup failed'' c))"

definition do_setup_cleanup :: "('p, 'st) engine_env \<Rightarrow> 'p call \<Rightarrow> 'p call" where
  "do_setup_cleanup E c =
     (let c = report_call_terminated E (cs_failure_status c)
                (if cs_failure_reason c = [] then None else Some (cs_failure_reason c)) c;
          c = post_bridge [CloseTask] c in
      c\<lparr>cs_manager_ops := cs_manager_ops c @ [ScheduleRemove (cs_call_id c)]\<rparr>)"

definition setup_actions_of :: "('p, 'st) engine_env \<Rightarrow> 'p call setup_actions" where
  "setup_actions_of E = \<lparr>
     begin_setup = do_begin_setup E,
     resolve_route = (\<lambda>c. (do_resolve_route (en_sdp E) (en_config E) (en_stores E) (cs_request_uri c) (cs_caller_offer_sdp c)
                             (en_now E), c)),
     route_failed = do_route_failed E, routing_loop_detected = do_routing_loop_detected E,
     codec_mismatch_detected = do_codec_mismatch_detected E, start_exchange = do_start_exchange E,
     report_progress = do_report_progress E, is_new_progress = do_is_new_progress, cancel_call = do_cancel_call E,
     establish_call = do_establish_call E, su_terminate_call = do_terminate_setup E, su_cleanup = do_setup_cleanup E\<rparr>"

definition setup_dispatch :: "('p, 'st) engine_env \<Rightarrow> setup_event \<Rightarrow> 'p call \<Rightarrow> 'p call option" where
  "setup_dispatch E e c = do {
     (r, c', _) \<leftarrow> process_event (setup_table (setup_actions_of E)) (cs_setup c) c e;
     Some (c'\<lparr>cs_setup := r\<rparr>) }"

definition finish_exchange :: "('p, 'st) engine_env \<Rightarrow> exchange_outcome \<times> 'p call \<Rightarrow> 'p call option" where
  "finish_exchange E r = (case r of (outcome, c) \<Rightarrow>
     if outcome = OPending then Some c else setup_dispatch E (SuExchangeFinished outcome) (release_exchange c))"

subsection \<open>Callbacks of the invite sessions\<close>

definition extract_sdp :: "rx_data option \<Rightarrow> string" where
  "extract_sdp rdata = (case rdata of None \<Rightarrow> [] | Some r \<Rightarrow> rx_sdp r)"

definition extract_status_code :: "rx_data option \<Rightarrow> int" where
  "extract_status_code rdata = (case rdata of None \<Rightarrow> 0 | Some r \<Rightarrow> rx_status_code r)"

definition handle_early :: "('p, 'st) engine_env \<Rightarrow> rx_data option \<Rightarrow> 'p call \<Rightarrow> 'p call option" where
  "handle_early E rdata c = do {
     (early, c') \<leftarrow>
       (if cs_exchange c \<noteq> None \<and> extract_sdp rdata \<noteq> [] then do {
          c' \<leftarrow> finish_exchange E (run_exchange (receive_early_answer (offer_answer_actions E) (extract_sdp rdata)) c);
          Some (held_answer c' \<noteq> None, c') }
        else Some (False, c));
     setup_dispatch E (ProgressReceived (extract_status_code rdata) early) c' }"

definition handle_disconnect :: "('p, 'st) engine_env \<Rightarrow> inv \<Rightarrow> 'p call \<Rightarrow> 'p call option" where
  "handle_disconnect E i c =
     (let which = leg_for i c; cause = pj_cause (en_pjsip E) i (cs_pj c); A = offer_answer_actions E in
      if is_in (cs_setup c) Cancelling then
        (if which = Callee then setup_dispatch E CancellationCompleted c else Some c)
      else if (case cs_exchange c of None \<Rightarrow> False | Some x \<Rightarrow> awaiting_confirmation x) then
        (if which = Caller \<and> cause = 408
         then finish_exchange E (run_exchange (ex_confirmation_timeout A) (fail_setup ''caller never acknowledged the answer'' c))
         else setup_dispatch E (SuExchangeFinished OFailed) c)
      else if which = Callee then
        (if cause = 408 then
           (let c = fail_setup ''callee did not answer in time'' c in
            if cs_exchange c \<noteq> None then finish_exchange E (run_exchange (ex_answer_timeout A) c) else Some c)
         else if cause \<ge> 300 then
           (let c = fail_setup (''callee rejected the call with '' @ format_int cause) c in
            if cs_exchange c \<noteq> None then finish_exchange E (run_exchange (ex_reject A cause) c) else Some c)
         else setup_dispatch E (SuExchangeFinished OFailed) c)
      else setup_dispatch E CancelRequested c)"

definition setup_on_leg_state_changed ::
  "('p, 'st) engine_env \<Rightarrow> inv \<Rightarrow> rx_data option \<Rightarrow> 'p call \<Rightarrow> 'p call option" where
  "setup_on_leg_state_changed E i rdata c =
     (let which = leg_for i c; A = offer_answer_actions E in
      if is_processing (cs_setup c) \<or> (case cs_exchange c of None \<Rightarrow> False | Some x \<Rightarrow> ex_processing x) then Some c
      else case pj_state (en_pjsip E) i (cs_pj c) of
        InvEarly \<Rightarrow> if which = Callee then handle_early E rdata c else Some c
      | InvConnecting \<Rightarrow>
          if which = Callee then
            (if is_in (cs_setup c) Cancelling then setup_dispatch E CancelRequested c
             else if cs_exchange c \<noteq> None then finish_exchange E (run_exchange (receive_answer A (extract_sdp rdata)) c)
             else Some c)
          else Some c
      | InvConfirmed \<Rightarrow>
          if which = Caller \<and> cs_exchange c \<noteq> None then finish_exchange E (run_exchange (ex_confirm A) c) else Some c
      | InvDisconnected \<Rightarrow> if \<not> is_in (cs_setup c) SuDone then handle_disconnect E i c else Some c
      | _ \<Rightarrow> Some c)"

subsection \<open>Operations on the exchange\<close>

lemma oa_never_idle_again: "oa_table A s e c = Some (s', es, c') \<Longrightarrow> s' \<noteq> OaIdle"
  by (cases s) (auto split: oa_event.splits if_splits)

lemma ex_perform_not_idle:
  assumes "ex_perform A p x c = Some (oc, x', c')" and "ex_state x \<noteq> OaIdle"
  shows "ex_state x' \<noteq> OaIdle"
  using ex_perform_inv [where I = "\<lambda>s c. s \<noteq> OaIdle", OF _ assms(2,1)] oa_never_idle_again [of "oa_of A"] by metis

lemma ex_start_not_idle:
  assumes "ex_start A sdp new_exchange c = Some (oc, x', c')"
  shows "ex_state x' \<noteq> OaIdle"
  using assms
  by (auto simp: ex_start_def ex_dispatch_table finish_operation_def new_exchange_def new_runner_def is_in_def Let_def
      split: if_splits)

text \<open>An exchange in the slot is at rest, and waits for an answer, for the final response or for the
  acknowledgement.\<close>

definition waiting :: "exchange \<Rightarrow> 'p call \<Rightarrow> bool" where
  "waiting x c \<longleftrightarrow> ex_resting x \<and> ex_state x \<notin> {OaIdle, OaDone} \<and> oa_ok (ex_state x) c"

lemma run_exchange_effect:
  assumes "cs_exchange c = Some x" and "waiting x c" and "run_exchange (ex_perform (offer_answer_actions E) p) c = (oc, c')"
  shows "ctrl (c'\<lparr>cs_exchange := None\<rparr>) = ctrl (c\<lparr>cs_exchange := None\<rparr>)" "tasks_ok c'" "CloseTask \<notin> set (cs_bridge_posts c')"
    "\<exists>x'. cs_exchange c' = Some x' \<and> (oc = OPending \<longrightarrow> waiting x' c')"
proof -
  from assms(2) have w: "ex_resting x" "ex_state x \<noteq> OaIdle" "ex_state x \<noteq> OaDone" "oa_ok (ex_state x) c"
    by (simp_all add: waiting_def)
  from ex_perform_rests [OF w(1), of "offer_answer_actions E" p c] obtain x' d where
    p: "ex_perform (offer_answer_actions E) p x c = Some (oc, x', d)" "c' = d\<lparr>cs_exchange := Some x'\<rparr>" "ex_resting x'"
      "ex_state x' = OaDone \<longleftrightarrow> oc \<noteq> OPending"
    using assms(1,3) w(3) by (auto simp: run_exchange_def)
  note eff = exchange_effect [OF w(4) p(1)]
  from eff(2) have "ctrl (d\<lparr>cs_exchange := None\<rparr>) = ctrl (c\<lparr>cs_exchange := None\<rparr>)" by (simp add: ctrl_def)
  then show "ctrl (c'\<lparr>cs_exchange := None\<rparr>) = ctrl (c\<lparr>cs_exchange := None\<rparr>)" by (simp add: p(2))
  show "tasks_ok c'" "CloseTask \<notin> set (cs_bridge_posts c')" using eff(1) by (simp_all add: p(2) oa_ok_def)
  have "ex_state x' \<noteq> OaIdle" using ex_perform_not_idle [OF p(1) w(2)] .
  then show "\<exists>x'. cs_exchange c' = Some x' \<and> (oc = OPending \<longrightarrow> waiting x' c')"
    using p eff(1) by (auto simp: waiting_def oa_ok_def)
qed

subsection \<open>The invariant of a call in setup\<close>

definition call_started :: "'p call \<Rightarrow> string \<Rightarrow> call_event" where
  "call_started c t = CallStarted (cs_call_id c) (cs_caller_uri c) (cs_request_uri c) t"

definition setup_reports :: "setup_state \<Rightarrow> 'p call \<Rightarrow> call_event list \<Rightarrow> bool" where
  "setup_reports s c evs \<longleftrightarrow> (case s of
     SuIdle \<Rightarrow> evs = []
   | Established \<Rightarrow> \<exists>t d k t'. evs = [call_started c t, CallUpdated (cs_call_id c) d k t']
   | SuDone \<Rightarrow> \<exists>t t'. evs = [call_started c t,
       CallTerminated (cs_call_id c) (cs_failure_status c) (Some (cs_failure_reason c)) t' None]
   | _ \<Rightarrow> \<exists>t. evs = [call_started c t])"

definition setup_requests :: "setup_state \<Rightarrow> 'p call \<Rightarrow> manager_op list" where
  "setup_requests s c = (case s of
     Established \<Rightarrow> (case cs_replacement_target c of
       None \<Rightarrow> [] | Some r \<Rightarrow> [QueueReplaced (rp_replaced_session_id r) (rp_matched_dialog_is_uac r)])
   | SuDone \<Rightarrow> [ScheduleRemove (cs_call_id c)]
   | _ \<Rightarrow> [])"

definition setup_core :: "bool \<Rightarrow> setup_state \<Rightarrow> 'p call \<Rightarrow> bool" where
  "setup_core sink s c \<longleftrightarrow> tasks_ok c \<and>
     (s \<in> {SuIdle, Routing} \<longrightarrow> \<not> relaying c) \<and>
     (CloseTask \<in> set (cs_bridge_posts c) \<longleftrightarrow> s = SuDone) \<and>
     (\<forall>x. cs_exchange c = Some x \<longrightarrow> s \<in> {Negotiating, Ringing} \<and> waiting x c) \<and>
     (cs_terminated_reported c \<longleftrightarrow> s = SuDone) \<and> (cs_answered_at c \<noteq> None \<longleftrightarrow> s = Established) \<and>
     (s \<in> {Cancelling, SuFailed, SuDone} \<longrightarrow> cs_failure_reason c \<noteq> []) \<and>
     cs_manager_ops c = setup_requests s c \<and>
     (if sink then setup_reports s c (cs_call_events c) else cs_call_events c = [])"

lemma setup_core_cong:
  assumes "ctrl c' = ctrl c" "cs_bridge_posts c' = cs_bridge_posts c" "cs_oa c' = cs_oa c"
  shows "setup_core sink s c' = setup_core sink s c"
proof -
  have "waiting x c' = waiting x c" for x using assms by (simp add: waiting_def oa_ok_def)
  then show ?thesis
    unfolding setup_core_def setup_reports_def setup_requests_def call_started_def ctrl_eqD [OF assms(1)] assms(2,3) by simp
qed

text \<open>While events are pending: at most the one the machine fired itself; and the slot is empty during
  negotiation only when the outcome of the exchange is that event.\<close>

definition setup_dispatching :: "bool \<Rightarrow> setup_state \<Rightarrow> 'p call \<Rightarrow> setup_event list \<Rightarrow> bool" where
  "setup_dispatching sink s c q \<longleftrightarrow> setup_pending s q \<and> setup_core sink s c \<and>
     (s \<in> {Negotiating, Ringing} \<and> cs_exchange c = None \<longrightarrow> (\<exists>oc. q = [SuExchangeFinished oc] \<and> oc \<noteq> OPending)) \<and>
     (cs_exchange c \<noteq> None \<longrightarrow> SuExchangeFinished OCommitted \<notin> set q) \<and> (s = SuIdle \<longrightarrow> q = [Requested])"

lemma note_failure_simps [simp]:
  "cs_exchange (note_failure st r c) = cs_exchange c" "cs_bridge_posts (note_failure st r c) = cs_bridge_posts c"
  "cs_oa (note_failure st r c) = cs_oa c" "r \<noteq> [] \<Longrightarrow> cs_failure_reason (note_failure st r c) \<noteq> []"
  "cs_setup (note_failure st r c) = cs_setup c" "cs_pj (note_failure st r c) = cs_pj c" "cs_caller (note_failure st r c) = cs_caller c"
  "cs_callee (note_failure st r c) = cs_callee c"
  by (simp_all add: note_failure_def)

lemma note_failure_core:
  "setup_core sink s c \<Longrightarrow> s \<noteq> SuDone \<Longrightarrow> setup_core sink s (note_failure st r c)"
  by (auto simp: note_failure_def setup_core_def setup_reports_def setup_requests_def call_started_def waiting_def oa_ok_def
      split: setup_state.splits)

lemma setup_core_pj: "setup_core sink s (c\<lparr>cs_pj := p\<rparr>) = setup_core sink s c"
  by (rule setup_core_cong) simp_all

lemma answer_caller_core [simp]: "setup_core sink s (answer_caller E code c) = setup_core sink s c"
  by (rule setup_core_cong) simp_all

lemma begin_core:
  assumes "setup_core sink SuIdle c" and "en_has_event_sink E = sink"
  shows "setup_core sink Routing (do_begin_setup E c)"
  using assms
  by (auto simp: do_begin_setup_def report_call_started_def send_event_def with_pj_def setup_core_def setup_reports_def
      setup_requests_def call_started_def Let_def split: prod.splits)

lemma setup_core_moves:
  "setup_core sink Routing c \<Longrightarrow> setup_core sink Negotiating c"
  "setup_core sink Negotiating c \<Longrightarrow> setup_core sink Ringing c"
  "setup_core sink s c \<Longrightarrow> s \<in> {Routing, Negotiating, Ringing, Cancelling, SuFailed} \<Longrightarrow> cs_exchange c = None \<Longrightarrow>
     cs_failure_reason c \<noteq> [] \<Longrightarrow> s' \<in> {Cancelling, SuFailed} \<Longrightarrow> setup_core sink s' c"
  by (auto simp: setup_core_def setup_reports_def setup_requests_def call_started_def)

lemma setup_reports_cong:
  assumes "ctrl c' = ctrl c"
  shows "setup_reports s c' = setup_reports s c" "setup_requests s c' = setup_requests s c"
  unfolding setup_reports_def setup_requests_def call_started_def ctrl_eqD [OF assms] by simp_all

lemma setup_reports_slot [simp]:
  "setup_reports s (c\<lparr>cs_exchange := x\<rparr>) = setup_reports s c" "setup_requests s (c\<lparr>cs_exchange := x\<rparr>) = setup_requests s c"
  by (cases s; simp add: setup_reports_def setup_requests_def call_started_def fun_eq_iff)+

lemma slot_select:
  "cs_bridge_posts (c\<lparr>cs_exchange := y\<rparr>) = cs_bridge_posts c" "cs_exchange (c\<lparr>cs_exchange := y\<rparr>) = y"
  "cs_terminated_reported (c\<lparr>cs_exchange := y\<rparr>) = cs_terminated_reported c"
  "cs_answered_at (c\<lparr>cs_exchange := y\<rparr>) = cs_answered_at c" "cs_failure_reason (c\<lparr>cs_exchange := y\<rparr>) = cs_failure_reason c"
  "cs_manager_ops (c\<lparr>cs_exchange := y\<rparr>) = cs_manager_ops c" "cs_call_events (c\<lparr>cs_exchange := y\<rparr>) = cs_call_events c"
  by simp_all

lemma slot_changed:
  assumes "setup_core sink s c" and "ctrl (c'\<lparr>cs_exchange := None\<rparr>) = ctrl (c\<lparr>cs_exchange := None\<rparr>)" and "tasks_ok c'"
    and "CloseTask \<notin> set (cs_bridge_posts c')" and "s \<in> {Negotiating, Ringing, Cancelling}"
    and "\<And>x. y = Some x \<Longrightarrow> s \<in> {Negotiating, Ringing} \<and> waiting x (c'\<lparr>cs_exchange := y\<rparr>)"
  shows "setup_core sink s (c'\<lparr>cs_exchange := y\<rparr>)"
proof -
  note same = ctrl_eqD [OF assms(2), simplified] setup_reports_cong [OF assms(2), simplified]
  have "s \<notin> {SuIdle, Routing, SuDone}" using assms(5) by auto
  then show ?thesis
    using assms(1,3,4,6) unfolding setup_core_def by (simp only: same setup_reports_slot slot_select) blast
qed

lemma slot_emptied:
  assumes "setup_core sink s c" and "ctrl (c'\<lparr>cs_exchange := None\<rparr>) = ctrl (c\<lparr>cs_exchange := None\<rparr>)" and "tasks_ok c'"
    and "CloseTask \<notin> set (cs_bridge_posts c')" and "s \<in> {Negotiating, Ringing, Cancelling}"
  shows "setup_core sink s (c'\<lparr>cs_exchange := None\<rparr>)"
  by (rule slot_changed [OF assms]) simp

lemma slot_kept:
  assumes "setup_core sink s c" and "ctrl (c'\<lparr>cs_exchange := None\<rparr>) = ctrl (c\<lparr>cs_exchange := None\<rparr>)" and "tasks_ok c'"
    and "CloseTask \<notin> set (cs_bridge_posts c')" and "s \<in> {Negotiating, Ringing}"
    and "cs_exchange c' = Some x" and "waiting x c'"
  shows "setup_core sink s c'"
proof -
  have "c' = c'\<lparr>cs_exchange := Some x\<rparr>" using assms(6) by simp
  then show ?thesis using slot_changed [OF assms(1-4), of "Some x"] assms(5,7) by auto
qed

lemma start_exchange_core:
  assumes "setup_core sink Routing c" and "do_start_exchange E d k c = (oc, c')"
  shows "setup_core sink Negotiating c' \<and> (cs_exchange c' = None \<longleftrightarrow> oc \<noteq> OPending)"
proof -
  let ?c1 = "c\<lparr>cs_exchange := Some new_exchange, cs_oa := new_oa d k\<rparr>"
  let ?A = "offer_answer_actions E"
  have none: "cs_exchange c = None" using assms(1) by (cases "cs_exchange c") (auto simp: setup_core_def)
  have ok: "oa_ok (ex_state new_exchange) ?c1"
    using assms(1) by (auto simp: setup_core_def oa_ok_def new_oa_def)
  obtain x' e where st: "ex_start ?A (cs_caller_offer_sdp c) new_exchange ?c1 = Some (oc, x', e)" "ex_resting x'"
      "ex_state x' = OaDone \<longleftrightarrow> oc \<noteq> OPending"
      "c' = (if oc \<noteq> OPending then release_exchange (e\<lparr>cs_exchange := Some x'\<rparr>) else e\<lparr>cs_exchange := Some x'\<rparr>)"
    using ex_perform_rests [OF new_exchange_resting(1), of ?A "ExStart (cs_caller_offer_sdp c)" ?c1] assms(2) none
    by (auto simp: do_start_exchange_def create_exchange_def run_exchange_def)
  note eff = exchange_effect [OF ok, of E "ExStart (cs_caller_offer_sdp c)", simplified, OF st(1)]
  from eff(2) have ctrl: "ctrl (e\<lparr>cs_exchange := None\<rparr>) = ctrl (c\<lparr>cs_exchange := None\<rparr>)" by (simp add: ctrl_def)
  note core = setup_core_moves(1) [OF assms(1)]
  show ?thesis
  proof (cases "oc = OPending")
    case True
    then have "waiting x' c'" using st eff(1) ex_start_not_idle [OF st(1)] by (simp add: waiting_def oa_ok_def)
    then show ?thesis
      using slot_kept [OF core, of c' x'] True st(4) ctrl eff(1) by (simp add: oa_ok_def)
  next
    case False
    then show ?thesis
      using slot_emptied [OF core ctrl] st(4) eff(1) by (simp add: oa_ok_def release_exchange_def)
  qed
qed

lemma stop_core:
  assumes "setup_core sink s c" and "s \<in> {Routing, Negotiating, Ringing, Cancelling}"
  shows "setup_core sink s (stop_and_release E c)" "cs_exchange (stop_and_release E c) = None"
    "cs_failure_reason (stop_and_release E c) = cs_failure_reason c"
proof -
  show none: "cs_exchange (stop_and_release E c) = None"
    by (simp add: stop_and_release_def release_exchange_def)
  have "setup_core sink s (stop_and_release E c) \<and> cs_failure_reason (stop_and_release E c) = cs_failure_reason c"
  proof (cases "cs_exchange c")
    case None
    with assms(1) show ?thesis by (simp add: stop_and_release_def)
  next
    case (Some x)
    with assms(1) have x: "waiting x c" "s \<in> {Negotiating, Ringing}" by (auto simp: setup_core_def)
    obtain oc c1 where r: "run_exchange (ex_perform (offer_answer_actions E) ExStop) c = (oc, c1)" by fastforce
    note eff = run_exchange_effect [OF Some x(1) r]
    from ctrl_eqD(13) [OF eff(1)] have "cs_failure_reason c1 = cs_failure_reason c" by simp
    moreover have "stop_and_release E c = c1\<lparr>cs_exchange := None\<rparr>"
      using Some r by (simp add: stop_and_release_def release_exchange_def)
    ultimately show ?thesis using slot_emptied [OF assms(1) eff(1,2,3)] x(2) by auto
  qed
  then show "setup_core sink s (stop_and_release E c)" "cs_failure_reason (stop_and_release E c) = cs_failure_reason c"
    by simp_all
qed

lemma end_both_core [simp]:
  "setup_core sink s (end_both E code c) = setup_core sink s c" "cs_exchange (end_both E code c) = cs_exchange c"
  "cs_failure_reason (end_both E code c) = cs_failure_reason c"
  by (simp_all add: end_both_def Let_def setup_core_pj)

lemma ending_core:
  assumes "setup_core sink s c" and "s \<in> {Routing, Negotiating, Ringing, Cancelling}" and "s' \<in> {Cancelling, SuFailed}" and "r \<noteq> []"
  shows "setup_core sink s' (end_both E code (stop_and_release E (note_failure kFailed_status r c)))"
    "cs_exchange (end_both E code (stop_and_release E (note_failure kFailed_status r c))) = None"
proof -
  have "setup_core sink s (note_failure kFailed_status r c)" using assms(1,2) by (intro note_failure_core) auto
  note stop = stop_core [OF this assms(2), of E]
  then show "setup_core sink s' (end_both E code (stop_and_release E (note_failure kFailed_status r c)))"
      "cs_exchange (end_both E code (stop_and_release E (note_failure kFailed_status r c))) = None"
    using setup_core_moves(3) [OF stop(1) _ stop(2), of s'] assms by auto
qed

lemma progress_core:
  assumes "setup_core sink s c" and "s \<in> {Negotiating, Ringing}" and "cs_exchange c = Some x"
  shows "setup_core sink Ringing (do_report_progress E code early c) \<and> cs_exchange (do_report_progress E code early c) = Some x"
proof -
  have ring: "setup_core sink Ringing c" using assms(1,2) setup_core_moves(2) by auto
  have w: "waiting x c" using assms(1,3) by (auto simp: setup_core_def)
  have relayed: "setup_core sink Ringing ((mark_early_media_relayed E d)\<lparr>cs_last_relayed_status_code := n\<rparr>)"
      "cs_exchange ((mark_early_media_relayed E d)\<lparr>cs_last_relayed_status_code := n\<rparr>) = Some x"
    if d: "d = c\<lparr>cs_pj := p\<rparr>" and held: "oa_held_caller_answer (cs_oa c) = Some a" for d p a n
  proof -
    let ?e = "(mark_early_media_relayed E d)\<lparr>cs_last_relayed_status_code := n\<rparr>"
    have same: "ctrl ?e = ctrl c"
      by (simp add: d mark_early_media_relayed_def start_bridge_loop_def post_bridge_def)
    then show ex: "cs_exchange ?e = Some x" using ctrl_eqD [OF same] assms(3) by simp
    have "ex_state x \<notin> {OaIdle, AwaitingAnswer}" using w held by (auto simp: waiting_def oa_ok_def)
    then have "waiting x ?e" "tasks_ok ?e" "CloseTask \<notin> set (cs_bridge_posts ?e)"
      using w by (auto simp: waiting_def oa_ok_def d mark_early_media_relayed_def start_bridge_loop_def post_bridge_def)
    moreover have "ctrl (?e\<lparr>cs_exchange := None\<rparr>) = ctrl (c\<lparr>cs_exchange := None\<rparr>)" using same by (simp add: ctrl_def)
    ultimately show "setup_core sink Ringing ?e" using slot_kept [OF ring, of ?e x] ex by simp
  qed
  have pj: "setup_core sink Ringing (c\<lparr>cs_pj := p\<rparr>)" for p using ring by (simp add: setup_core_pj)
  have status: "setup_core sink Ringing ((answer_caller E n c)\<lparr>cs_last_relayed_status_code := n\<rparr>)" for n
    using ring by (subst setup_core_cong [of _ c]) simp_all
  have slot: "cs_exchange ((answer_caller E n c)\<lparr>cs_last_relayed_status_code := n\<rparr>) = Some x" for n
    using ctrl_eqD(6) [OF answer_caller_effect(1), of E n c] assms(3) by simp
  show ?thesis
  proof (cases "if early then held_answer c else None")
    case None
    then show ?thesis using status slot by (simp add: do_report_progress_def Let_def)
  next
    case (Some a)
    then have held: "oa_held_caller_answer (cs_oa c) = Some a" by (auto simp: held_answer_def split: if_splits)
    obtain ok p where "inv_answer (en_pjsip E) (lg_inv (cs_caller c)) 183 (Some a) (cs_pj c) = (ok, p)" by fastforce
    with Some have "do_report_progress E code early c =
        (if ok then (mark_early_media_relayed E (c\<lparr>cs_pj := p\<rparr>))\<lparr>cs_last_relayed_status_code := 183\<rparr> else c\<lparr>cs_pj := p\<rparr>)"
      by (simp add: do_report_progress_def with_pj_def Let_def)
    with relayed [OF refl held, where p = p and n = 183] pj [of p] assms(3) show ?thesis by simp
  qed
qed

lemma establish_call_eq:
  "do_establish_call E c = c\<lparr>cs_answered_at := Some (en_now E),
     cs_call_events := cs_call_events c @ (if en_has_event_sink E then [CallUpdated (cs_call_id c) (cs_outbound_destination c)
        (map_option ac_name (lg_codec (cs_caller c))) (en_wall_clock E)] else []),
     cs_manager_ops := cs_manager_ops c @ setup_requests Established c\<rparr>"
  by (simp add: do_establish_call_def report_call_answered_def send_call_updated_def send_event_def setup_requests_def Let_def
      split: option.split)

lemma establish_core:
  assumes "setup_core sink s c" and "s \<in> {Negotiating, Ringing}" and "cs_exchange c = None" and "en_has_event_sink E = sink"
  shows "setup_core sink Established (do_establish_call E c)" "cs_exchange (do_establish_call E c) = None"
proof -
  show "cs_exchange (do_establish_call E c) = None" using assms(3) by (simp add: establish_call_eq)
  have "setup_requests s c = []" "\<And>evs. setup_reports s c evs \<longleftrightarrow> (\<exists>t. evs = [call_started c t])"
    using assms(2) by (auto simp: setup_requests_def setup_reports_def)
  moreover have "setup_requests Established (do_establish_call E c) = setup_requests Established c"
    "\<And>t. call_started (do_establish_call E c) t = call_started c t"
    "cs_call_id (do_establish_call E c) = cs_call_id c"
    by (simp_all add: establish_call_eq setup_requests_def call_started_def)
  ultimately show "setup_core sink Established (do_establish_call E c)"
    using assms unfolding setup_core_def setup_reports_def by (auto simp: establish_call_eq)
qed

lemma setup_cleanup_eq:
  assumes "\<not> cs_terminated_reported c" and "cs_answered_at c = None" and "cs_failure_reason c \<noteq> []"
  shows "do_setup_cleanup E c = c\<lparr>cs_terminated_reported := True, cs_hold_started_at := None,
     cs_call_events := cs_call_events c @ (if en_has_event_sink E then [CallTerminated (cs_call_id c) (cs_failure_status c)
        (Some (cs_failure_reason c)) (en_wall_clock E) None] else []),
     cs_bridge_posts := cs_bridge_posts c @ [CloseTask], cs_manager_ops := cs_manager_ops c @ [ScheduleRemove (cs_call_id c)]\<rparr>"
  using assms by (simp add: do_setup_cleanup_def report_call_terminated_def send_event_def post_bridge_def Let_def)

lemma cleanup_core:
  assumes "setup_core sink SuFailed c" and "en_has_event_sink E = sink"
  shows "setup_core sink SuDone (do_setup_cleanup E c)" "cs_exchange (do_setup_cleanup E c) = None"
proof -
  have core: "\<not> cs_terminated_reported c" "cs_answered_at c = None" "cs_failure_reason c \<noteq> []" "cs_exchange c = None"
    using assms(1) by (auto simp: setup_core_def)
  note eq = setup_cleanup_eq [OF core(1-3), of E]
  show "cs_exchange (do_setup_cleanup E c) = None" using core(4) by (simp add: eq)
  have "\<And>t. call_started (do_setup_cleanup E c) t = call_started c t" "cs_call_id (do_setup_cleanup E c) = cs_call_id c"
      "cs_failure_status (do_setup_cleanup E c) = cs_failure_status c"
      "cs_failure_reason (do_setup_cleanup E c) = cs_failure_reason c"
    by (simp_all add: eq call_started_def)
  then show "setup_core sink SuDone (do_setup_cleanup E c)"
    using assms core unfolding setup_core_def setup_reports_def setup_requests_def by (auto simp: eq)
qed

subsection \<open>The machine keeps it\<close>

lemma setup_actions_select [simp]:
  "begin_setup (setup_actions_of E) = do_begin_setup E" "route_failed (setup_actions_of E) = do_route_failed E"
  "routing_loop_detected (setup_actions_of E) = do_routing_loop_detected E"
  "codec_mismatch_detected (setup_actions_of E) = do_codec_mismatch_detected E"
  "start_exchange (setup_actions_of E) = do_start_exchange E" "report_progress (setup_actions_of E) = do_report_progress E"
  "is_new_progress (setup_actions_of E) = do_is_new_progress" "cancel_call (setup_actions_of E) = do_cancel_call E"
  "establish_call (setup_actions_of E) = do_establish_call E" "su_terminate_call (setup_actions_of E) = do_terminate_setup E"
  "su_cleanup (setup_actions_of E) = do_setup_cleanup E" "snd (resolve_route (setup_actions_of E) c) = c"
  by (simp_all add: setup_actions_of_def)

lemma refuse_core:
  assumes "setup_core sink Routing c" and "r \<noteq> []"
  shows "setup_core sink SuFailed (do_terminate_setup E (answer_caller E code (note_failure st r c)))"
    "cs_exchange (do_terminate_setup E (answer_caller E code (note_failure st r c))) = None"
  using ending_core [of sink Routing "answer_caller E code (note_failure st r c)" SuFailed "''call setup failed''" E 408]
    note_failure_core [OF assms(1), of st r] by (simp_all add: do_terminate_setup_def)

lemma settle_core:
  assumes "setup_dispatching sink s c [SuExchangeFinished oc]" and "s \<in> {Negotiating, Ringing}" and "oc \<noteq> OPending"
    and "en_has_event_sink E = sink"
  shows "oc = OCommitted \<Longrightarrow> setup_core sink Established (do_establish_call E c) \<and> cs_exchange (do_establish_call E c) = None"
    "setup_core sink SuFailed (do_terminate_setup E c)" "cs_exchange (do_terminate_setup E c) = None"
  using assms establish_core [of sink s c E] ending_core [of sink s c SuFailed "''call setup failed''" E 408]
  by (auto simp: setup_dispatching_def do_terminate_setup_def)

lemma setup_step_idle:
  assumes "setup_dispatching sink SuIdle c (e # q)" and "setup_table (setup_actions_of E) SuIdle e c = Some (s', es, c')"
    and "en_has_event_sink E = sink"
  shows "setup_dispatching sink s' c' (q @ es)"
proof -
  have core: "setup_core sink Routing (do_begin_setup E c)"
    using assms(1,3) by (intro begin_core) (simp_all add: setup_dispatching_def)
  then have "cs_exchange (do_begin_setup E c) = None" by (cases "cs_exchange (do_begin_setup E c)") (auto simp: setup_core_def)
  with core assms(1,2) show ?thesis
    by (cases e) (auto simp: su_begin_def setup_dispatching_def setup_pending_def setup_actions_of_def Let_def
        split: route_kind.splits prod.splits)
qed

lemma setup_step_routing:
  assumes "setup_dispatching sink Routing c (e # q)" and "setup_table (setup_actions_of E) Routing e c = Some (s', es, c')"
  shows "setup_dispatching sink s' c' (q @ es)"
proof -
  have core: "setup_core sink Routing c" "q = []"
    using assms(1) by (auto simp: setup_dispatching_def setup_pending_def)
  note refused = refuse_core [OF core(1), of _ E]
  show ?thesis
  proof (cases e)
    case (RouteFound d k)
    obtain oc c1 where st: "do_start_exchange E d k c = (oc, c1)" by fastforce
    from start_exchange_core [OF core(1) st] st assms(2) RouteFound core(2) show ?thesis
      by (auto simp: su_start_def setup_dispatching_def setup_pending_def split: if_splits)
  qed (use assms(2) core(2) refused in \<open>auto simp: su_route_failed_def su_loop_def su_codec_mismatch_def do_route_failed_def
      do_routing_loop_detected_def do_codec_mismatch_detected_def setup_dispatching_def setup_pending_def\<close>)
qed

lemma cancel_core:
  assumes "setup_core sink s c" and "s \<in> {Negotiating, Ringing, Cancelling}"
  shows "setup_core sink Cancelling (snd (do_cancel_call E c))" "cs_exchange (snd (do_cancel_call E c)) = None"
    "fst (do_cancel_call E c) \<longleftrightarrow> is_gone (en_pjsip E) (lg_inv (cs_callee (snd (do_cancel_call E c)))) (cs_pj (snd (do_cancel_call E c)))"
  using ending_core [OF assms(1), of Cancelling "''caller cancelled the call''" E 487] assms(2)
  by (auto simp: do_cancel_call_def Let_def)

lemma setup_step_negotiating:
  assumes "setup_dispatching sink s c (e # q)" and "setup_table (setup_actions_of E) s e c = Some (s', es, c')"
    and "en_has_event_sink E = sink" and s: "s \<in> {Negotiating, Ringing}"
  shows "setup_dispatching sink s' c' (q @ es)"
proof -
  have core: "setup_core sink s c" "q = []" using assms(1) by (auto simp: setup_dispatching_def setup_pending_def)
  show ?thesis
  proof (cases e)
    case (ProgressReceived code early)
    then obtain x where x: "cs_exchange c = Some x" using assms(1) s by (auto simp: setup_dispatching_def)
    note prog = progress_core [OF core(1) s x, of E code early]
    have "setup_core sink Ringing c" using core(1) s setup_core_moves(2) by auto
    with prog x assms(2) ProgressReceived core(2) s show ?thesis
      by (auto simp: setup_dispatching_def setup_pending_def split: if_splits)
  next
    case (SuExchangeFinished oc)
    then have "oc \<noteq> OPending" using assms(2) s by auto
    note settled = settle_core [OF assms(1) [unfolded SuExchangeFinished core(2)] s this assms(3)]
    show ?thesis using settled assms(2) SuExchangeFinished core(2) s
      by (auto simp: su_failed_def setup_dispatching_def setup_pending_def split: if_splits)
  next
    case CancelRequested
    obtain b c1 where c1: "do_cancel_call E c = (b, c1)" by fastforce
    have "setup_core sink Cancelling c1" "cs_exchange c1 = None"
      using cancel_core [OF core(1), of E] s by (auto simp: c1)
    with c1 assms(2) CancelRequested core(2) s show ?thesis
      by (auto simp: su_cancel_def setup_dispatching_def setup_pending_def split: if_splits)
  qed (use assms(2) s in auto)
qed

lemma setup_step_cancelling:
  assumes "setup_dispatching sink Cancelling c (e # q)" and "setup_table (setup_actions_of E) Cancelling e c = Some (s', es, c')"
  shows "setup_dispatching sink s' c' (q @ es)"
proof -
  have core: "setup_core sink Cancelling c" "q = []" "cs_failure_reason c \<noteq> []" "cs_exchange c = None"
    using assms(1) by (cases "cs_exchange c"; auto simp: setup_dispatching_def setup_pending_def setup_core_def)+
  obtain b c1 where c1: "do_cancel_call E c = (b, c1)" by fastforce
  have "setup_core sink Cancelling c1" "cs_exchange c1 = None"
    using cancel_core [OF core(1), of E] by (auto simp: c1)
  moreover have "setup_core sink SuFailed (do_terminate_setup E c)" "cs_exchange (do_terminate_setup E c) = None"
    using ending_core [OF core(1), of SuFailed "''call setup failed''" E 408] by (auto simp: do_terminate_setup_def)
  moreover have "setup_core sink SuFailed c" using setup_core_moves(3) [OF core(1) _ core(4,3)] by simp
  ultimately show ?thesis using assms(2) c1 core
    by (cases e) (auto simp: su_cancel_def su_failed_def setup_dispatching_def setup_pending_def split: if_splits)
qed

lemma setup_step:
  assumes "setup_dispatching sink s c (e # q)" and "setup_table (setup_actions_of E) s e c = Some (s', es, c')"
    and "en_has_event_sink E = sink"
  shows "setup_dispatching sink s' c' (q @ es)"
proof (cases s)
  case SuFailed
  with assms cleanup_core [of sink c E] show ?thesis
    by (cases e) (auto simp: setup_dispatching_def setup_pending_def)
next
  case SuIdle
  show ?thesis by (rule setup_step_idle [OF assms [unfolded SuIdle]])
next
  case Routing
  show ?thesis by (rule setup_step_routing [OF assms(1,2) [unfolded Routing]])
next
  case Cancelling
  show ?thesis by (rule setup_step_cancelling [OF assms(1,2) [unfolded Cancelling]])
qed (use setup_step_negotiating [OF assms] assms(2) in simp_all)

lemma setup_step_unhandled:
  assumes "setup_dispatching sink s c (e # q)" and "setup_table (setup_actions_of E) s e c = None"
  shows "setup_dispatching sink s c q"
proof -
  have "setup_pending s q" using setup_unhandled assms by (fastforce simp: setup_dispatching_def)
  moreover have "\<not> (s \<in> {Negotiating, Ringing} \<and> cs_exchange c = None)"
  proof
    assume s: "s \<in> {Negotiating, Ringing} \<and> cs_exchange c = None"
    with assms(1) obtain oc where "e = SuExchangeFinished oc" "oc \<noteq> OPending" by (auto simp: setup_dispatching_def)
    with assms(2) s show False by (cases oc) auto
  qed
  moreover have "s \<noteq> SuIdle" using assms by (auto simp: setup_dispatching_def su_begin_def)
  ultimately show ?thesis using assms(1) by (auto simp: setup_dispatching_def)
qed

text \<open>A call at rest in setup, and what one event does to it.\<close>

definition setup_resting :: "bool \<Rightarrow> 'p call \<Rightarrow> bool" where
  "setup_resting sink c \<longleftrightarrow> \<not> rn_processing (cs_setup c) \<and> setup_stable (rn_state (cs_setup c)) \<and> rn_state (cs_setup c) \<noteq> SuIdle \<and>
     setup_core sink (rn_state (cs_setup c)) c \<and>
     (rn_state (cs_setup c) \<in> {Negotiating, Ringing} \<longrightarrow> cs_exchange c \<noteq> None)"

lemma setup_dispatch_rests:
  assumes "setup_dispatching sink (rn_state (cs_setup c)) c [e]" and "\<not> rn_processing (cs_setup c)" and "en_has_event_sink E = sink"
  shows "\<exists>c'. setup_dispatch E e c = Some c' \<and> setup_resting sink c'"
proof -
  let ?T = "setup_table (setup_actions_of E)"
  have "\<exists>s' d h. sml_process_event ?T (rn_state (cs_setup c)) c e = Some (s', d, h) \<and> setup_dispatching sink s' d []"
  proof (rule su.dispatch_rule)
    show "setup_dispatching sink (rn_state (cs_setup c)) c [e]" by (rule assms(1))
  qed (use setup_step_unhandled [of sink _ _ _ _ E] setup_step [OF _ _ assms(3)] in blast)+
  then obtain s' d h where d: "sml_process_event ?T (rn_state (cs_setup c)) c e = Some (s', d, h)" "setup_dispatching sink s' d []"
    by blast
  let ?r = "(cs_setup c)\<lparr>rn_state := s', rn_processing := False\<rparr>"
  have "setup_dispatch E e c = Some (d\<lparr>cs_setup := ?r\<rparr>)"
    using d(1) by (simp add: setup_dispatch_def process_event_def)
  moreover have "setup_core sink s' (d\<lparr>cs_setup := ?r\<rparr>) = setup_core sink s' d"
  proof -
    have "waiting x (d\<lparr>cs_setup := ?r\<rparr>) = waiting x d" for x by (simp add: waiting_def oa_ok_def)
    moreover have "setup_reports s' (d\<lparr>cs_setup := ?r\<rparr>) = setup_reports s' d" "setup_requests s' (d\<lparr>cs_setup := ?r\<rparr>) = setup_requests s' d"
      by (cases s'; simp add: setup_reports_def setup_requests_def call_started_def fun_eq_iff)+
    ultimately show ?thesis by (simp add: setup_core_def)
  qed
  ultimately show ?thesis
    using d(2) by (fastforce simp: setup_resting_def setup_dispatching_def setup_pending_def setup_stable_def)
qed

lemma resting_dispatching:
  assumes "setup_resting sink c" and "e \<noteq> SuExchangeFinished OCommitted"
  shows "setup_dispatching sink (rn_state (cs_setup c)) c [e]" "\<not> rn_processing (cs_setup c)"
  using assms by (auto simp: setup_resting_def setup_dispatching_def setup_pending_def setup_stable_def)

subsection \<open>Callbacks keep a call at rest\<close>

lemma dispatch_rests:
  assumes "setup_resting sink c" and "e \<noteq> SuExchangeFinished OCommitted" and "en_has_event_sink E = sink"
  shows "\<exists>c'. setup_dispatch E e c = Some c' \<and> setup_resting sink c'"
  using setup_dispatch_rests [OF resting_dispatching [OF assms(1,2)] assms(3)] .

lemma resting_pj: "setup_resting sink (c\<lparr>cs_pj := p\<rparr>) = setup_resting sink c"
  by (simp add: setup_resting_def setup_core_pj)

lemma resting_note_failure:
  "setup_resting sink c \<Longrightarrow> rn_state (cs_setup c) \<noteq> SuDone \<Longrightarrow> setup_resting sink (note_failure st r c)"
  by (simp add: setup_resting_def note_failure_core)

lemma exchange_op_rests:
  assumes "setup_resting sink c" and "cs_exchange c \<noteq> None" and "en_has_event_sink E = sink"
  shows "\<exists>c'. finish_exchange E (run_exchange (ex_perform (offer_answer_actions E) p) c) = Some c' \<and> setup_resting sink c'"
proof -
  let ?s = "rn_state (cs_setup c)"
  from assms(2) obtain x where x: "cs_exchange c = Some x" by blast
  have core: "setup_core sink ?s c" "?s \<in> {Negotiating, Ringing}" "waiting x c"
    using assms(1) x by (auto simp: setup_resting_def setup_core_def)
  obtain oc c1 where r: "run_exchange (ex_perform (offer_answer_actions E) p) c = (oc, c1)" by fastforce
  note eff = run_exchange_effect [OF x core(3) r]
  from ctrl_eqD(4) [OF eff(1)] have same: "cs_setup c1 = cs_setup c" by simp
  show ?thesis
  proof (cases "oc = OPending")
    case True
    with eff(4) obtain x' where x': "cs_exchange c1 = Some x'" "waiting x' c1" by blast
    have "setup_core sink ?s c1" by (rule slot_kept [OF core(1) eff(1,2,3) core(2) x'])
    then show ?thesis using True r same x'(1) assms(1) by (auto simp: finish_exchange_def setup_resting_def)
  next
    case False
    have "setup_core sink ?s (release_exchange c1)"
      using slot_emptied [OF core(1) eff(1,2,3)] core(2) by (auto simp: release_exchange_def)
    then have "setup_dispatching sink (rn_state (cs_setup (release_exchange c1))) (release_exchange c1) [SuExchangeFinished oc]"
      using False same assms(1) by (auto simp: setup_dispatching_def setup_pending_def setup_resting_def setup_stable_def release_exchange_def)
    moreover have "\<not> rn_processing (cs_setup (release_exchange c1))"
      using assms(1) same by (simp add: setup_resting_def release_exchange_def)
    ultimately show ?thesis
      using setup_dispatch_rests [of sink "release_exchange c1"] assms(3) False r by (simp add: finish_exchange_def)
  qed
qed

lemmas exchange_ops_rest =
  exchange_op_rests [where p = "ExReceiveAnswer _", simplified] exchange_op_rests [where p = "ExReceiveEarlyAnswer _", simplified]
  exchange_op_rests [where p = "ExReject _", simplified] exchange_op_rests [where p = ExAnswerTimeout, simplified]
  exchange_op_rests [where p = ExConfirm, simplified] exchange_op_rests [where p = ExConfirmationTimeout, simplified]

lemma handle_early_rests:
  assumes "setup_resting sink c" and "en_has_event_sink E = sink"
  shows "\<exists>c'. handle_early E rdata c = Some c' \<and> setup_resting sink c'"
proof (cases "cs_exchange c \<noteq> None \<and> extract_sdp rdata \<noteq> []")
  case True
  then obtain c1 where "finish_exchange E (run_exchange (receive_early_answer (offer_answer_actions E) (extract_sdp rdata)) c) = Some c1"
      "setup_resting sink c1"
    using exchange_ops_rest(2) [OF assms(1) _ assms(2)] by blast
  with True show ?thesis
    using dispatch_rests [of sink c1 "ProgressReceived (extract_status_code rdata) (held_answer c1 \<noteq> None)" E] assms(2)
    by (simp add: handle_early_def)
next
  case False
  then show ?thesis
    using dispatch_rests [OF assms(1) _ assms(2), of "ProgressReceived (extract_status_code rdata) False"]
    by (auto simp: handle_early_def)
qed

lemma handle_disconnect_rests:
  assumes "setup_resting sink c" and "en_has_event_sink E = sink" and "rn_state (cs_setup c) \<noteq> SuDone"
  shows "\<exists>c'. handle_disconnect E i c = Some c' \<and> setup_resting sink c'"
proof -
  have failed: "setup_resting sink (fail_setup r c)" "cs_exchange (fail_setup r c) = cs_exchange c" for r
    using resting_note_failure [OF assms(1,3)] by (simp_all add: fail_setup_def)
  have ops: "\<exists>c'. finish_exchange E (run_exchange (ex_perform (offer_answer_actions E) p) (fail_setup r c)) = Some c' \<and>
      setup_resting sink c'" if "cs_exchange c \<noteq> None" for p r
    using exchange_op_rests [OF failed(1) _ assms(2)] failed(2) that by simp
  note ops = ops [of ExConfirmationTimeout, simplified] ops [of ExAnswerTimeout, simplified] ops [of "ExReject _", simplified]
  note dispatch = dispatch_rests [OF assms(1) _ assms(2)]
  show ?thesis
    using ops dispatch [of CancellationCompleted] dispatch [of "SuExchangeFinished OFailed"] dispatch [of CancelRequested]
      failed assms(1) unfolding handle_disconnect_def Let_def
    by (simp split: option.split)
qed

lemma callback_rests:
  assumes "setup_resting sink c" and "en_has_event_sink E = sink"
  shows "\<exists>c'. setup_on_leg_state_changed E i rdata c = Some c' \<and> setup_resting sink c'"
  using assms(1) handle_early_rests [OF assms] handle_disconnect_rests [OF assms]
    exchange_ops_rest(1,5) [OF assms(1) _ assms(2)] dispatch_rests [OF assms(1) _ assms(2), of CancelRequested]
  unfolding setup_on_leg_state_changed_def Let_def
  by (auto simp: is_in_def split: inv_state.split)

subsection \<open>The life of a call in setup\<close>

text \<open>\<^verbatim>\<open>MessageRouter::process_invite\<close> starts the machine and then lets go of the request; from then on the
  stack calls back, with any session and message and in any state.\<close>

definition start_setup :: "('p, 'st) engine_env \<Rightarrow> 'p call \<Rightarrow> 'p call option" where
  "start_setup E c = do { c' \<leftarrow> setup_dispatch E Requested c; Some (c'\<lparr>cs_current_rdata := None\<rparr>) }"

type_synonym ('p, 'st) leg_callback = "('p, 'st) engine_env \<times> inv \<times> rx_data option \<times> 'p"

fun run_callbacks :: "('p, 'st) leg_callback list \<Rightarrow> 'p call \<Rightarrow> 'p call option" where
  "run_callbacks [] c = Some c"
| "run_callbacks ((E, i, rdata, p) # cbs) c = do {
     c' \<leftarrow> setup_on_leg_state_changed E i rdata (c\<lparr>cs_pj := p\<rparr>);
     run_callbacks cbs c' }"

lemma run_callbacks_rests:
  assumes "setup_resting sink c" and "\<forall>(E, _) \<in> set cbs. en_has_event_sink E = sink"
  shows "\<exists>c'. run_callbacks cbs c = Some c' \<and> setup_resting sink c'"
  using assms
proof (induction cbs arbitrary: c)
  case (Cons cb cbs)
  obtain E i rdata p where cb: "cb = (E, i, rdata, p)" by (cases cb)
  from callback_rests [of sink "c\<lparr>cs_pj := p\<rparr>" E i rdata] Cons.prems cb obtain c1 where
    "setup_on_leg_state_changed E i rdata (c\<lparr>cs_pj := p\<rparr>) = Some c1" "setup_resting sink c1"
    by (auto simp: resting_pj)
  with Cons cb show ?case by simp
qed simp

lemma start_setup_rests:
  assumes "c = (new_call call_id rdata now p)\<lparr>cs_replacement_target := r, cs_caller := l\<rparr>"
  shows "\<exists>c'. start_setup E c = Some c' \<and> setup_resting (en_has_event_sink E) c'"
proof -
  have "setup_dispatching (en_has_event_sink E) (rn_state (cs_setup c)) c [Requested]" "\<not> rn_processing (cs_setup c)"
    by (simp_all add: assms new_call_def new_runner_def setup_dispatching_def setup_pending_def setup_core_def setup_reports_def
        setup_requests_def)
  from setup_dispatch_rests [OF this refl] obtain c' where "setup_dispatch E Requested c = Some c'" "setup_resting (en_has_event_sink E) c'"
    by blast
  moreover have "setup_core sink s (c'\<lparr>cs_current_rdata := None\<rparr>) = setup_core sink s c'" for sink s
    by (rule setup_core_cong) simp_all
  ultimately show ?thesis by (simp add: start_setup_def setup_resting_def)
qed



subsection \<open>A leg that is gone\<close>

lemma dispatch_state:
  "setup_dispatch E e c = Some c' \<Longrightarrow>
     \<exists>d h. sml_process_event (setup_table (setup_actions_of E)) (rn_state (cs_setup c)) c e = Some (rn_state (cs_setup c'), d, h)"
  by (auto simp: setup_dispatch_def process_event_def Let_def split: bind_splits option.splits)

lemma dispatch_ends:
  assumes "setup_dispatch E e c = Some c'" and "rn_state (cs_setup c) \<in> {Negotiating, Ringing, Cancelling}"
    and "e = CancellationCompleted \<and> rn_state (cs_setup c) = Cancelling \<or>
         e = SuExchangeFinished OFailed \<or> e = SuExchangeFinished ORolledBack \<and> rn_state (cs_setup c) \<noteq> Cancelling"
  shows "rn_state (cs_setup c') = SuDone"
  using dispatch_state [OF assms(1)] assms(2,3)
  by (auto simp: sml_process_event_def process_queued_events_Cons su_failed_def)

lemma dispatch_cancels:
  assumes "setup_dispatch E CancelRequested c = Some c'" and "rn_state (cs_setup c) \<in> {Negotiating, Ringing, Cancelling}"
  shows "rn_state (cs_setup c') \<in> {Cancelling, SuDone}"
  using dispatch_state [OF assms(1)] assms(2)
  by (auto simp: sml_process_event_def process_queued_events_Cons su_cancel_def split: prod.splits if_splits)

text \<open>The operations a disconnect asks of the exchange settle it.\<close>

lemma exchange_settles:
  assumes "waiting x c" and "cs_exchange c = Some x" and "run_exchange (ex_perform A p) c = (oc, c')"
    and "ex_state x = AwaitingAck \<and> p = ExConfirmationTimeout \<or> ex_state x \<noteq> AwaitingAck \<and> (p = ExAnswerTimeout \<or> (\<exists>n. p = ExReject n))"
  shows "oc \<in> {ORolledBack, OFailed}"
proof -
  have "ex_state x \<in> {AwaitingAnswer, AnswerHeld, AwaitingAck}" using assms(1) by (auto simp: waiting_def ex_resting_def)
  with assms(2-4) show ?thesis
    by (auto simp: run_exchange_def ex_op_defs ex_dispatch_table finish_operation_def is_in_def Let_def)
qed

lemma settled_exchange_ends:
  assumes "setup_resting sink c" and "cs_exchange c = Some x" and "en_has_event_sink E = sink"
    and "ex_state x = AwaitingAck \<and> p = ExConfirmationTimeout \<or> ex_state x \<noteq> AwaitingAck \<and> (p = ExAnswerTimeout \<or> (\<exists>n. p = ExReject n))"
  shows "\<exists>c'. finish_exchange E (run_exchange (ex_perform (offer_answer_actions E) p) c) = Some c' \<and> rn_state (cs_setup c') = SuDone"
proof -
  have w: "waiting x c" "rn_state (cs_setup c) \<in> {Negotiating, Ringing}"
    using assms(1,2) by (auto simp: setup_resting_def setup_core_def)
  obtain oc c1 where r: "run_exchange (ex_perform (offer_answer_actions E) p) c = (oc, c1)" by fastforce
  have oc: "oc \<in> {ORolledBack, OFailed}" by (rule exchange_settles [OF w(1) assms(2) r assms(4)])
  have "cs_setup c1 = cs_setup c" using ctrl_eqD(4) [OF run_exchange_effect(1) [OF assms(2) w(1) r]] by simp
  then have st: "rn_state (cs_setup (release_exchange c1)) \<in> {Negotiating, Ringing}" using w(2) by (simp add: release_exchange_def)
  from exchange_op_rests [OF assms(1) _ assms(3), of p] assms(2) r oc obtain c' where
    c': "setup_dispatch E (SuExchangeFinished oc) (release_exchange c1) = Some c'" by (auto simp: finish_exchange_def)
  have "rn_state (cs_setup c') = SuDone" using dispatch_ends [OF c'] st oc by auto
  with c' r oc show ?thesis by (auto simp: finish_exchange_def)
qed

lemma handle_disconnect_ends:
  assumes "setup_resting sink c" and "en_has_event_sink E = sink" and "rn_state (cs_setup c) \<notin> {Established, SuDone}"
  shows "\<exists>c'. handle_disconnect E i c = Some c' \<and>
    (if leg_for i c = Callee then rn_state (cs_setup c') = SuDone else rn_state (cs_setup c') \<in> {Cancelling, SuDone})"
proof -
  have st: "rn_state (cs_setup c) \<in> {Negotiating, Ringing, Cancelling}"
    using assms(1,3) by (cases "rn_state (cs_setup c)") (auto simp: setup_resting_def setup_stable_def)
  note rests = dispatch_rests [OF assms(1) _ assms(2)]
  obtain d1 where d1: "setup_dispatch E CancellationCompleted c = Some d1" using rests [of CancellationCompleted] by auto
  obtain d2 where d2: "setup_dispatch E (SuExchangeFinished OFailed) c = Some d2" using rests [of "SuExchangeFinished OFailed"] by auto
  obtain d3 where d3: "setup_dispatch E CancelRequested c = Some d3" using rests [of CancelRequested] by auto
  have ends: "rn_state (cs_setup c) = Cancelling \<Longrightarrow> rn_state (cs_setup d1) = SuDone" "rn_state (cs_setup d2) = SuDone"
      "rn_state (cs_setup d3) \<in> {Cancelling, SuDone}"
    using dispatch_ends [OF d1] dispatch_ends [OF d2] dispatch_cancels [OF d3] st by auto
  show ?thesis
  proof (cases "rn_state (cs_setup c) = Cancelling")
    case True
    then show ?thesis using ends(1) d1 by (auto simp: handle_disconnect_def is_in_def Let_def)
  next
    case False
    then obtain x where x: "cs_exchange c = Some x" using st assms(1) by (auto simp: setup_resting_def)
    have failed: "setup_resting sink (fail_setup r c)" "cs_exchange (fail_setup r c) = Some x" for r
      using resting_note_failure [OF assms(1)] assms(3) x by (simp_all add: fail_setup_def)
    note op = settled_exchange_ends [OF failed assms(2)]
    have "\<exists>c'. finish_exchange E (run_exchange (ex_confirmation_timeout (offer_answer_actions E)) (fail_setup r c)) = Some c' \<and>
        (rn_state (cs_setup c') = Cancelling \<or> rn_state (cs_setup c') = SuDone)" if "ex_state x = AwaitingAck" for r
      using op [of ExConfirmationTimeout] that by fastforce
    then show ?thesis
      using False x failed(2) d2 d3 ends(2,3) op [of ExAnswerTimeout] op [of "ExReject _"]
      by (auto simp: handle_disconnect_def is_in_def awaiting_confirmation_def Let_def)
  qed
qed

text \<open>No call is left behind in setup. Whenever a callback reports that a leg of a call that is not yet established has
  disconnected, for whatever cause, the callback returns with the setup over if it is the callee's leg; if it is
  the caller's leg the setup is over or cancelling, that is, waiting only for the callee's leg to end.\<close>

theorem setup_ends_with_its_legs:
  assumes "\<forall>(E', _) \<in> set cbs. en_has_event_sink E' = en_has_event_sink E"
    and "(start_setup E ((new_call call_id rdata now p)\<lparr>cs_replacement_target := r, cs_caller := l\<rparr>) \<bind> run_callbacks cbs) = Some c"
    and "rn_state (cs_setup c) \<notin> {Established, SuDone}"
    and "pj_state (en_pjsip E') i p' = InvDisconnected" and "en_has_event_sink E' = en_has_event_sink E"
  shows "\<exists>c'. setup_on_leg_state_changed E' i rdata' (c\<lparr>cs_pj := p'\<rparr>) = Some c' \<and>
    (if leg_for i c = Callee then rn_state (cs_setup c') = SuDone else rn_state (cs_setup c') \<in> {Cancelling, SuDone})"
proof -
  let ?c = "c\<lparr>cs_pj := p'\<rparr>"
  obtain c1 where c1: "start_setup E ((new_call call_id rdata now p)\<lparr>cs_replacement_target := r, cs_caller := l\<rparr>) = Some c1"
      "setup_resting (en_has_event_sink E) c1"
    using start_setup_rests [OF refl, where E = E] by blast
  with run_callbacks_rests [OF c1(2) assms(1)] assms(2) have rest: "setup_resting (en_has_event_sink E) ?c" by (auto simp: resting_pj)
  then have "\<not> rn_processing (cs_setup ?c)" "\<And>x. cs_exchange ?c = Some x \<Longrightarrow> \<not> ex_processing x"
    by (auto simp: setup_resting_def setup_core_def waiting_def ex_resting_def)
  then have "setup_on_leg_state_changed E' i rdata' ?c = handle_disconnect E' i ?c"
    using assms(3,4) by (auto simp: setup_on_leg_state_changed_def is_processing_def is_in_def Let_def split: option.split)
  moreover have "leg_for i ?c = leg_for i c" by (simp add: leg_for_def)
  ultimately show ?thesis using handle_disconnect_ends [OF rest assms(5), of i] assms(3) by simp
qed

text \<open>A stack whose sessions all are in the state it is given, and a route to relay a call along.\<close>

definition uniform_pjsip :: "inv_state pjsip" where
  "uniform_pjsip = \<lparr>pj_state = (\<lambda>_ p. p), pj_cause = (\<lambda>_ _. 486), pj_cause_text = (\<lambda>_ _. []), pj_dlg = (\<lambda>i _. Some i),
     pj_require_100rel = (\<lambda>_ _. False), pj_has_neg = (\<lambda>_ _. True), pj_active_local = (\<lambda>_ _. Some sample_sdp),
     pj_active_remote = (\<lambda>_ _. Some sample_sdp), pj_create_sdp_body = (\<lambda>_ _. True),
     pj_inv_answer = (\<lambda>_ _ sdp p. (Some (Some (sample_tx\<lparr>tx_body := sdp\<rparr>)), p)),
     pj_inv_initial_answer = (\<lambda>_ _ _ sdp p. (Some (Some (sample_tx\<lparr>tx_body := sdp\<rparr>)), p)),
     pj_inv_end_session = (\<lambda>_ _ p. (Some (Some sample_tx), p)), pj_inv_invite = (\<lambda>_ p. (Some sample_tx, p)),
     pj_inv_send_msg = (\<lambda>_ _ p. (True, p)), pj_inv_set_sdp_answer = (\<lambda>_ _ p. (True, p)),
     pj_dlg_create_uac = (\<lambda>_ _ _ _ p. (Some 2, p)), pj_inv_create_uac = (\<lambda>d _ p. (Some d, p)),
     pj_dlg_add_usage = (\<lambda>_ p. (True, p)), pj_dlg_terminate = (\<lambda>_ p. p), pj_inv_terminate = (\<lambda>_ _ p. p)\<rparr>"

definition routed_env :: "(inv_state, unit) engine_env" where
  "routed_env = \<lparr>en_pjsip = uniform_pjsip, en_sdp = sample_pjmedia\<lparr>pm_parse := (\<lambda>_. Some sample_sdp)\<rparr>,
     en_pjmedia = silence_pjmedia, en_has_pjmedia_endpoint = True, en_config = sample_config,
     en_stores = \<lparr>ro_users = None, ro_bindings = None, ro_routes = Some \<lparr>sn_table_id = [], sn_version = 1,
       sn_routes = [(1, \<lparr>rt_uri = ''*'', rt_sip_address = ''10.0.0.2'', rt_port = 5060, rt_codec = None\<rparr>)]\<rparr>\<rparr>,
     en_has_event_sink = True, en_module_id = 1, en_now = 0, en_wall_clock = [], en_stream_ids = ((1, 2, 3), (4, 5, 6)),
     en_bind = (\<lambda>_. Some 20000)\<rparr>"

definition incoming_call :: "inv_state call" where
  "incoming_call = (new_call ''c1'' sample_rdata 0 InvIncoming)\<lparr>cs_replacement_target := None, cs_caller := new_leg\<lparr>lg_inv := Some 3\<rparr>\<rparr>"

lemma start_setup_negotiates:
  assumes "do_resolve_route (en_sdp E) (en_config E) (en_stores E) (cs_request_uri c1) (cs_caller_offer_sdp c1) (en_now E) =
      resolution KFound d k"
    and "do_start_exchange E d k c1 = (OPending, c2)" and "c1 = do_begin_setup E c" and "rn_state (cs_setup c) = SuIdle"
  shows "start_setup E c = Some (c2\<lparr>cs_setup := (cs_setup c)\<lparr>rn_state := Negotiating, rn_processing := False\<rparr>, cs_current_rdata := None\<rparr>)"
  using assms
  by (simp add: start_setup_def setup_dispatch_def process_event_def sml_process_event_def su_begin_def su_start_def
      process_queued_events_Cons) (simp add: setup_actions_of_def process_queued_events_Cons su_start_def)

lemma start_exchange_pending:
  assumes "cs_exchange c = None" and "is_valid_sdp (en_sdp E) (cs_caller_offer_sdp c)"
    and "c1 = do_relay_offer E (cs_caller_offer_sdp c) (c\<lparr>cs_exchange := Some new_exchange, cs_oa := new_oa d k\<rparr>)"
    and "oa_offer_sent (cs_oa c1)"
  shows "do_start_exchange E d k c =
     (OPending, c1\<lparr>cs_exchange := Some (new_exchange\<lparr>ex_runner := (new_runner OaIdle)\<lparr>rn_state := AwaitingAnswer\<rparr>\<rparr>)\<rparr>)"
  using assms
  by (simp add: do_start_exchange_def create_exchange_def run_exchange_def ex_start_def ex_dispatch_table new_exchange_def
      new_runner_def finish_operation_def is_in_def oa_of_def oa_actions.truncate_def offer_answer_actions_def)

lemma uniform_relays_offer:
  assumes "lg_inv (cs_caller c) = Some i" and "cs_pj c \<noteq> InvDisconnected" and "extract_uri_user (cs_caller_uri c) \<noteq> []"
    and "cs_replacement_target c = None" and "sdp \<noteq> []"
  shows "oa_offer_sent (cs_oa (do_relay_offer routed_env sdp c))" "lg_inv (cs_callee (do_relay_offer routed_env sdp c)) = Some 2"
  using assms
  by (simp_all add: do_relay_offer_def is_gone_def create_outbound_leg_def bind_leg_def create_outbound_dialog_def with_pj_def
      send_outbound_invite_def set_inv_def update_leg_def inv_send_def sdp_parse_def post_bridge_def routed_env_def uniform_pjsip_def
      Let_def)

lemma incoming_call_negotiates:
  "\<exists>c. start_setup routed_env incoming_call = Some c \<and> rn_state (cs_setup c) = Negotiating \<and> lg_inv (cs_callee c) = Some 2"
proof -
  let ?b = "do_begin_setup routed_env incoming_call" and ?d = "sip_destination (extract_uri_user ''*'') ''10.0.0.2'' 5060"
  have route: "do_resolve_route (en_sdp routed_env) (en_config routed_env) (en_stores routed_env) ''sip:b@h'' ''v=0'' 0 =
      resolution KFound ?d None"
    by (simp add: do_resolve_route_def resolve_local_def find_route_def required_codec_def routed_env_def)
  have valid: "is_valid_sdp (en_sdp routed_env) ''v=0''" by code_simp
  have user: "extract_uri_user ''sip:a@h'' \<noteq> []" by code_simp
  have b: "cs_exchange ?b = None" "cs_caller_offer_sdp ?b = ''v=0''" "cs_request_uri ?b = ''sip:b@h''" "cs_caller_uri ?b = ''sip:a@h''"
      "lg_inv (cs_caller ?b) = Some 3" "cs_replacement_target ?b = None" "cs_pj ?b = InvIncoming"
    by (simp_all add: do_begin_setup_def incoming_call_def report_call_started_def send_event_def with_pj_def new_call_def new_leg_def
        sample_rdata_def answer_request_def is_gone_def inv_send_def routed_env_def uniform_pjsip_def Let_def)
  let ?c1 = "do_relay_offer routed_env ''v=0'' (?b\<lparr>cs_exchange := Some new_exchange, cs_oa := new_oa ?d None\<rparr>)"
  have relayed: "oa_offer_sent (cs_oa ?c1)" "lg_inv (cs_callee ?c1) = Some 2"
    using uniform_relays_offer [of "?b\<lparr>cs_exchange := Some new_exchange, cs_oa := new_oa ?d None\<rparr>" 3 "''v=0''"] by (simp_all add: b user)
  note started = start_exchange_pending [of ?b routed_env ?c1 ?d None, unfolded b(2), OF b(1) valid refl relayed(1)]
  have "rn_state (cs_setup incoming_call) = SuIdle" "en_now routed_env = 0"
    by (simp_all add: incoming_call_def new_call_def new_runner_def routed_env_def)
  with start_setup_negotiates [OF _ started refl] route b(2,3) relayed(2) show ?thesis by simp
qed

theorem setup_ends_with_its_legs_witness:
  "\<exists>c c'. start_setup routed_env incoming_call = Some c \<and> rn_state (cs_setup c) = Negotiating \<and>
     setup_on_leg_state_changed routed_env 2 None (c\<lparr>cs_pj := InvDisconnected\<rparr>) = Some c' \<and> rn_state (cs_setup c') = SuDone"
proof -
  obtain c where c: "start_setup routed_env incoming_call = Some c" "rn_state (cs_setup c) = Negotiating" "lg_inv (cs_callee c) = Some 2"
    using incoming_call_negotiates by blast
  then have run: "(start_setup routed_env incoming_call \<bind> run_callbacks []) = Some c" by simp
  have "pj_state (en_pjsip routed_env) 2 InvDisconnected = InvDisconnected" by (simp add: routed_env_def uniform_pjsip_def)
  from setup_ends_with_its_legs [OF _ run [unfolded incoming_call_def] _ this, of None] c show ?thesis
    by (auto simp: leg_for_def)
qed

end
