(* ===== verification/Refer_Handler.thy ===== *)
theory Refer_Handler
  imports Setup_Actions
begin

text \<open>
  In-dialog REFER, \<^verbatim>\<open>engine/src/sip/call/handlers/refer_handler.cpp\<close>: the request is accepted on the leg it
  came from, the dialog a Replaces parameter names is translated to the other side of this engine, and a new REFER goes
  out on the opposite leg; NOTIFY bodies are relayed back. PJSIP's subscription layer and its URI and header parsers
  are the record \<open>pjsip_xfer\<close>. Subscriptions are handles. Where the handler dispatches the outcome to the
  dialog machine, the operation returns that event.
\<close>

subsection \<open>Percent encoding\<close>

definition hex_value :: "char \<Rightarrow> int" where
  "hex_value digit =
     (let d = of_char digit in
      if 48 \<le> d \<and> d \<le> 57 then d - 48
      else if 65 \<le> d \<and> d \<le> 70 then d - 65 + 10
      else if 97 \<le> d \<and> d \<le> 102 then d - 97 + 10
      else -1)"

fun percent_decode :: "string \<Rightarrow> string option" where
  "percent_decode [] = Some []"
| "percent_decode (c # cs) =
     (if c \<noteq> CHR ''%'' then map_option (Cons c) (percent_decode cs)
      else case cs of
        h # l # rest \<Rightarrow>
          if hex_value h < 0 \<or> hex_value l < 0 then None
          else
            let decoded_char = char_of (nat (16 * hex_value h + hex_value l)) in
            if decoded_char = CHR 0x00 then None else map_option (Cons decoded_char) (percent_decode rest)
      | _ \<Rightarrow> None)"

subsection \<open>PJSIP's transfer layer\<close>

record refer_uri =
  ru_is_sip :: bool
  ru_header_params :: "(string \<times> string) list"
  ru_rest :: string

datatype evsub_state = EvsubActive | EvsubTerminated

record 'p pjsip_xfer =
  px_parse_uri :: "string \<Rightarrow> refer_uri option"
  px_print_uri :: "refer_uri \<Rightarrow> string option"
  px_parse_replaces :: "string \<Rightarrow> replaces_hdr option"
  px_print_replaces :: "replaces_hdr \<Rightarrow> string option"
  px_parse_status_line :: "string \<Rightarrow> int option"
  px_find_dialog :: "string \<Rightarrow> string \<Rightarrow> string \<Rightarrow> 'p \<Rightarrow> dlg option"
  px_dialog_ids :: "dlg \<Rightarrow> 'p \<Rightarrow> string \<times> string \<times> string"
  px_dlg_respond :: "dlg \<Rightarrow> int \<Rightarrow> 'p \<Rightarrow> 'p"
  px_create_uac :: "dlg option \<Rightarrow> 'p \<Rightarrow> nat option \<times> 'p"
  px_create_uas :: "dlg \<Rightarrow> 'p \<Rightarrow> nat option \<times> 'p"
  px_accept :: "nat \<Rightarrow> 'p \<Rightarrow> bool \<times> 'p"
  px_notify :: "nat \<Rightarrow> evsub_state \<Rightarrow> int \<Rightarrow> 'p \<Rightarrow> tx_data option \<times> 'p"
  px_initiate :: "nat \<Rightarrow> string \<Rightarrow> 'p \<Rightarrow> tx_data option \<times> 'p"
  px_send_request :: "nat \<Rightarrow> tx_data \<Rightarrow> 'p \<Rightarrow> bool \<times> 'p"
  px_terminate :: "nat \<Rightarrow> 'p \<Rightarrow> 'p"

subsection \<open>The target of the transfer\<close>

definition is_replaces_param :: "string \<times> string \<Rightarrow> bool" where
  "is_replaces_param param \<longleftrightarrow> ascii_iequals (fst param) ''Replaces''"

fun set_first_param :: "string \<Rightarrow> (string \<times> string) list \<Rightarrow> (string \<times> string) list" where
  "set_first_param v [] = []"
| "set_first_param v (param # params) =
     (if is_replaces_param param then (fst param, v) # params else param # set_first_param v params)"

definition kReplacesPrefix :: string where
  "kReplacesPrefix = ''Replaces: ''"

text \<open>Translating the dialog a Replaces header names: the engine's own other leg of the same call stands for it.\<close>

definition translate_replaces ::
  "'p pjsip_xfer \<Rightarrow> (dlg \<Rightarrow> 'p call option) \<Rightarrow> replaces_hdr \<Rightarrow> 'p \<Rightarrow> int + replaces_hdr" where
  "translate_replaces X find_call r p =
     (case px_find_dialog X (rh_call_id r) (rh_to_tag r) (rh_from_tag r) p of
        None \<Rightarrow> Inl 481
      | Some referenced \<Rightarrow>
          (case find_call referenced of
             None \<Rightarrow> Inl 481
           | Some session \<Rightarrow>
               let which = (if lg_dialog (cs_callee session) = Some referenced then Callee else Caller);
                   translated = get_leg (other which) session in
               (case lg_dialog translated of
                  None \<Rightarrow> Inl 481
                | Some d \<Rightarrow>
                    if lg_disconnected translated then Inl 481
                    else case px_dialog_ids X d p of (call_id, remote_tag, local_tag) \<Rightarrow>
                      Inr (r\<lparr>rh_call_id := call_id, rh_to_tag := remote_tag, rh_from_tag := local_tag\<rparr>))))"

definition refer_to :: "'p pjsip_xfer \<Rightarrow> (dlg \<Rightarrow> 'p call option) \<Rightarrow> 'p call \<Rightarrow> int + string" where
  "refer_to X find_call c =
     (case rf_pending (cs_refer c) of
        None \<Rightarrow> Inl 400
      | Some rq \<Rightarrow>
          (case rfq_refer_to rq of
             [v] \<Rightarrow>
               if v = [] then Inl 400
               else (case px_parse_uri X v of
                  None \<Rightarrow> Inl 400
                | Some uri \<Rightarrow>
                    if \<not> ru_is_sip uri then Inl 400
                    else (case dropWhile (\<lambda>q. \<not> is_replaces_param q) (ru_header_params uri) of
                       [] \<Rightarrow> Inr v
                     | param # later \<Rightarrow>
                         if snd param = [] then Inl 400
                         else if list_ex is_replaces_param later then Inl 400
                         else (case percent_decode (snd param) of
                            None \<Rightarrow> Inl 400
                          | Some decoded \<Rightarrow>
                              (case px_parse_replaces X decoded of
                                 None \<Rightarrow> Inl 400
                               | Some r \<Rightarrow>
                                   if rh_call_id r = [] \<or> rh_to_tag r = [] \<or> rh_from_tag r = [] then Inl 400
                                   else (case translate_replaces X find_call r (cs_pj c) of
                                      Inl code \<Rightarrow> Inl code
                                    | Inr r' \<Rightarrow>
                                        (case px_print_replaces X r' of
                                           None \<Rightarrow> Inl 500
                                         | Some printed \<Rightarrow>
                                             if take (length kReplacesPrefix) printed \<noteq> kReplacesPrefix then Inl 500
                                             else (case px_print_uri X (uri\<lparr>ru_header_params :=
                                                      set_first_param (drop (length kReplacesPrefix) printed) (ru_header_params uri)\<rparr>) of
                                                None \<Rightarrow> Inl 500
                                              | Some target \<Rightarrow> Inr target)))))))
           | _ \<Rightarrow> Inl 400))"

subsection \<open>Subscriptions\<close>

definition set_refer :: "(refer_state \<Rightarrow> refer_state) \<Rightarrow> 'p call \<Rightarrow> 'p call" where
  "set_refer f c = c\<lparr>cs_refer := f (cs_refer c)\<rparr>"

definition terminate_sub :: "'p pjsip_xfer \<Rightarrow> nat option \<Rightarrow> 'p call \<Rightarrow> 'p call" where
  "terminate_sub X sub c = (case sub of None \<Rightarrow> c | Some s \<Rightarrow> c\<lparr>cs_pj := px_terminate X s (cs_pj c)\<rparr>)"

definition stop_subscriptions :: "'p pjsip_xfer \<Rightarrow> 'p call \<Rightarrow> 'p call" where
  "stop_subscriptions X c =
     (let c = terminate_sub X (rf_outbound_sub (cs_refer c)) (set_refer (\<lambda>r. r\<lparr>rf_outbound_sub := None\<rparr>) c) in
      terminate_sub X (rf_inbound_sub (cs_refer c)) (set_refer (\<lambda>r. r\<lparr>rf_inbound_sub := None\<rparr>) c))"

definition refer_reject :: "'p pjsip_xfer \<Rightarrow> int \<Rightarrow> 'p call \<Rightarrow> 'p call" where
  "refer_reject X code c = (case rf_pending (cs_refer c) of
     None \<Rightarrow> c | Some rq \<Rightarrow> c\<lparr>cs_pj := px_dlg_respond X (rfq_dialog rq) code (cs_pj c)\<rparr>)"

definition refer_busy_reply :: "'p pjsip_xfer \<Rightarrow> 'p call \<Rightarrow> 'p call" where
  "refer_busy_reply X c = refer_reject X 491 c"

definition notify_inbound :: "'p pjsip_xfer \<Rightarrow> evsub_state \<Rightarrow> int \<Rightarrow> 'p call \<Rightarrow> bool \<times> 'p call" where
  "notify_inbound X st code c =
     (case rf_inbound_sub (cs_refer c) of
        None \<Rightarrow> (False, c)
      | Some sub \<Rightarrow>
          let (tdata, c1) = with_pj (px_notify X sub st code) c in
          (case tdata of None \<Rightarrow> (False, c1) | Some t \<Rightarrow> with_pj (px_send_request X sub t) c1))"

definition fail_after_accept :: "'p pjsip_xfer \<Rightarrow> int \<Rightarrow> 'p call \<Rightarrow> 'p call" where
  "fail_after_accept X code c = stop_subscriptions X (snd (notify_inbound X EvsubTerminated code c))"

definition refer_finish :: "refer_outcome \<Rightarrow> 'p call \<Rightarrow> dialog_event option \<times> 'p call" where
  "refer_finish outcome c =
     (if rf_result_delivered (cs_refer c) then (None, c)
      else (Some (ReferCompleted outcome), set_refer (\<lambda>r. r\<lparr>rf_result_delivered := True\<rparr>) c))"

definition refer_abort :: "'p pjsip_xfer \<Rightarrow> 'p call \<Rightarrow> dialog_event option \<times> 'p call" where
  "refer_abort X c = refer_finish RFailed (stop_subscriptions X c)"

subsection \<open>Starting a transfer\<close>

definition outbound_refer :: "refer_request \<Rightarrow> tx_data \<Rightarrow> tx_data" where
  "outbound_refer rq t =
     (let incoming_hops = (case rfq_max_fwd rq of None \<Rightarrow> kDefaultMaxForwards | Some n \<Rightarrow> n);
          t = (case rfq_referred_by rq of [] \<Rightarrow> t | v # _ \<Rightarrow> t\<lparr>tx_referred_by := Some v\<rparr>) in
      t\<lparr>tx_max_fwd := Some (incoming_hops - 1)\<rparr>)"

definition forward_refer :: "'p pjsip_xfer \<Rightarrow> refer_request \<Rightarrow> string \<Rightarrow> nat \<Rightarrow> 'p call \<Rightarrow> bool \<times> 'p call" where
  "forward_refer X rq target out_sub c =
     (let (tdata, c1) = with_pj (px_initiate X out_sub target) c in
      case tdata of
        None \<Rightarrow> (False, c1)
      | Some t \<Rightarrow> with_pj (px_send_request X out_sub (outbound_refer rq t)) c1)"

definition refer_subscribe :: "'p pjsip_xfer \<Rightarrow> refer_request \<Rightarrow> string \<Rightarrow> dlg option \<Rightarrow> 'p call \<Rightarrow> bool \<times> 'p call" where
  "refer_subscribe X rq target peer_dlg c =
     (let (out, c1) = with_pj (px_create_uac X peer_dlg) c in
      case out of
        None \<Rightarrow> (False, refer_reject X 503 c1)
      | Some out_sub \<Rightarrow>
          let c2 = set_refer (\<lambda>r. r\<lparr>rf_outbound_sub := Some out_sub\<rparr>) c1;
              (inb, c3) = with_pj (px_create_uas X (rfq_dialog rq)) c2 in
          (case inb of
             None \<Rightarrow> (False, stop_subscriptions X (refer_reject X 500 c3))
           | Some in_sub \<Rightarrow>
               let c4 = set_refer (\<lambda>r. r\<lparr>rf_inbound_sub := Some in_sub\<rparr>) c3;
                   (accepted, c5) = with_pj (px_accept X in_sub) c4 in
               if \<not> accepted then (False, stop_subscriptions X c5)
               else
                 let (notified, c6) = notify_inbound X EvsubActive 100 c5 in
                 if \<not> notified then (False, fail_after_accept X 503 c6)
                 else
                   let (sent, c7) = forward_refer X rq target out_sub c6 in
                   if \<not> sent then (False, fail_after_accept X 503 c7) else (True, c7)))"

definition refer_start ::
  "'p pjsip_xfer \<Rightarrow> ('p, 'st) engine_env \<Rightarrow> (dlg \<Rightarrow> 'p call option) \<Rightarrow> leg \<Rightarrow> 'p call \<Rightarrow> bool \<times> 'p call" where
  "refer_start X E find_call which c =
     (if rf_inbound_sub (cs_refer c) \<noteq> None \<or> rf_outbound_sub (cs_refer c) \<noteq> None then (False, refer_reject X 491 c)
      else
        let c = set_refer (\<lambda>r. r\<lparr>rf_result_delivered := False\<rparr>) c in
        if en_module_id E = -1 then (False, refer_reject X 500 c)
        else case refer_to X find_call c of
          Inl code \<Rightarrow> (False, refer_reject X code c)
        | Inr target \<Rightarrow>
            (case rf_pending (cs_refer c) of
               None \<Rightarrow> (False, c)
             | Some rq \<Rightarrow>
                 if length (rfq_referred_by rq) > 1 then (False, refer_reject X 400 c)
                 else if rfq_max_fwd rq = Some 0 then (False, refer_reject X 483 c)
                 else
                   let peer_leg = get_leg (other which) c in
                   (case lg_inv peer_leg of
                      None \<Rightarrow> (False, refer_reject X 503 c)
                    | Some peer \<Rightarrow>
                        if lg_disconnected peer_leg then (False, refer_reject X 503 c)
                        else refer_subscribe X rq target (pj_dlg (en_pjsip E) peer (cs_pj c)) c)))"

subsection \<open>Callbacks of the subscriptions\<close>

definition subscription_changed ::
  "'p pjsip_xfer \<Rightarrow> nat \<Rightarrow> bool \<Rightarrow> int option \<Rightarrow> 'p call \<Rightarrow> dialog_event option \<times> 'p call" where
  "subscription_changed X sub terminated response c =
     (if \<not> terminated then (None, c)
      else if rf_inbound_sub (cs_refer c) = Some sub then (None, set_refer (\<lambda>r. r\<lparr>rf_inbound_sub := None\<rparr>) c)
      else
        let c = set_refer (\<lambda>r. r\<lparr>rf_outbound_sub := None\<rparr>) c in
        if rf_result_delivered (cs_refer c) then (None, c)
        else
          let status_code = (case response of Some n \<Rightarrow> if n \<ge> 300 then n else 503 | None \<Rightarrow> 503) in
          refer_finish RFailed (fail_after_accept X status_code c))"

definition kLastSipStatus :: int where
  "kLastSipStatus = 699"

definition sipfrag_status :: "'p pjsip_xfer \<Rightarrow> (string \<times> string \<times> string) option \<Rightarrow> int option" where
  "sipfrag_status X body = (case body of
     None \<Rightarrow> None
   | Some (ty, subtype, content) \<Rightarrow>
       if \<not> ascii_iequals ty ''message'' \<or> \<not> ascii_iequals subtype ''sipfrag'' then None
       else case px_parse_status_line X content of
         None \<Rightarrow> None
       | Some code \<Rightarrow> if code < 100 \<or> code > kLastSipStatus then None else Some code)"

definition notification_received ::
  "'p pjsip_xfer \<Rightarrow> (string \<times> string \<times> string) option \<Rightarrow> 'p call \<Rightarrow> int \<times> dialog_event option \<times> 'p call" where
  "notification_received X body c =
     (case sipfrag_status X body of
        None \<Rightarrow> (400, None, c)
      | Some code \<Rightarrow>
          (200,
           if rf_result_delivered (cs_refer c) then (None, c)
           else if code \<ge> 200 \<and> code \<ge> 300 then refer_finish RFailed (fail_after_accept X code c)
           else
             let (ok, c1) = (if rf_inbound_sub (cs_refer c) \<noteq> None
                             then notify_inbound X (if code \<ge> 200 then EvsubTerminated else EvsubActive) code c
                             else (True, c)) in
             if \<not> ok then refer_finish RFailed (fail_after_accept X 503 c1)
             else if code \<ge> 200 then refer_finish RSucceeded c1 else (None, c1)))"

subsection \<open>Decoding inverts encoding\<close>

definition hex_digit :: "nat \<Rightarrow> char" where
  "hex_digit n = char_of (if n < 10 then 48 + n else 55 + n)"

text \<open>RFC 3986: every octet outside the characters \<open>keep\<close> is escaped.\<close>

definition percent_encode :: "(char \<Rightarrow> bool) \<Rightarrow> string \<Rightarrow> string" where
  "percent_encode keep s = concat (map (\<lambda>c. if keep c then [c]
     else [CHR ''%'', hex_digit (of_char c div 16), hex_digit (of_char c mod 16)]) s)"

lemma hex_value_digit: "n < 16 \<Longrightarrow> hex_value (hex_digit n) = int n"
proof -
  have "(of_char (char_of k :: char) :: int) = int (k mod 256)" for k :: nat
    by (metis of_char_of of_nat_of_char)
  then show "n < 16 \<Longrightarrow> ?thesis" by (auto simp: hex_digit_def hex_value_def Let_def)
qed

lemma nat_hex_digits: "nat (16 * int (n div 16) + int (n mod 16)) = n"
proof -
  have "16 * int (n div 16) + int (n mod 16) = int (16 * (n div 16) + n mod 16)" by (simp only: of_nat_add of_nat_mult of_nat_numeral)
  also have "\<dots> = int n" by (simp only: mult_div_mod_eq)
  finally show ?thesis by simp
qed

lemma decode_escaped:
  assumes "c \<noteq> CHR 0x00"
  shows "percent_decode (CHR ''%'' # hex_digit (of_char c div 16) # hex_digit (of_char c mod 16) # rest) =
    map_option (Cons c) (percent_decode rest)"
proof -
  have lt: "(of_char c :: nat) < 256" by (rule nat_of_char_less_256)
  have "(of_char c :: nat) div 16 < 16" using lt by (simp add: less_mult_imp_div_less)
  then have d1: "hex_value (hex_digit (of_char c div 16)) = int (of_char c div 16)" by (rule hex_value_digit)
  have d2: "hex_value (hex_digit (of_char c mod 16)) = int (of_char c mod 16)" by (rule hex_value_digit) simp
  have n: "nat (16 * int (of_char c div 16) + int (of_char c mod 16)) = of_char c"
    by (rule nat_hex_digits)
  show ?thesis
    unfolding percent_decode.simps list.case d1 d2 n char_of_char Let_def using assms by simp
qed

text \<open>Percent decoding of the Replaces parameter inverts percent encoding, whichever characters the peer escapes, for
  every value without a zero octet; and an escaped zero octet, which would cut the value short in the C
  interfaces that receive it, is refused wherever it stands.\<close>

theorem percent_decode_inverts:
  assumes "\<not> keep (CHR ''%'')"
  shows "(CHR 0x00 \<notin> set s \<longrightarrow> percent_decode (percent_encode keep s) = Some s) \<and>
    (CHR 0x00 \<notin> set s \<longrightarrow> percent_decode (percent_encode keep s @ ''%00'' @ t) = None)"
proof -
  have step: "percent_decode (percent_encode keep (c # s) @ t) = map_option (Cons c) (percent_decode (percent_encode keep s @ t))"
    if "c \<noteq> CHR 0x00" for c s t
    using assms that decode_escaped [OF that] by (auto simp: percent_encode_def)
  have run: "percent_decode (percent_encode keep s @ t) = map_option ((@) s) (percent_decode t)" if "CHR 0x00 \<notin> set s" for s t
    using that
  proof (induction s)
    case Nil
    show ?case by (simp add: percent_encode_def option.map_ident)
  next
    case (Cons c s)
    then have "c \<noteq> CHR 0x00" by auto
    from step [OF this, of s t] Cons show ?case by (simp add: option.map_comp comp_def)
  qed
  have "hex_value (CHR ''0'') = 0" by (simp add: hex_value_def)
  moreover have "char_of (0 :: nat) = CHR 0x00" by (simp add: char_of_def)
  ultimately have "percent_decode (''%00'' @ t) = None" by simp
  with run [of s "[]"] run [of s "''%00'' @ t"] show ?thesis by simp
qed

theorem percent_decode_inverts_witness:
  "percent_decode (percent_encode (\<lambda>c. c \<noteq> CHR ''%'' \<and> c \<noteq> CHR '';'') ''a;b%c'') = Some ''a;b%c''"
  using percent_decode_inverts [of "\<lambda>c. c \<noteq> CHR ''%'' \<and> c \<noteq> CHR '';''" "''a;b%c''"] by simp

subsection \<open>What the handler touches\<close>

definition refer_only :: "'p call \<Rightarrow> 'p call \<Rightarrow> bool" where
  "refer_only c c' \<longleftrightarrow> (\<exists>p r. c' = c\<lparr>cs_pj := p, cs_refer := r\<rparr>)"

lemma refer_only_refl [simp]: "refer_only c c"
  unfolding refer_only_def by (intro exI [of _ "cs_pj c"] exI [of _ "cs_refer c"]) simp

lemma refer_only_trans: "refer_only c c1 \<Longrightarrow> refer_only c1 c2 \<Longrightarrow> refer_only c c2"
proof -
  assume "refer_only c c1" and "refer_only c1 c2"
  then obtain p r p' r' where "c1 = c\<lparr>cs_pj := p, cs_refer := r\<rparr>" and "c2 = c1\<lparr>cs_pj := p', cs_refer := r'\<rparr>"
    unfolding refer_only_def by blast
  then have "c2 = c\<lparr>cs_pj := p', cs_refer := r'\<rparr>" by simp
  then show ?thesis unfolding refer_only_def by blast
qed

lemma refer_only_updates [simp]: "refer_only c (c\<lparr>cs_pj := p\<rparr>)" "refer_only c (c\<lparr>cs_refer := r\<rparr>)"
proof -
  show "refer_only c (c\<lparr>cs_pj := p\<rparr>)" unfolding refer_only_def by (intro exI [of _ p] exI [of _ "cs_refer c"]) simp
  show "refer_only c (c\<lparr>cs_refer := r\<rparr>)" unfolding refer_only_def by (intro exI [of _ "cs_pj c"] exI [of _ r]) simp
qed

lemma refer_only_basic:
  "refer_only c (set_refer f c)" "refer_only c (terminate_sub X sub c)" "refer_only c (refer_reject X code c)"
  "with_pj g c = (r, c') \<Longrightarrow> refer_only c c'"
  by (auto simp: set_refer_def terminate_sub_def refer_reject_def with_pj_def split: option.splits prod.splits)

lemma refer_basic_refer:
  "cs_refer (terminate_sub X sub c) = cs_refer c" "cs_refer (refer_reject X code c) = cs_refer c"
  "cs_refer (set_refer f c) = f (cs_refer c)" "with_pj g c = (r, c') \<Longrightarrow> cs_refer c' = cs_refer c"
  by (auto simp: set_refer_def terminate_sub_def refer_reject_def with_pj_def split: option.splits prod.splits)

lemma stop_refer: "refer_only c (stop_subscriptions X c)"
  "cs_refer (stop_subscriptions X c) = (cs_refer c)\<lparr>rf_outbound_sub := None, rf_inbound_sub := None\<rparr>"
proof -
  let ?c1 = "terminate_sub X (rf_outbound_sub (cs_refer c)) (set_refer (\<lambda>r. r\<lparr>rf_outbound_sub := None\<rparr>) c)"
  have "refer_only c ?c1" by (rule refer_only_trans [OF refer_only_basic(1) refer_only_basic(2)])
  moreover have "refer_only ?c1 (stop_subscriptions X c)"
    unfolding stop_subscriptions_def Let_def by (rule refer_only_trans [OF refer_only_basic(1) refer_only_basic(2)])
  ultimately show "refer_only c (stop_subscriptions X c)" by (rule refer_only_trans)
  show "cs_refer (stop_subscriptions X c) = (cs_refer c)\<lparr>rf_outbound_sub := None, rf_inbound_sub := None\<rparr>"
    by (simp add: stop_subscriptions_def Let_def refer_basic_refer)
qed

lemma notify_refer:
  "notify_inbound X st code c = (ok, c') \<Longrightarrow> refer_only c c' \<and> cs_refer c' = cs_refer c"
  by (auto simp: notify_inbound_def Let_def refer_basic_refer split: option.splits prod.splits
      dest: refer_only_basic(4) intro: refer_only_trans)

lemma fail_refer: "refer_only c (fail_after_accept X code c)"
  "cs_refer (fail_after_accept X code c) = (cs_refer c)\<lparr>rf_outbound_sub := None, rf_inbound_sub := None\<rparr>"
proof -
  obtain ok c1 where n: "notify_inbound X EvsubTerminated code c = (ok, c1)" by fastforce
  note nr = notify_refer [OF n]
  show "refer_only c (fail_after_accept X code c)"
    using nr stop_refer(1) [of c1 X] by (auto simp: fail_after_accept_def n intro: refer_only_trans)
  show "cs_refer (fail_after_accept X code c) = (cs_refer c)\<lparr>rf_outbound_sub := None, rf_inbound_sub := None\<rparr>"
    using nr by (simp add: fail_after_accept_def n stop_refer(2))
qed

lemma finish_refer:
  "refer_finish oc c = (ev, c') \<Longrightarrow> refer_only c c' \<and> rf_result_delivered (cs_refer c') \<and>
     ev = (if rf_result_delivered (cs_refer c) then None else Some (ReferCompleted oc))"
  by (auto simp: refer_finish_def refer_basic_refer refer_only_basic split: if_splits)

subsection \<open>A transfer is concluded once\<close>

lemma forward_refer_keeps: "forward_refer X rq target sub c = (ok, c') \<Longrightarrow> refer_only c c' \<and> cs_refer c' = cs_refer c"
proof -
  assume f: "forward_refer X rq target sub c = (ok, c')"
  obtain tdata c1 where i: "with_pj (px_initiate X sub target) c = (tdata, c1)" by fastforce
  note 1 = refer_only_basic(4) [OF i] refer_basic_refer(4) [OF i]
  show ?thesis
  proof (cases tdata)
    case None
    with f 1 show ?thesis by (simp add: forward_refer_def i)
  next
    case (Some t)
    with f have s: "with_pj (px_send_request X sub (outbound_refer rq t)) c1 = (ok, c')" by (simp add: forward_refer_def i)
    show ?thesis
      using refer_only_trans [OF 1(1) refer_only_basic(4) [OF s]] refer_basic_refer(4) [OF s] 1(2) by simp
  qed
qed

definition no_subs :: "'p call \<Rightarrow> bool" where
  "no_subs c \<longleftrightarrow> rf_inbound_sub (cs_refer c) = None \<and> rf_outbound_sub (cs_refer c) = None"

definition both_subs :: "'p call \<Rightarrow> bool" where
  "both_subs c \<longleftrightarrow> rf_inbound_sub (cs_refer c) \<noteq> None \<and> rf_outbound_sub (cs_refer c) \<noteq> None"

text \<open>The outcome of one step of the start: everything but the subscriptions is kept.\<close>

definition start_outcome :: "'p call \<Rightarrow> bool \<Rightarrow> 'p call \<Rightarrow> bool" where
  "start_outcome c ok c' \<longleftrightarrow> refer_only c c' \<and> rf_pending (cs_refer c') = rf_pending (cs_refer c) \<and>
     rf_result_delivered (cs_refer c') = rf_result_delivered (cs_refer c) \<and> (if ok then both_subs c' else no_subs c')"

lemma failed_outcome:
  assumes "refer_only c c1" and "cs_refer c1 = (cs_refer c)\<lparr>rf_outbound_sub := a, rf_inbound_sub := b\<rparr>"
  shows "start_outcome c False (stop_subscriptions X c1)" "start_outcome c False (fail_after_accept X code c1)"
  using refer_only_trans [OF assms(1)] stop_refer [where X = X and c = c1] fail_refer [where X = X and c = c1 and code = code] assms(2)
  by (simp_all add: start_outcome_def no_subs_def)

lemma subscribe_outcome:
  assumes s: "refer_subscribe X rq target d c = (ok, c')" and none: "no_subs c"
  shows "start_outcome c ok c'"
proof -
  obtain out c1 where 1: "with_pj (px_create_uac X d) c = (out, c1)" by fastforce
  note k1 = refer_only_basic(4) [OF 1] refer_basic_refer(4) [OF 1]
  show ?thesis
  proof (cases out)
    case None
    with s have "ok = False" "c' = refer_reject X 503 c1" by (simp_all add: refer_subscribe_def 1)
    with none k1 refer_only_trans [OF k1(1) refer_only_basic(3)] show ?thesis
      by (simp add: start_outcome_def no_subs_def refer_basic_refer)
  next
    case (Some out_sub)
    define c2 where "c2 = set_refer (\<lambda>r. r\<lparr>rf_outbound_sub := Some out_sub\<rparr>) c1"
    obtain inb c3 where 3: "with_pj (px_create_uas X (rfq_dialog rq)) c2 = (inb, c3)" by fastforce
    have o2: "refer_only c c2" unfolding c2_def by (rule refer_only_trans [OF k1(1) refer_only_basic(1)])
    have o3: "refer_only c c3" by (rule refer_only_trans [OF o2 refer_only_basic(4) [OF 3]])
    have r3: "cs_refer c3 = (cs_refer c)\<lparr>rf_outbound_sub := Some out_sub\<rparr>"
      using refer_basic_refer(4) [OF 3] k1(2) by (simp add: c2_def refer_basic_refer)
    show ?thesis
    proof (cases inb)
      case None
      then have "ok = False" "c' = stop_subscriptions X (refer_reject X 500 c3)"
        using s Some by (simp_all add: refer_subscribe_def 1 3 flip: c2_def)
      moreover have "refer_only c (refer_reject X 500 c3)" by (rule refer_only_trans [OF o3 refer_only_basic(3)])
      moreover have "cs_refer (refer_reject X 500 c3) = (cs_refer c)\<lparr>rf_outbound_sub := Some out_sub, rf_inbound_sub := None\<rparr>"
        using r3 none by (simp add: refer_basic_refer no_subs_def)
      ultimately show ?thesis by (simp add: failed_outcome(1))
    next
      case in_sub: (Some in_sub)
      define c4 where "c4 = set_refer (\<lambda>r. r\<lparr>rf_inbound_sub := Some in_sub\<rparr>) c3"
      obtain acc c5 where 5: "with_pj (px_accept X in_sub) c4 = (acc, c5)" by fastforce
      obtain noted c6 where 6: "notify_inbound X EvsubActive 100 c5 = (noted, c6)" by fastforce
      obtain sent c7 where 7: "forward_refer X rq target out_sub c6 = (sent, c7)" by fastforce
      have "refer_only c c4" unfolding c4_def by (rule refer_only_trans [OF o3 refer_only_basic(1)])
      note o5 = refer_only_trans [OF this refer_only_basic(4) [OF 5]]
      note o6 = refer_only_trans [OF o5 conjunct1 [OF notify_refer [OF 6]]]
      note o7 = refer_only_trans [OF o6 conjunct1 [OF forward_refer_keeps [OF 7]]]
      have r5: "cs_refer c5 = (cs_refer c)\<lparr>rf_outbound_sub := Some out_sub, rf_inbound_sub := Some in_sub\<rparr>"
        using refer_basic_refer(4) [OF 5] r3 by (simp add: c4_def refer_basic_refer)
      have r6: "cs_refer c6 = cs_refer c5" and r7: "cs_refer c7 = cs_refer c5"
        using notify_refer [OF 6] forward_refer_keeps [OF 7] by simp_all
      have "(ok, c') = (if \<not> acc then (False, stop_subscriptions X c5)
          else if \<not> noted then (False, fail_after_accept X 503 c6)
          else if \<not> sent then (False, fail_after_accept X 503 c7) else (True, c7))"
        using s Some in_sub
        by (cases acc; cases noted; cases sent) (simp_all add: refer_subscribe_def 1 3 5 6 7 flip: c2_def c4_def)
      moreover have "start_outcome c True c7" using o7 r5 r7 by (simp add: start_outcome_def both_subs_def)
      ultimately show ?thesis
        using failed_outcome(1) [OF o5 r5] failed_outcome(2) [OF o6 r6 [THEN trans, OF r5]]
          failed_outcome(2) [OF o7 r7 [THEN trans, OF r5]]
        by (auto split: if_splits)
    qed
  qed
qed

lemma reject_outcome: "no_subs c \<Longrightarrow> start_outcome c False (refer_reject X code c)"
  using refer_only_basic(3) [of c X code] by (simp add: start_outcome_def no_subs_def refer_basic_refer)

lemma start_outcome_refl: "no_subs c \<Longrightarrow> start_outcome c False c"
  by (simp add: start_outcome_def)

lemma refer_start_outcome:
  assumes s: "refer_start X E find_call which c = (ok, c')" and none: "no_subs c"
  shows "start_outcome (set_refer (\<lambda>r. r\<lparr>rf_result_delivered := False\<rparr>) c) ok c'"
proof -
  let ?c = "set_refer (\<lambda>r. r\<lparr>rf_result_delivered := False\<rparr>) c"
  have n: "no_subs ?c" using none by (simp add: no_subs_def refer_basic_refer)
  note rej = reject_outcome [OF n, of X] start_outcome_refl [OF n]
  have busy: "\<not> (rf_inbound_sub (cs_refer c) \<noteq> None \<or> rf_outbound_sub (cs_refer c) \<noteq> None)"
    using none by (simp add: no_subs_def)
  show ?thesis
    using s [unfolded refer_start_def if_not_P [OF busy] Let_def] rej subscribe_outcome [OF _ n]
    by (auto simp del: refer_only_updates split: if_splits sum.splits option.splits)
qed

subsection \<open>Callbacks of a running transfer\<close>

datatype refer_callback =
    SubscriptionChanged nat bool "int option"
  | NotificationReceived "(string \<times> string \<times> string) option"
  | ReferAborted

fun refer_callback_step :: "'p pjsip_xfer \<Rightarrow> refer_callback \<Rightarrow> 'p call \<Rightarrow> dialog_event option \<times> 'p call" where
  "refer_callback_step X (SubscriptionChanged sub terminated response) c = subscription_changed X sub terminated response c"
| "refer_callback_step X (NotificationReceived body) c = snd (notification_received X body c)"
| "refer_callback_step X ReferAborted c = refer_abort X c"

fun refer_run :: "'p pjsip_xfer \<Rightarrow> refer_callback list \<Rightarrow> 'p call \<Rightarrow> dialog_event list \<times> 'p call" where
  "refer_run X [] c = ([], c)"
| "refer_run X (k # ks) c =
     (let (ev, c1) = refer_callback_step X k c; (evs, c2) = refer_run X ks c1 in
      ((case ev of None \<Rightarrow> evs | Some e \<Rightarrow> e # evs), c2))"

text \<open>One callback either keeps an open result open, or closes it with one event; a failure leaves no
  subscription, and a closed result stays closed and silent.\<close>

definition callback_effect :: "'p call \<Rightarrow> dialog_event option \<Rightarrow> 'p call \<Rightarrow> bool" where
  "callback_effect c ev c' \<longleftrightarrow> refer_only c c' \<and> (no_subs c \<longrightarrow> no_subs c') \<and>
     (case ev of
        None \<Rightarrow> rf_result_delivered (cs_refer c') = rf_result_delivered (cs_refer c)
      | Some e \<Rightarrow> \<not> rf_result_delivered (cs_refer c) \<and> rf_result_delivered (cs_refer c') \<and>
          (e = ReferCompleted RSucceeded \<or> e = ReferCompleted RFailed \<and> no_subs c'))"

lemma finish_effect:
  assumes "refer_finish oc c1 = (ev, c')" and "refer_only c c1" and "no_subs c \<Longrightarrow> no_subs c1"
    and "rf_result_delivered (cs_refer c1) = rf_result_delivered (cs_refer c)" and "oc = RFailed \<Longrightarrow> no_subs c1"
  shows "callback_effect c ev c'"
proof -
  have "refer_only c1 c'" using finish_refer [OF assms(1)] by simp
  from refer_only_trans [OF assms(2) this] show ?thesis
    using assms(1,3-5)
    by (cases oc) (auto simp: callback_effect_def refer_finish_def no_subs_def refer_basic_refer split: if_splits)
qed

lemma callback_step_effect:
  assumes "refer_callback_step X k c = (ev, c')"
  shows "callback_effect c ev c'"
proof -
  have failed: "callback_effect c ev c'" if "refer_finish RFailed (fail_after_accept X code c1) = (ev, c')"
    and "refer_only c c1" and "rf_result_delivered (cs_refer c1) = rf_result_delivered (cs_refer c)" for code c1 ev c'
    using that(3) by (intro finish_effect [OF that(1) refer_only_trans [OF that(2) fail_refer(1)]])
      (simp_all add: no_subs_def fail_refer(2))
  show ?thesis
  proof (cases k)
    case (SubscriptionChanged sub terminated response)
    have "callback_effect c None (set_refer (\<lambda>r. r\<lparr>rf_outbound_sub := None\<rparr>) c)"
      "callback_effect c None (set_refer (\<lambda>r. r\<lparr>rf_inbound_sub := None\<rparr>) c)"
      "callback_effect c None c"
      using refer_only_basic(1) [of c] by (simp_all add: callback_effect_def no_subs_def refer_basic_refer)
    then show ?thesis
      using assms SubscriptionChanged failed [OF _ refer_only_basic(1) [of c "\<lambda>r. r\<lparr>rf_outbound_sub := None\<rparr>"]]
      by (auto simp: subscription_changed_def Let_def refer_basic_refer split: if_splits)
  next
    case (NotificationReceived body)
    have silent: "callback_effect c None c" by (simp add: callback_effect_def)
    show ?thesis
    proof (cases "sipfrag_status X body")
      case None
      with assms NotificationReceived silent show ?thesis by (simp add: notification_received_def)
    next
      case (Some code)
      let ?st = "if code \<ge> 200 then EvsubTerminated else EvsubActive"
      obtain ok c1 where n: "(if rf_inbound_sub (cs_refer c) \<noteq> None then notify_inbound X ?st code c else (True, c)) = (ok, c1)"
        by fastforce
      then have k: "refer_only c c1" "cs_refer c1 = cs_refer c"
        using notify_refer [of X ?st code c ok c1] by (simp_all split: if_splits)
      have "callback_effect c None c1" using k by (simp add: callback_effect_def no_subs_def)
      moreover have "callback_effect c ev c'" if "refer_finish RSucceeded c1 = (ev, c')"
        by (rule finish_effect [OF that k(1)]) (simp_all add: no_subs_def k(2))
      moreover have "(ev, c') = (if rf_result_delivered (cs_refer c) then (None, c)
          else if code \<ge> 200 \<and> code \<ge> 300 then refer_finish RFailed (fail_after_accept X code c)
          else if \<not> ok then refer_finish RFailed (fail_after_accept X 503 c1)
          else if code \<ge> 200 then refer_finish RSucceeded c1 else (None, c1))"
        using assms
        by (simp only: NotificationReceived refer_callback_step.simps notification_received_def Some option.case n Let_def
            prod.case snd_conv)
      ultimately show ?thesis
        using silent k(2) failed [OF _ refer_only_refl refl] failed [OF _ k(1)] by (auto split: if_splits)
    qed
  next
    case ReferAborted
    then have "refer_finish RFailed (stop_subscriptions X c) = (ev, c')" using assms by (simp add: refer_abort_def)
    then show ?thesis by (rule finish_effect [OF _ stop_refer(1)]) (simp_all add: no_subs_def stop_refer(2))
  qed
qed

lemma refer_run_effect:
  assumes "refer_run X ks c = (evs, c')"
  shows "refer_only c c' \<and> (no_subs c \<longrightarrow> no_subs c') \<and>
    (if rf_result_delivered (cs_refer c) then evs = [] \<and> rf_result_delivered (cs_refer c')
     else evs = [] \<and> \<not> rf_result_delivered (cs_refer c') \<or>
       rf_result_delivered (cs_refer c') \<and> (evs = [ReferCompleted RSucceeded] \<or> evs = [ReferCompleted RFailed] \<and> no_subs c'))"
  using assms
proof (induction ks arbitrary: c evs c')
  case (Cons k ks)
  obtain ev c1 where 1: "refer_callback_step X k c = (ev, c1)" by fastforce
  obtain es c2 where 2: "refer_run X ks c1 = (es, c2)" by fastforce
  from Cons.prems 1 2 have "c' = c2" "evs = (case ev of None \<Rightarrow> es | Some e \<Rightarrow> e # es)" by simp_all
  with callback_step_effect [OF 1] Cons.IH [OF 2] refer_only_trans [of c c1 c2] show ?case
    by (cases ev) (auto simp: callback_effect_def split: if_splits)
qed simp


text \<open>A transfer layer that accepts everything, and a blind transfer requested on the caller's leg.\<close>

definition sample_xfer :: "unit pjsip_xfer" where
  "sample_xfer = \<lparr>px_parse_uri = (\<lambda>s. Some \<lparr>ru_is_sip = True, ru_header_params = [], ru_rest = s\<rparr>),
     px_print_uri = (\<lambda>u. Some (ru_rest u)), px_parse_replaces = (\<lambda>_. None), px_print_replaces = (\<lambda>_. None),
     px_parse_status_line = (\<lambda>_. Some 200), px_find_dialog = (\<lambda>_ _ _ _. None), px_dialog_ids = (\<lambda>_ _. ([], [], [])),
     px_dlg_respond = (\<lambda>_ _ p. p), px_create_uac = (\<lambda>_ p. (Some 7, p)), px_create_uas = (\<lambda>_ p. (Some 8, p)),
     px_accept = (\<lambda>_ p. (True, p)), px_notify = (\<lambda>_ _ _ p. (Some sample_tx, p)), px_initiate = (\<lambda>_ _ p. (Some sample_tx, p)),
     px_send_request = (\<lambda>_ _ p. (True, p)), px_terminate = (\<lambda>_ p. p)\<rparr>"

definition sample_transfer :: "unit call" where
  "sample_transfer = sample_call\<lparr>cs_refer := \<lparr>rf_pending = Some \<lparr>rfq_dialog = 3, rfq_refer_to = [''sip:c@h''],
     rfq_referred_by = [], rfq_max_fwd = Some 70\<rparr>, rf_inbound_sub = None, rf_outbound_sub = None, rf_result_delivered = False\<rparr>\<rparr>"

lemma sample_transfer_starts: "fst (refer_start sample_xfer sample_env (\<lambda>_. None) Caller sample_transfer)"
  by (simp add: refer_start_def refer_to_def refer_subscribe_def notify_inbound_def forward_refer_def set_refer_def with_pj_def Let_def
      sample_xfer_def sample_env_def sample_transfer_def sample_call_def get_leg_def new_leg_def)


end
