(* ===== verification/Dialog_Actions.thy ===== *)
theory Dialog_Actions
  imports Refer_Handler "HOL-Library.Sublist"
begin

text \<open>
  The established phase of a call on the SIP stack, \<^verbatim>\<open>engine/src/sip/call/dialog_actions.cpp\<close> and
  \<^verbatim>\<open>handlers/bye_handler.cpp\<close>: the actions of the dialog machine, the callback for changes of the two
  invite sessions, and the operations by which the message router and the call manager drive the machine. A change of an
  invite session that an action causes is reported after the action, as SIP answers a BYE.
\<close>

subsection \<open>The actions\<close>

fun termination_reason_text :: "termination_reason \<Rightarrow> string" where
  "termination_reason_text kEngineRequested = ''call ended by the engine''"
| "termination_reason_text kReplaced = ''call replaced by a new dialog''"
| "termination_reason_text kHoldTimeout = ''hold timeout expired''"
| "termination_reason_text kRtpInactivity = ''RTP inactivity timeout expired''"
| "termination_reason_text kMediaNegotiationFailed = ''media negotiation failed''"

definition kSessionTimerExpiredCause :: string where
  "kSessionTimerExpiredCause = ''No session refresh received.''"

definition is_session_timer_expiry :: "'p pjsip \<Rightarrow> inv \<Rightarrow> 'p \<Rightarrow> bool" where
  "is_session_timer_expiry K i p \<longleftrightarrow>
     pj_cause K i p = 408 \<and> ascii_iequals (pj_cause_text K i p) kSessionTimerExpiredCause"

definition forward_to_other_leg :: "('p, 'st) engine_env \<Rightarrow> leg \<Rightarrow> 'p call \<Rightarrow> 'p call" where
  "forward_to_other_leg E which c =
     c\<lparr>cs_pj := end_session (en_pjsip E) (lg_inv (get_leg (other which) c)) 200 (cs_pj c)\<rparr>"

definition do_terminate_call :: "('p, 'st) engine_env \<Rightarrow> termination_reason \<Rightarrow> 'p call \<Rightarrow> 'p call" where
  "do_terminate_call E reason c =
     (let c = report_call_terminated E (if is_established c then kSuccess else kFailed_status)
                (Some (termination_reason_text reason)) c in
      end_both E 408 (reinvite_reset c))"

definition do_dialog_cleanup :: "('p, 'st) engine_env \<Rightarrow> 'p call \<Rightarrow> 'p call" where
  "do_dialog_cleanup E c =
     (let c = post_bridge [CloseTask] (report_call_terminated E kSuccess None c) in
      c\<lparr>cs_manager_ops := cs_manager_ops c @ [ScheduleRemove (cs_call_id c)]\<rparr>)"

definition dialog_actions_of ::
  "'p pjsip_xfer \<Rightarrow> (dlg \<Rightarrow> 'p call option) \<Rightarrow> ('p, 'st) engine_env \<Rightarrow> 'p call dialog_actions" where
  "dialog_actions_of X find_call E = \<lparr>
     forward_bye_to_other_leg = forward_to_other_leg E,
     answer_reinvite = reinvite_answer E,
     reject_reinvite_491_request_pending = reject_491 E,
     answer_update = update_answer E,
     reject_update_collision = (\<lambda>_ c. c),
     refer_started = refer_start X E find_call,
     refer_completed = (\<lambda>_ c. c),
     refer_busy = (\<lambda>_. refer_busy_reply X),
     terminate_call = do_terminate_call E,
     dl_cleanup = do_dialog_cleanup E\<rparr>"

subsection \<open>Driving the machine\<close>

definition dialog_dispatch ::
  "'p pjsip_xfer \<Rightarrow> (dlg \<Rightarrow> 'p call option) \<Rightarrow> ('p, 'st) engine_env \<Rightarrow> dialog_event \<Rightarrow> 'p call \<Rightarrow>
     (bool \<times> 'p call) option" where
  "dialog_dispatch X find_call E e c = do {
     (r, c', handled) \<leftarrow> process_event (dialog_table (dialog_actions_of X find_call E)) (cs_dialog c) c e;
     Some (handled, c'\<lparr>cs_dialog := r\<rparr>) }"

text \<open>An event that a handler may have for the machine.\<close>

definition dispatch_result ::
  "'p pjsip_xfer \<Rightarrow> (dlg \<Rightarrow> 'p call option) \<Rightarrow> ('p, 'st) engine_env \<Rightarrow> dialog_event option \<times> 'p call \<Rightarrow> 'p call option" where
  "dispatch_result X find_call E r = (case r of
     (None, c) \<Rightarrow> Some c
   | (Some e, c) \<Rightarrow> map_option snd (dialog_dispatch X find_call E e c))"

text \<open>A leg that drops during a renegotiation cannot answer any more and ends the call.\<close>

definition after_disconnect ::
  "'p pjsip_xfer \<Rightarrow> (dlg \<Rightarrow> 'p call option) \<Rightarrow> ('p, 'st) engine_env \<Rightarrow> leg \<Rightarrow> bool \<Rightarrow> 'p call \<Rightarrow> 'p call option" where
  "after_disconnect X find_call E which both_disconnected c =
     (if is_in (cs_dialog c) Reinviting then dispatch_result X find_call E (Some (DlExchangeFinished OFailed), c)
      else if is_in (cs_dialog c) Active \<or> is_in (cs_dialog c) Referring then
        dispatch_result X find_call E (Some (ByeReceived which), c)
      else if is_in (cs_dialog c) ReferringWhileTerminating \<and> both_disconnected then do {
        c' \<leftarrow> dispatch_result X find_call E (refer_abort X c);
        dispatch_result X find_call E (Some (CallEnded kEngineRequested), c') }
      else if is_in (cs_dialog c) Terminating then
        dispatch_result X find_call E (Some (CallEnded kEngineRequested), c)
      else Some c)"

definition dialog_on_leg_state_changed ::
  "'p pjsip_xfer \<Rightarrow> (dlg \<Rightarrow> 'p call option) \<Rightarrow> ('p, 'st) engine_env \<Rightarrow> inv \<Rightarrow> 'p call \<Rightarrow> 'p call option" where
  "dialog_on_leg_state_changed X find_call E i c =
     (let which = leg_for i c in
      if pj_state (en_pjsip E) i (cs_pj c) \<noteq> InvDisconnected then Some c
      else
        let c1 = update_leg which (\<lambda>l. l\<lparr>lg_disconnected := True\<rparr>) c;
            both_disconnected = (lg_disconnected (cs_caller c1) \<and> lg_disconnected (cs_callee c1));
            c2 = (if is_session_timer_expiry (en_pjsip E) i (cs_pj c1)
                  then report_call_terminated E kSuccess (Some ''session timer expired'') c1 else c1) in
        after_disconnect X find_call E which both_disconnected c2)"

definition dialog_on_media_update ::
  "'p pjsip_xfer \<Rightarrow> (dlg \<Rightarrow> 'p call option) \<Rightarrow> ('p, 'st) engine_env \<Rightarrow> inv \<Rightarrow> bool \<Rightarrow> 'p call \<Rightarrow> 'p call option" where
  "dialog_on_media_update X find_call E i success c =
     (let (outcome, c') = reinvite_on_media_update E i success c in
      dispatch_result X find_call E (map_option DlExchangeFinished outcome, c'))"

subsection \<open>What the actions leave alone\<close>

fun is_terminated_event :: "call_event \<Rightarrow> bool" where
  "is_terminated_event (CallTerminated _ _ _ _ _) = True"
| "is_terminated_event _ = False"

fun is_removal :: "manager_op \<Rightarrow> bool" where
  "is_removal (ScheduleRemove _) = True"
| "is_removal _ = False"

fun is_close_task :: "bridge_event \<Rightarrow> bool" where
  "is_close_task CloseTask = True"
| "is_close_task _ = False"

definition dl_frame :: "'p call \<Rightarrow> _" where
  "dl_frame c = (cs_call_id c, cs_setup c, cs_dialog c, lg_disconnected (cs_caller c), lg_disconnected (cs_callee c),
     cs_manager_ops c, cs_terminated_reported c, rf_result_delivered (cs_refer c),
     filter is_terminated_event (cs_call_events c), filter is_close_task (cs_bridge_posts c))"

lemma frame_updates [simp]:
  "dl_frame (c\<lparr>cs_pj := p\<rparr>) = dl_frame c" "dl_frame (c\<lparr>cs_offerless := f\<rparr>) = dl_frame c"
  "dl_frame (c\<lparr>cs_hold_started_at := t\<rparr>) = dl_frame c" "dl_frame (c\<lparr>cs_last_packet_time := n\<rparr>) = dl_frame c"
  "dl_frame (c\<lparr>cs_pending_reinvite := r\<rparr>) = dl_frame c"
  by (simp_all add: dl_frame_def)

lemma frame_post [simp]: "list_all (\<lambda>t. \<not> is_close_task t) ts \<Longrightarrow> dl_frame (post_bridge ts c) = dl_frame c"
  by (induction ts) (simp_all add: dl_frame_def post_bridge_def)

lemma frame_leg [simp]:
  "(\<And>l. lg_disconnected (f l) = lg_disconnected l) \<Longrightarrow> dl_frame (update_leg which f c) = dl_frame c"
  by (cases which) (simp_all add: dl_frame_def update_leg_def)

lemma frame_with_pj: "with_pj g c = (r, c') \<Longrightarrow> dl_frame c' = dl_frame c"
  by (auto simp: with_pj_def split: prod.splits)

lemma frame_snd_pj [simp]: "dl_frame (snd (with_pj g c)) = dl_frame c"
  by (simp add: with_pj_def split: prod.split)

lemma frame_direction [simp]: "dl_frame (apply_media_direction E which d c) = dl_frame c"
  by (simp add: apply_media_direction_def record_media_direction_def reset_inactivity_baseline_def Let_def)

lemma frame_updated [simp]: "dl_frame (report_call_updated E c) = dl_frame c"
  by (simp add: report_call_updated_def send_call_updated_def send_event_def dl_frame_def)

lemma frame_commit [simp]: "dl_frame (commit_negotiated_media E which n c) = dl_frame c"
  by (simp add: commit_negotiated_media_def Let_def)

lemma reconfigure_frame: "reconfigure_media_bridge E which codec pt c = (ok, c') \<Longrightarrow> dl_frame c' = dl_frame c"
  by (auto dest!: reconfigure_result)

lemma negotiate_frame:
  assumes "negotiate_mid_dialog_offer E offer which c = (r, c')"
  shows "dl_frame c' = dl_frame c"
  using assms unfolding negotiate_mid_dialog_offer_def retarget_leg_def
  by (auto simp: Let_def dest: reconfigure_frame split: if_splits option.splits prod.splits)

lemma answered_frame:
  assumes "apply_answered_media E which answer c = (ok, c')"
  shows "dl_frame c' = dl_frame c"
  using assms unfolding apply_answered_media_def retarget_leg_def
  by (auto simp: Let_def dest: reconfigure_frame split: if_splits option.splits prod.splits)

lemma reinvite_frame:
  assumes "reinvite_answer E offer which c = (oc, c')"
  shows "dl_frame c' = dl_frame c"
  using assms unfolding reinvite_answer_def reinvite_respond_def
  by (auto simp: Let_def dest!: negotiate_frame frame_with_pj split: if_splits option.splits prod.splits sum.splits)

lemma update_frame:
  assumes "update_answer E offer which c = (oc, c')"
  shows "dl_frame c' = dl_frame c"
  using assms unfolding update_answer_def
  by (auto simp: Let_def dest!: negotiate_frame frame_with_pj split: if_splits option.splits prod.splits sum.splits)

lemma media_update_frame:
  assumes "reinvite_on_media_update E i ok c = (oc, c')"
  shows "dl_frame c' = dl_frame c"
  using assms unfolding reinvite_on_media_update_def
  by (auto simp: Let_def dest!: answered_frame split: if_splits option.splits prod.splits)

lemma frame_491 [simp]: "dl_frame (reject_491 E which c) = dl_frame c"
  by (auto simp: reject_491_def reinvite_respond_def with_pj_def split: prod.splits)

lemma frame_refer_reject [simp]: "dl_frame (refer_reject X code c) = dl_frame c"
  by (simp add: refer_reject_def split: option.split)

lemma frame_bye [simp]: "dl_frame (forward_to_other_leg E which c) = dl_frame c"
  by (simp add: forward_to_other_leg_def)

lemma refer_only_frame:
  "refer_only c c' \<Longrightarrow> rf_result_delivered (cs_refer c') = rf_result_delivered (cs_refer c) \<Longrightarrow> dl_frame c' = dl_frame c"
  by (auto simp: refer_only_def dl_frame_def)

subsection \<open>One dispatch\<close>

abbreviation gone :: "leg \<Rightarrow> 'p call \<Rightarrow> bool" where
  "gone which c \<equiv> lg_disconnected (get_leg which c)"

abbreviation delivered :: "'p call \<Rightarrow> bool" where
  "delivered c \<equiv> rf_result_delivered (cs_refer c)"

text \<open>What identifies the history of a call: whether its events are reported, its Call-ID, and what it had asked of the manager
  at some earlier time.\<close>

type_synonym history_key = "bool \<times> string \<times> manager_op list"

text \<open>What has been done for an established call in state \<open>s\<close>: it is removed and its relay closed exactly when the
  dialog is done, its end is reported at most once and by then.\<close>

definition done_once :: "history_key \<Rightarrow> dialog_state \<Rightarrow> 'p call \<Rightarrow> bool" where
  "done_once K s c \<longleftrightarrow> is_established c \<and> cs_call_id c = fst (snd K) \<and> prefix (snd (snd K)) (cs_manager_ops c) \<and>
     filter is_removal (cs_manager_ops c) = (if s = DialogDone then [ScheduleRemove (fst (snd K))] else []) \<and>
     length (filter is_close_task (cs_bridge_posts c)) = (if s = DialogDone then 1 else 0) \<and>
     length (filter is_terminated_event (cs_call_events c)) = (if cs_terminated_reported c \<and> fst K then 1 else 0) \<and>
     (s = DialogDone \<longrightarrow> cs_terminated_reported c)"

lemma done_once_frame: "dl_frame c' = dl_frame c \<Longrightarrow> done_once K s c' = done_once K s c"
  by (simp add: dl_frame_def done_once_def is_established_def)

lemma done_once_states: "s \<noteq> DialogDone \<Longrightarrow> s' \<noteq> DialogDone \<Longrightarrow> done_once K s c = done_once K s' c"
  by (simp add: done_once_def)

lemma frame_flags: "dl_frame c' = dl_frame c \<Longrightarrow> gone which c' = gone which c \<and> delivered c' = delivered c"
  by (cases which) (simp_all add: dl_frame_def get_leg_def)

lemma report_done:
  assumes "en_has_event_sink E = fst K" and "done_once K s c"
  shows "done_once K s (report_call_terminated E status reason c)"
    "cs_terminated_reported (report_call_terminated E status reason c)"
  using assms by (auto simp: report_call_terminated_def send_event_def done_once_def is_established_def Let_def split: if_splits)

lemma report_flags [simp]:
  "gone which (report_call_terminated E status reason c) = gone which c"
  "delivered (report_call_terminated E status reason c) = delivered c"
  by (cases which; simp add: report_call_terminated_def send_event_def get_leg_def Let_def)+

lemma end_both_frame [simp]: "dl_frame (end_both E code c) = dl_frame c"
  by (simp add: end_both_def Let_def)

lemma reset_frame [simp]: "dl_frame (reinvite_reset c) = dl_frame c"
  by (simp add: reinvite_reset_def)

lemma terminate_effect:
  assumes "en_has_event_sink E = fst K" and "done_once K s c"
  shows "done_once K s (do_terminate_call E reason c)" "gone which (do_terminate_call E reason c) = gone which c"
    "delivered (do_terminate_call E reason c) = delivered c"
proof -
  let ?r = "report_call_terminated E (if is_established c then kSuccess else kFailed_status) (Some (termination_reason_text reason)) c"
  have "dl_frame (do_terminate_call E reason c) = dl_frame ?r" by (simp add: do_terminate_call_def Let_def)
  note done_once_frame [OF this] frame_flags [OF this]
  with report_done(1) [OF assms] show "done_once K s (do_terminate_call E reason c)"
    "gone which (do_terminate_call E reason c) = gone which c" "delivered (do_terminate_call E reason c) = delivered c" by simp_all
qed

lemma cleanup_effect:
  assumes "en_has_event_sink E = fst K" and "done_once K Terminated c"
  shows "done_once K DialogDone (do_dialog_cleanup E c)" "gone which (do_dialog_cleanup E c) = gone which c"
    "delivered (do_dialog_cleanup E c) = delivered c"
proof -
  let ?r = "report_call_terminated E kSuccess None c"
  have "done_once K Terminated ?r" "cs_terminated_reported ?r" using report_done [OF assms] by simp_all
  then show "done_once K DialogDone (do_dialog_cleanup E c)"
    by (simp add: do_dialog_cleanup_def done_once_def is_established_def post_bridge_def Let_def)
  have "gone which (do_dialog_cleanup E c) = gone which ?r" "delivered (do_dialog_cleanup E c) = delivered ?r"
    by (cases which; simp add: do_dialog_cleanup_def post_bridge_def get_leg_def Let_def)+
  then show "gone which (do_dialog_cleanup E c) = gone which c" "delivered (do_dialog_cleanup E c) = delivered c" by simp_all
qed

lemma refer_start_effect:
  assumes "refer_start X E find_call which c = (ok, c')"
  shows "done_once K s c' = done_once K s c" "gone w c' = gone w c" "ok \<Longrightarrow> \<not> delivered c'"
proof -
  have "done_once K s c' = done_once K s c \<and> gone w c' = gone w c \<and> (ok \<longrightarrow> \<not> delivered c')"
  proof (cases "no_subs c")
    case True
    let ?c = "set_refer (\<lambda>r. r\<lparr>rf_result_delivered := False\<rparr>) c"
    from refer_start_outcome [OF assms True] have o: "refer_only ?c c'" "delivered c' = delivered ?c" by (simp_all add: start_outcome_def)
    have "done_once K s ?c = done_once K s c" "gone w ?c = gone w c" "\<not> delivered ?c"
      by (cases w; simp add: done_once_def is_established_def set_refer_def get_leg_def)+
    then show ?thesis using done_once_frame frame_flags refer_only_frame [OF o] o(2) by metis
  next
    case False
    then have "\<not> ok" "c' = refer_reject X 491 c" using assms by (auto simp: refer_start_def no_subs_def split: if_splits)
    then show ?thesis
      using done_once_frame [OF frame_refer_reject [of X 491 c], of K s] frame_flags [OF frame_refer_reject [of X 491 c], of w]
      by metis
  qed
  then show "done_once K s c' = done_once K s c" "gone w c' = gone w c" "ok \<Longrightarrow> \<not> delivered c'" by blast+
qed

fun is_refer_completed :: "dialog_event \<Rightarrow> bool" where
  "is_refer_completed (ReferCompleted _) = True"
| "is_refer_completed _ = False"

definition dialog_runs :: "history_key \<Rightarrow> (leg \<Rightarrow> bool) \<Rightarrow> dialog_state \<Rightarrow> 'p call \<Rightarrow> dialog_event list \<Rightarrow> bool" where
  "dialog_runs K g s c q \<longleftrightarrow> length q \<le> 1 \<and> done_once K s c \<and> (\<forall>which. gone which c = g which) \<and>
     (s = Terminated \<longrightarrow> q = [DlCleanup]) \<and>
     (s \<in> {Referring, ReferringWhileTerminating} \<longrightarrow> delivered c \<longrightarrow> (\<exists>e \<in> set q. is_refer_completed e))"

lemma kept_action:
  assumes "dialog_runs K g s c (e # q)" and "dl_frame c' = dl_frame c" and "s \<noteq> DialogDone" "s' \<noteq> DialogDone" "s' \<noteq> Terminated"
    and "s' \<in> {Referring, ReferringWhileTerminating} \<Longrightarrow> s \<in> {Referring, ReferringWhileTerminating} \<and> \<not> is_refer_completed e"
    and "length es \<le> 1"
  shows "dialog_runs K g s' c' (q @ es)"
  using assms done_once_frame [OF assms(2), of K s'] done_once_states [OF assms(3,4), of K c] frame_flags [OF assms(2)]
  by (auto simp: dialog_runs_def)

lemma terminate_action:
  assumes "dialog_runs K g s c (e # q)" and "en_has_event_sink E = fst K" and "s \<noteq> DialogDone"
  shows "dialog_runs K g Terminating (do_terminate_call E reason c) q"
  using assms terminate_effect(1) [OF assms(2), of s c reason] terminate_effect(2,3) [OF assms(2), where s = s and c = c and reason = reason] done_once_states [of s Terminating K "do_terminate_call E reason c"]
  by (auto simp: dialog_runs_def)

lemmas dl_select = dialog_actions_of_def

lemma dialog_runs_step:
  assumes r: "dialog_runs K g s c (e # q)" and sink: "en_has_event_sink E = fst K"
    and t: "dialog_table (dialog_actions_of X find_call E) s e c = Some (s', es, c')"
  shows "dialog_runs K g s' c' (q @ es)"
proof -
  have q: "q = []" using r by (simp add: dialog_runs_def)
  have keep: "dialog_runs K g s' c' es" if "dl_frame c' = dl_frame c" "s \<noteq> DialogDone" "s' \<noteq> DialogDone" "s' \<noteq> Terminated"
      "s' \<in> {Referring, ReferringWhileTerminating} \<Longrightarrow> s \<in> {Referring, ReferringWhileTerminating} \<and> \<not> is_refer_completed e"
      "length es \<le> 1" for s' c' es
    using kept_action [OF r that] q by simp
  note stop = terminate_action [OF r sink, unfolded q]
  have "dialog_runs K g s' c' es"
  proof (cases s)
    case Active
    show ?thesis
    proof (cases e)
      case (ReferReceived which)
      then obtain ok where ok: "refer_start X E find_call which c = (ok, c')" "s' = Referring"
          "es = (if ok then [] else [ReferCompleted RFailed])"
        using t Active by (auto simp: dl_select handle_refer_def Let_def split: prod.splits)
      with r Active q refer_start_effect(1) [OF ok(1), where K = K] refer_start_effect(2,3) [OF ok(1)] done_once_states [of Active Referring K c] show ?thesis
        by (auto simp: dialog_runs_def)
    qed (use t Active stop in \<open>auto simp: dl_select handle_reinvite_def handle_update_def publish_outcome_def Let_def
        intro: keep dest: reinvite_frame update_frame split: prod.splits if_splits\<close>)
  next
    case Terminating
    with t r q done_once_states [of Terminating Terminated K c] show ?thesis by (auto simp: dialog_runs_def split: dialog_event.splits)
  next
    case Terminated
    with t r q cleanup_effect [OF sink] show ?thesis by (auto simp: dialog_runs_def dl_select split: dialog_event.splits)
  qed (use t stop in \<open>auto simp: dl_select refer_busy_reply_def intro: keep split: dialog_event.splits if_splits\<close>)
  with q show ?thesis by simp
qed

lemma dialog_runs_unhandled:
  assumes "dialog_runs K g s c (e # q)" and "dialog_table A s e c = None"
  shows "dialog_runs K g s c q"
  using assms by (cases s; cases e) (auto simp: dialog_runs_def split: if_splits)

lemma dialog_dispatch_runs:
  assumes "dialog_runs K g s c [e]" and sink: "en_has_event_sink E = fst K" and "s = rn_state (cs_dialog c)"
  obtains s' c1 handled where
    "sml_process_event (dialog_table (dialog_actions_of X find_call E)) s c e = Some (s', c1, handled)"
    "dialog_dispatch X find_call E e c = Some (handled, c1\<lparr>cs_dialog := (cs_dialog c)\<lparr>rn_state := s', rn_processing := False\<rparr>\<rparr>)"
    "dialog_runs K g s' c1 []"
proof -
  let ?T = "dialog_table (dialog_actions_of X find_call E)"
  have "\<exists>s' c' h. sml_process_event ?T s c e = Some (s', c', h) \<and> dialog_runs K g s' c' []"
  proof (rule dl.dispatch_rule)
    show "dialog_runs K g s c [e]" by fact
  qed (use dialog_runs_unhandled dialog_runs_step [OF _ sink] in blast)+
  then obtain s' c1 h where 1: "sml_process_event ?T s c e = Some (s', c1, h)" "dialog_runs K g s' c1 []" by blast
  then show thesis using that [of s' c1 h] assms(3) by (simp add: dialog_dispatch_def process_event_def Let_def)
qed

lemma ending_stays: "sml_process_event (dialog_table A) s c e = Some (s', c', h) \<Longrightarrow> dialog_ending s \<Longrightarrow> dialog_ending s'"
proof -
  have step: "dialog_ending s'" if "dialog_ending s" "dialog_table A s e c = Some (s', es, c')" for s e c s' es c'
    using that by (cases s; cases e) (auto simp: dialog_ending_def)
  show "sml_process_event (dialog_table A) s c e = Some (s', c', h) \<Longrightarrow> dialog_ending s \<Longrightarrow> dialog_ending s'"
    by (rule dl.dispatch_inv [of "\<lambda>s _. dialog_ending s"]) (use step in blast)+
qed

lemma done_stays: "sml_process_event (dialog_table A) DialogDone c e = Some (DialogDone, c, False)"
  by (simp add: sml_process_event_def)

text \<open>The moves the end of a leg makes.\<close>

lemma leg_moves:
  "sml_process_event (dialog_table A) Active c (ByeReceived w) = Some (Terminating, forward_bye_to_other_leg A w c, True)"
  "sml_process_event (dialog_table A) Referring c (ByeReceived w) =
     Some (ReferringWhileTerminating, forward_bye_to_other_leg A w c, True)"
  "sml_process_event (dialog_table A) Reinviting c (DlExchangeFinished OFailed) =
     Some (Terminating, terminate_call A kMediaNegotiationFailed c, True)"
  "sml_process_event (dialog_table A) ReferringWhileTerminating c (ReferCompleted oc) = Some (Terminating, refer_completed A oc c, True)"
  by (simp_all add: sml_process_event_def table_simps)

definition dialog_rests :: "history_key \<Rightarrow> 'p call \<Rightarrow> bool" where
  "dialog_rests K c \<longleftrightarrow>
     (let s = rn_state (cs_dialog c) in
      dialog_runs K (\<lambda>w. gone w c) s c [] \<and>
      ((\<exists>which. gone which c) \<longrightarrow> dialog_ending s) \<and> ((\<forall>which. gone which c) \<longrightarrow> s = DialogDone))"

lemma gone_dialog [simp]: "gone w (c\<lparr>cs_dialog := r\<rparr>) = gone w c"
  by (cases w) (simp_all add: get_leg_def)

lemma done_once_dialog [simp]: "done_once K s (c\<lparr>cs_dialog := r\<rparr>) = done_once K s c"
  by (simp add: done_once_def is_established_def)

lemma dialog_runs_dialog [simp]: "dialog_runs K g s (c\<lparr>cs_dialog := r\<rparr>) q = dialog_runs K g s c q"
  by (simp add: dialog_runs_def)

text \<open>A dispatch after which the machine is in the state \<open>s'\<close>.\<close>

lemma dispatch_to:
  assumes runs: "dialog_runs K g s c [e]" and sink: "en_has_event_sink E = fst K" and s: "s = rn_state (cs_dialog c)"
    and ends: "\<And>s' c1 h. sml_process_event (dialog_table (dialog_actions_of X find_call E)) s c e = Some (s', c1, h) \<Longrightarrow>
        ((\<exists>w. g w) \<longrightarrow> dialog_ending s') \<and> ((\<forall>w. g w) \<longrightarrow> s' = DialogDone)"
  obtains handled c' where "dialog_dispatch X find_call E e c = Some (handled, c')" "dialog_rests K c'" "\<And>w. gone w c' = g w"
proof -
  obtain s' c1 handled where 1:
    "sml_process_event (dialog_table (dialog_actions_of X find_call E)) s c e = Some (s', c1, handled)"
    "dialog_dispatch X find_call E e c = Some (handled, c1\<lparr>cs_dialog := (cs_dialog c)\<lparr>rn_state := s', rn_processing := False\<rparr>\<rparr>)"
    "dialog_runs K g s' c1 []"
    by (rule dialog_dispatch_runs [OF runs sink s])
  let ?c' = "c1\<lparr>cs_dialog := (cs_dialog c)\<lparr>rn_state := s', rn_processing := False\<rparr>\<rparr>"
  have g: "gone w ?c' = g w" for w using 1(3) by (simp add: dialog_runs_def)
  have "dialog_rests K ?c'" using 1(3) ends [OF 1(1)] g by (simp add: dialog_rests_def Let_def)
  from that [OF 1(2) this g] show thesis .
qed

lemma rests_runs:
  assumes "dialog_rests K c"
  shows "dialog_runs K (\<lambda>w. gone w c) (rn_state (cs_dialog c)) c [e]"
proof -
  have "dialog_runs K (\<lambda>w. gone w c) (rn_state (cs_dialog c)) c []" using assms by (simp add: dialog_rests_def Let_def)
  then show ?thesis by (auto simp: dialog_runs_def)
qed

lemma dialog_dispatch_rests:
  assumes "dialog_rests K c" and "en_has_event_sink E = fst K"
  obtains handled c' where "dialog_dispatch X find_call E e c = Some (handled, c')" "dialog_rests K c'" "\<And>w. gone w c' = gone w c"
proof -
  have ends: "((\<exists>w. gone w c) \<longrightarrow> dialog_ending s') \<and> ((\<forall>w. gone w c) \<longrightarrow> s' = DialogDone)"
    if "sml_process_event (dialog_table (dialog_actions_of X find_call E)) (rn_state (cs_dialog c)) c e = Some (s', c1, h)" for s' c1 h
    using assms(1) ending_stays [OF that] that by (auto simp: dialog_rests_def Let_def done_stays)
  show thesis by (rule dispatch_to [OF rests_runs [OF assms(1)] assms(2) refl]) (use ends that in blast)+
qed

subsection \<open>The callbacks\<close>

lemma rests_cong:
  assumes "dl_frame c' = dl_frame c"
  shows "dialog_rests K c' = dialog_rests K c" "gone w c' = gone w c"
proof -
  have "gone w c' = gone w c" "delivered c' = delivered c" for w using frame_flags [OF assms] by auto
  moreover have "cs_dialog c' = cs_dialog c" using assms by (simp add: dl_frame_def)
  ultimately show "dialog_rests K c' = dialog_rests K c" "gone w c' = gone w c"
    using done_once_frame [OF assms] by (simp_all add: dialog_rests_def dialog_runs_def Let_def)
qed

lemma media_update_rests:
  assumes "dialog_rests K c" and "en_has_event_sink E = fst K"
  obtains c' where "dialog_on_media_update X find_call E i ok c = Some c'" "dialog_rests K c'" "\<And>w. gone w c' = gone w c"
proof -
  obtain oc c1 where 1: "reinvite_on_media_update E i ok c = (oc, c1)" by fastforce
  note k = rests_cong(1) [OF media_update_frame [OF 1], of K] rests_cong(2) [OF media_update_frame [OF 1]]
  show thesis
  proof (cases oc)
    case None
    with that [of c1] k assms(1) show thesis by (simp add: dialog_on_media_update_def 1 dispatch_result_def)
  next
    case (Some x)
    obtain h c' where "dialog_dispatch X find_call E (DlExchangeFinished x) c1 = Some (h, c')" "dialog_rests K c'" "\<And>w. gone w c' = gone w c1"
      by (rule dialog_dispatch_rests [OF _ assms(2)]) (use k assms(1) in auto)
    with that [of c'] Some k(2) show thesis by (simp add: dialog_on_media_update_def 1 dispatch_result_def)
  qed
qed

lemma refer_callback_rests:
  assumes "dialog_rests K c" and "en_has_event_sink E = fst K"
  obtains c' where "dispatch_result X find_call E (refer_callback_step X k c) = Some c'" "dialog_rests K c'"
    "\<And>w. gone w c' = gone w c"
proof -
  obtain ev c1 where 1: "refer_callback_step X k c = (ev, c1)" by fastforce
  note eff = callback_step_effect [OF 1]
  show thesis
  proof (cases ev)
    case None
    then have "dl_frame c1 = dl_frame c" using eff by (intro refer_only_frame) (simp_all add: callback_effect_def)
    with that [of c1] rests_cong [OF this] assms(1) None 1 show thesis by (simp add: dispatch_result_def)
  next
    case (Some e)
    then have e: "is_refer_completed e" and o: "refer_only c c1" using eff by (auto simp: callback_effect_def)
    have same: "gone w c1 = gone w c" "done_once K s c1 = done_once K s c" "cs_dialog c1 = cs_dialog c" for w s
      using o by (cases w; auto simp: refer_only_def done_once_def is_established_def get_leg_def)+
    let ?s = "rn_state (cs_dialog c)"
    have runs: "dialog_runs K (\<lambda>w. gone w c) ?s c1 [e]"
      using rests_runs [OF assms(1), of e] e same by (auto simp: dialog_runs_def)
    have ends: "((\<exists>w. gone w c) \<longrightarrow> dialog_ending s') \<and> ((\<forall>w. gone w c) \<longrightarrow> s' = DialogDone)"
      if "sml_process_event (dialog_table (dialog_actions_of X find_call E)) ?s c1 e = Some (s', c2, h)" for s' c2 h
      using assms(1) ending_stays [OF that] that by (auto simp: dialog_rests_def Let_def done_stays)
    have "?s = rn_state (cs_dialog c1)" by (simp add: same(3))
    then obtain h c' where
      "dialog_dispatch X find_call E e c1 = Some (h, c')" "dialog_rests K c'" "\<And>w. gone w c' = gone w c"
      by (rule dispatch_to [OF runs assms(2)]) (use ends in blast)+
    with that [of c'] Some 1 show thesis by (simp add: dispatch_result_def)
  qed
qed

text \<open>A leg that ends: the call goes one step towards its end, and is done once both legs have ended.\<close>

lemma leg_changed_rests:
  assumes rest: "dialog_rests K c" and sink: "en_has_event_sink E = fst K"
  obtains c' where "dialog_on_leg_state_changed X find_call E i c = Some c'" "dialog_rests K c'"
    "\<And>w. gone w c' = (gone w c \<or> (w = leg_for i c \<and> pj_state (en_pjsip E) i (cs_pj c) = InvDisconnected))"
proof (cases "pj_state (en_pjsip E) i (cs_pj c) = InvDisconnected")
  case False
  with that [of c] rest show thesis by (simp add: dialog_on_leg_state_changed_def Let_def)
next
  case True
  let ?w = "leg_for i c" and ?s = "rn_state (cs_dialog c)"
  define c1 where "c1 = update_leg ?w (\<lambda>l. l\<lparr>lg_disconnected := True\<rparr>) c"
  define c2 where "c2 = (if is_session_timer_expiry (en_pjsip E) i (cs_pj c1)
    then report_call_terminated E kSuccess (Some ''session timer expired'') c1 else c1)"
  let ?g = "\<lambda>w. gone w c \<or> w = ?w"
  let ?both = "lg_disconnected (cs_caller c1) \<and> lg_disconnected (cs_callee c1)"
  have c1: "gone w c1 = ?g w" "done_once K ?s c1 = done_once K ?s c" "delivered c1 = delivered c" "cs_dialog c1 = cs_dialog c" for w
    by (cases ?w; simp add: c1_def get_leg_def update_leg_def done_once_def is_established_def split: leg.split)+
  have both: "?both \<longleftrightarrow> (\<forall>w. ?g w)" using c1(1) [of Caller] c1(1) [of Callee] by (simp add: all_legs get_leg_def)
  have runs0: "dialog_runs K (\<lambda>w. gone w c) ?s c []" using rest by (simp add: dialog_rests_def Let_def)
  have done2: "done_once K ?s c2"
    using runs0 c1(2) report_done(1) [OF sink, of ?s c1] by (simp add: c2_def dialog_runs_def)
  have flags2: "gone w c2 = ?g w" "delivered c2 = delivered c" for w using c1(1,3) by (simp_all add: c2_def)
  have dlg2: "cs_dialog c2 = cs_dialog c"
    using c1(4) by (simp add: c2_def report_call_terminated_def send_event_def Let_def)
  have runs: "dialog_runs K ?g ?s c2 q" if "length q \<le> 1" for q
    using runs0 done2 flags2 that by (auto simp: dialog_runs_def)
  have step: "\<exists>c'. dispatch_result X find_call E (Some e, c3) = Some c' \<and> dialog_rests K c' \<and> (\<forall>w. gone w c' = ?g w)"
    if r: "dialog_runs K ?g s c3 [e]" and s: "s = rn_state (cs_dialog c3)"
      and m: "sml_process_event (dialog_table (dialog_actions_of X find_call E)) s c3 e = Some (s', c4, True)"
      and e: "dialog_ending s'" "(\<forall>w. ?g w) \<Longrightarrow> s' = DialogDone" for e s c3 s' c4
  proof -
    obtain h c' where "dialog_dispatch X find_call E e c3 = Some (h, c')" "dialog_rests K c'" "\<And>w. gone w c' = ?g w"
      by (rule dispatch_to [OF r sink s]) (use m e in auto)
    then show ?thesis by (simp add: dispatch_result_def)
  qed
  have result: "dialog_on_leg_state_changed X find_call E i c = after_disconnect X find_call E ?w (\<forall>w. ?g w) c2"
    unfolding dialog_on_leg_state_changed_def Let_def c2_def both [symmetric] unfolding c1_def using True by simp
  have alone: "\<not> dialog_ending ?s \<Longrightarrow> \<not> gone w c" for w using rest by (auto simp: dialog_rests_def Let_def)
  have "\<exists>c'. after_disconnect X find_call E ?w (\<forall>w. ?g w) c2 = Some c' \<and> dialog_rests K c' \<and> (\<forall>w. gone w c' = ?g w)"
  proof (cases ?s)
    case Active
    then have "\<not> (\<forall>w. ?g w)" using alone [of "other ?w"] by (cases ?w) (auto simp: dialog_ending_def all_legs)
    with step [OF runs [of "[ByeReceived ?w]"] _ leg_moves(1) [unfolded Active [symmetric]]] Active show ?thesis
      by (simp add: after_disconnect_def is_in_def dlg2 dialog_ending_def)
  next
    case Reinviting
    then have "\<not> (\<forall>w. ?g w)" using alone [of "other ?w"] by (cases ?w) (auto simp: dialog_ending_def all_legs)
    with step [OF runs [of "[DlExchangeFinished OFailed]"] _ leg_moves(3) [unfolded Reinviting [symmetric]]] Reinviting show ?thesis
      by (simp add: after_disconnect_def is_in_def dlg2 dialog_ending_def)
  next
    case Referring
    then have "\<not> (\<forall>w. ?g w)" using alone [of "other ?w"] by (cases ?w) (auto simp: dialog_ending_def all_legs)
    with step [OF runs [of "[ByeReceived ?w]"] _ leg_moves(2) [unfolded Referring [symmetric]]] Referring show ?thesis
      by (simp add: after_disconnect_def is_in_def dlg2 dialog_ending_def)
  next
    case Terminating
    with step [OF runs [of "[CallEnded kEngineRequested]"] _ terminating_ends [unfolded Terminating [symmetric]]] show ?thesis
      by (simp add: after_disconnect_def is_in_def dlg2 dialog_ending_def)
  next
    case Terminated
    with runs0 show ?thesis by (simp add: dialog_runs_def)
  next
    case DialogDone
    with runs [of "[]"] flags2 dlg2 show ?thesis by (simp add: after_disconnect_def is_in_def dialog_rests_def dialog_ending_def Let_def)
  next
    case ReferringWhileTerminating
    note rwt = this
    show ?thesis
    proof (cases "\<forall>w. ?g w")
      case False
      then have "after_disconnect X find_call E ?w (\<forall>w. ?g w) c2 = Some c2"
        using rwt dlg2 by (auto simp: after_disconnect_def is_in_def)
      moreover have "dialog_rests K c2"
        using False rwt runs [of "[]"] flags2 dlg2 by (auto simp: dialog_rests_def dialog_ending_def Let_def)
      ultimately show ?thesis using flags2(1) by blast
    next
      case all: True
      obtain ev c3 where abort: "refer_abort X c2 = (ev, c3)" by fastforce
      have open_result: "\<not> delivered c2" using runs [of "[]"] rwt by (simp add: dialog_runs_def)
      then have ev: "ev = Some (ReferCompleted RFailed)"
        using abort by (auto simp: refer_abort_def refer_finish_def stop_refer(2) split: if_splits)
      have "refer_only c2 c3" using callback_step_effect [of X ReferAborted c2 ev c3] abort by (simp add: callback_effect_def)
      then have "gone w c3 = gone w c2" "done_once K ?s c3 = done_once K ?s c2" "cs_dialog c3 = cs_dialog c2" for w
        by (cases w; auto simp: refer_only_def done_once_def is_established_def get_leg_def)+
      then have r3: "dialog_runs K ?g ?s c3 [ReferCompleted RFailed]" and s3: "?s = rn_state (cs_dialog c3)"
        using runs [of "[ReferCompleted RFailed]"] dlg2 by (auto simp: dialog_runs_def)
      obtain s' c4 h where d: "dialog_dispatch X find_call E (ReferCompleted RFailed) c3 =
          Some (h, c4\<lparr>cs_dialog := (cs_dialog c3)\<lparr>rn_state := s', rn_processing := False\<rparr>\<rparr>)" "dialog_runs K ?g s' c4 []"
          "sml_process_event (dialog_table (dialog_actions_of X find_call E)) ?s c3 (ReferCompleted RFailed) = Some (s', c4, h)"
        by (rule dialog_dispatch_runs [OF r3 sink s3, of X find_call]) blast
      then have s': "s' = Terminating" using rwt by (simp add: leg_moves(4))
      let ?c5 = "c4\<lparr>cs_dialog := (cs_dialog c3)\<lparr>rn_state := s', rn_processing := False\<rparr>\<rparr>"
      have "dialog_runs K ?g Terminating ?c5 [CallEnded kEngineRequested]" using d(2) s' by (auto simp: dialog_runs_def)
      from step [OF this _ terminating_ends] d(1) s' show ?thesis
        using rwt all abort ev by (simp add: after_disconnect_def is_in_def dlg2 dialog_ending_def dispatch_result_def)
    qed
  qed
  then obtain c' where c': "dialog_on_leg_state_changed X find_call E i c = Some c'" "dialog_rests K c'" "\<And>w. gone w c' = ?g w"
    using result by auto
  show thesis by (rule that [OF c'(1,2)]) (simp add: c'(3) True)
qed

end
