(* ===== verification/Call_Callbacks.thy ===== *)
theory Call_Callbacks
  imports Dialog_Actions
begin

text \<open>
  What the callbacks of the SIP stack do to the call they belong to: the parts of
  \<^verbatim>\<open>engine/src/sip/router/message_router.cpp\<close> that run once the call is found. They decide by the setup machine
  which of the two phases of the call an event belongs to.
\<close>

subsection \<open>The callbacks\<close>

definition early_media_relayed :: "'p call \<Rightarrow> bool" where
  "early_media_relayed c \<longleftrightarrow> cs_exchange c \<noteq> None \<and> oa_early_media_relayed (cs_oa c)"

definition call_on_rx_refer ::
  "'p pjsip_xfer \<Rightarrow> (dlg \<Rightarrow> 'p call option) \<Rightarrow> ('p, 'st) engine_env \<Rightarrow> refer_request \<Rightarrow> 'p call \<Rightarrow> 'p call option" where
  "call_on_rx_refer X find_call E rq c =
     (if \<not> is_established c then Some (c\<lparr>cs_pj := px_dlg_respond X (rfq_dialog rq) 481 (cs_pj c)\<rparr>)
      else
        let which = (if lg_dialog (cs_caller c) = Some (rfq_dialog rq) then Caller else Callee) in do {
        (handled, c') \<leftarrow> dialog_dispatch X find_call E (ReferReceived which) (set_refer (\<lambda>r. r\<lparr>rf_pending := Some rq\<rparr>) c);
        let c'' = set_refer (\<lambda>r. r\<lparr>rf_pending := None\<rparr>) c';
        Some (if handled then c'' else c''\<lparr>cs_pj := px_dlg_respond X (rfq_dialog rq) 481 (cs_pj c'')\<rparr>) })"

definition call_on_inv_state_changed ::
  "'p pjsip_xfer \<Rightarrow> (dlg \<Rightarrow> 'p call option) \<Rightarrow> ('p, 'st) engine_env \<Rightarrow> inv \<Rightarrow> rx_data option \<Rightarrow> 'p call \<Rightarrow> 'p call option" where
  "call_on_inv_state_changed X find_call E i rdata c =
     (if is_established c then dialog_on_leg_state_changed X find_call E i c
      else if \<not> is_in (cs_setup c) SuDone then setup_on_leg_state_changed E i rdata c
      else Some c)"

definition reject_reinvite :: "('p, 'st) engine_env \<Rightarrow> inv \<Rightarrow> rx_data \<Rightarrow> int \<Rightarrow> 'p call \<Rightarrow> 'p call" where
  "reject_reinvite E i rdata code c = snd (with_pj (answer_request (en_pjsip E) (Some i) (Some rdata) code None) c)"

text \<open>The result tells the stack whether the request is taken care of; an offerless re-INVITE is left to its own negotiation.\<close>

definition call_on_rx_reinvite ::
  "'p pjsip_xfer \<Rightarrow> (dlg \<Rightarrow> 'p call option) \<Rightarrow> ('p, 'st) engine_env \<Rightarrow> inv \<Rightarrow> sdp_session option \<Rightarrow> rx_data \<Rightarrow> 'p call \<Rightarrow>
     (bool \<times> 'p call) option" where
  "call_on_rx_reinvite X find_call E i offer rdata c =
     (if \<not> is_established c then Some (True, reject_reinvite E i rdata 481 c)
      else
        let sdp = (case offer of None \<Rightarrow> [] | Some s \<Rightarrow> sdp_serialize (en_sdp E) s) in do {
        (handled, c') \<leftarrow> dialog_dispatch X find_call E (ReinviteReceived sdp (leg_for i c)) (c\<lparr>cs_pending_reinvite := Some rdata\<rparr>);
        let c'' = c'\<lparr>cs_pending_reinvite := None\<rparr>;
        Some (if handled then (offer \<noteq> None, c'') else (True, reject_reinvite E i rdata 500 c'')) })"

definition call_on_rx_offer ::
  "'p pjsip_xfer \<Rightarrow> (dlg \<Rightarrow> 'p call option) \<Rightarrow> ('p, 'st) engine_env \<Rightarrow> inv \<Rightarrow> sdp_session option \<Rightarrow> 'p call \<Rightarrow> 'p call option" where
  "call_on_rx_offer X find_call E i offer c =
     (if \<not> is_established c \<and> \<not> early_media_relayed c then Some c
      else
        let sdp = (case offer of None \<Rightarrow> [] | Some s \<Rightarrow> sdp_serialize (en_sdp E) s) in do {
        (handled, c') \<leftarrow> dialog_dispatch X find_call E (UpdateReceived sdp (leg_for i c)) c;
        if \<not> is_established c' \<and> is_in (cs_dialog c') Terminating then setup_dispatch E (SuExchangeFinished OFailed) c'
        else Some c' })"

definition call_on_create_offer :: "('p, 'st) engine_env \<Rightarrow> inv \<Rightarrow> 'p call \<Rightarrow> sdp_session option" where
  "call_on_create_offer E i c = (if is_established c then on_create_offer E i c else None)"

definition call_on_media_update ::
  "'p pjsip_xfer \<Rightarrow> (dlg \<Rightarrow> 'p call option) \<Rightarrow> ('p, 'st) engine_env \<Rightarrow> inv \<Rightarrow> bool \<Rightarrow> 'p call \<Rightarrow> 'p call option" where
  "call_on_media_update X find_call E i success c =
     (if is_established c then dialog_on_media_update X find_call E i success c else Some c)"

subsection \<open>What the call manager does to a call\<close>

text \<open>\<^verbatim>\<open>CallManager\<close> ends a call that was replaced, whose media stopped or that was on hold for too long, and every call at
  shutdown.\<close>

definition terminate_replaced ::
  "'p pjsip_xfer \<Rightarrow> (dlg \<Rightarrow> 'p call option) \<Rightarrow> ('p, 'st) engine_env \<Rightarrow> bool \<Rightarrow> 'p call \<Rightarrow> 'p call option" where
  "terminate_replaced X find_call E matched_dialog_is_uac c =
     (if \<not> is_established c then
        (if matched_dialog_is_uac then setup_dispatch E CancelRequested c else Some c)
      else if \<not> can_terminate c then Some c
      else map_option snd (dialog_dispatch X find_call E CallReplaced c))"

definition end_if_terminable ::
  "'p pjsip_xfer \<Rightarrow> (dlg \<Rightarrow> 'p call option) \<Rightarrow> ('p, 'st) engine_env \<Rightarrow> dialog_event \<Rightarrow> 'p call \<Rightarrow> 'p call option" where
  "end_if_terminable X find_call E e c =
     (if can_terminate c then map_option snd (dialog_dispatch X find_call E e c) else Some c)"

definition end_if_inactive ::
  "'p pjsip_xfer \<Rightarrow> (dlg \<Rightarrow> 'p call option) \<Rightarrow> ('p, 'st) engine_env \<Rightarrow> int \<Rightarrow> 'p call \<Rightarrow> 'p call option" where
  "end_if_inactive X find_call E interval c =
     (if \<not> is_established c then Some c
      else if \<not> rtp_inactivity_expired (en_now E) interval c then Some c
      else end_if_terminable X find_call E (CallEnded kRtpInactivity) c)"

definition end_if_held_too_long ::
  "'p pjsip_xfer \<Rightarrow> (dlg \<Rightarrow> 'p call option) \<Rightarrow> ('p, 'st) engine_env \<Rightarrow> 'p call \<Rightarrow> 'p call option" where
  "end_if_held_too_long X find_call E c =
     (if \<not> is_established c \<or> \<not> hold_timeout_expired E c then Some c
      else end_if_terminable X find_call E (CallEnded kHoldTimeout) c)"

subsection \<open>What the setup actions leave alone\<close>

text \<open>A call in setup has not lost a leg for good, its dialog machine is untouched by the setup actions, and only the
  clean-up removes it or closes its relay.\<close>

definition setup_frame :: "'p call \<Rightarrow> _" where
  "setup_frame c = (cs_call_id c, cs_setup c, cs_dialog c, filter is_removal (cs_manager_ops c), cs_terminated_reported c,
     filter is_terminated_event (cs_call_events c), filter is_close_task (cs_bridge_posts c))"

definition keeps :: "'p call \<Rightarrow> 'p call \<Rightarrow> bool" where
  "keeps c c' \<longleftrightarrow> setup_frame c' = setup_frame c \<and> prefix (cs_manager_ops c) (cs_manager_ops c') \<and> (\<forall>w. gone w c' \<longrightarrow> gone w c)"

lemma keeps_refl [simp]: "keeps c c"
  by (simp add: keeps_def)

lemma keeps_trans: "keeps c c1 \<Longrightarrow> keeps c1 c2 \<Longrightarrow> keeps c c2"
  by (auto simp: keeps_def intro: prefix_order.trans)

lemma keeps_frame: "dl_frame c' = dl_frame c \<Longrightarrow> keeps c c'"
  using frame_flags [of c' c] by (auto simp: keeps_def setup_frame_def dl_frame_def)

lemma keeps_updates [simp]:
  "keeps c (c1\<lparr>cs_oa := d\<rparr>) = keeps c c1" "keeps c (c1\<lparr>cs_leg_port := ps\<rparr>) = keeps c c1" "keeps c (c1\<lparr>cs_exchange := x\<rparr>) = keeps c c1"
  "keeps c (c1\<lparr>cs_outbound_destination := ds\<rparr>) = keeps c c1" "keeps c (c1\<lparr>cs_negotiated_offer := s1\<rparr>) = keeps c c1"
  "keeps c (c1\<lparr>cs_negotiated_answer := s2\<rparr>) = keeps c c1" "keeps c (c1\<lparr>cs_last_relayed_status_code := n\<rparr>) = keeps c c1"
  "keeps c (c1\<lparr>cs_failure_status := s3\<rparr>) = keeps c c1" "keeps c (c1\<lparr>cs_failure_reason := s4\<rparr>) = keeps c c1"
  "keeps c (c1\<lparr>cs_last_packet_time := t\<rparr>) = keeps c c1" "keeps c (c1\<lparr>cs_pj := p\<rparr>) = keeps c c1"
  "keeps c (c1\<lparr>cs_answered_at := a\<rparr>) = keeps c c1" "keeps c (c1\<lparr>cs_current_rdata := rd1\<rparr>) = keeps c c1"
  by (simp_all add: keeps_def setup_frame_def all_legs get_leg_def)

lemma keeps_post [simp]: "list_all (\<lambda>t. \<not> is_close_task t) ts \<Longrightarrow> keeps c (post_bridge ts c1) = keeps c c1"
  by (induction ts) (simp_all add: keeps_def setup_frame_def post_bridge_def all_legs get_leg_def)

lemma keeps_leg [simp]: "(\<And>l. lg_disconnected (f l) = lg_disconnected l) \<Longrightarrow> keeps c (update_leg which f c1) = keeps c c1"
  by (cases which) (simp_all add: keeps_def setup_frame_def update_leg_def all_legs get_leg_def)

lemma keeps_set_inv: "keeps c c1 \<Longrightarrow> keeps c (set_inv E which h c1)"
  by (cases which) (simp_all add: keeps_def setup_frame_def set_inv_def update_leg_def all_legs get_leg_def)

lemma keeps_with_pj: "with_pj g c1 = (r, c2) \<Longrightarrow> keeps c c2 = keeps c c1"
  by (auto simp: with_pj_def split: prod.splits)

lemma keeps_snd_pj [simp]: "keeps c (snd (with_pj g c1)) = keeps c c1"
  by (simp add: with_pj_def split: prod.split)

lemma keeps_start_loop [simp]: "keeps c (start_bridge_loop E c1) = keeps c c1"
  by (simp add: start_bridge_loop_def)

lemma keeps_bind: "bind_leg E l c1 = (ok, c2) \<Longrightarrow> keeps c c2 = keeps c c1"
  by (auto simp: bind_leg_def split: option.splits)

lemma keeps_dialog_created:
  assumes "create_outbound_dialog E ds offer c1 = (ok, c2)" and "keeps c c1"
  shows "keeps c c2"
  using assms unfolding create_outbound_dialog_def
  by (auto simp: Let_def keeps_set_inv dest!: keeps_with_pj [where c = c] split: if_splits option.splits prod.splits)

lemma keeps_leg_created:
  assumes "create_outbound_leg E ds c1 = (ok, c2)" and "keeps c c1"
  shows "keeps c c2"
  using assms unfolding create_outbound_leg_def
  by (auto simp: Let_def elim!: keeps_dialog_created dest!: keeps_bind [where c = c] split: if_splits option.splits prod.splits)

lemma keeps_invite:
  assumes "send_outbound_invite E c1 = (ok, c2)" and "keeps c c1"
  shows "keeps c c2"
  using assms unfolding send_outbound_invite_def
  by (auto simp: Let_def dest!: keeps_with_pj [where c = c] split: option.splits prod.splits)

lemma keeps_relay_offer:
  assumes "keeps c c1"
  shows "keeps c (do_relay_offer E sdp c1)"
proof -
  have "keeps c (c1\<lparr>cs_oa := d\<rparr>)" for d using assms by simp
  then show ?thesis unfolding do_relay_offer_def Let_def
    by (auto dest: keeps_leg_created keeps_invite split: prod.split)
qed

lemma keeps_prepare:
  assumes "prepare_answer E sdp c1 = (a, c2)" and "keeps c c1"
  shows "keeps c c2"
  using assms unfolding prepare_answer_def build_caller_answer_def configure_media_bridge_def capture_callee_media_def
  by (auto simp: Let_def split: if_splits option.splits prod.splits sum.splits)

lemma keeps_send_answer: "keeps c c1 \<Longrightarrow> keeps c (send_answer E a c1)"
  by (auto simp: send_answer_def Let_def dest: keeps_with_pj [where c = c] split: prod.split)

lemma keeps_oa_actions:
  "keeps c c1 \<Longrightarrow> keeps c (do_relay_answer E sdp c1)" "keeps c c1 \<Longrightarrow> keeps c (do_hold_answer E sdp c1)"
  "keeps c c1 \<Longrightarrow> keeps c (do_release_answer E c1)" "keeps c (answer_caller E code c1) = keeps c c1"
  "keeps c (do_commit c1) = keeps c c1" "keeps c (do_oa_cleanup c1) = keeps c c1"
  by (auto simp: do_relay_answer_def do_hold_answer_def do_release_answer_def answer_caller_def do_commit_def commit_offer_answer_def
      do_oa_cleanup_def Let_def intro: keeps_send_answer dest: keeps_prepare split: prod.split)

lemma keeps_oa_step:
  assumes "oa_table (oa_of (offer_answer_actions E)) s e c1 = Some (s', es, c2)" and "keeps c c1"
  shows "keeps c c2"
  using assms
  by (cases s; cases e)
    (auto simp: offer_answer_actions_def oa_of_def oa_actions.truncate_def oa_defs keeps_relay_offer keeps_oa_actions do_reject_offer_def
      do_relay_rejection_def do_rollback_def do_fail_def split: if_splits)

lemma keeps_exchange:
  assumes "run_exchange (ex_perform (offer_answer_actions E) p) c1 = (oc, c2)" and "keeps c c1"
  shows "keeps c c2"
proof -
  have "keeps c d" if "ex_perform (offer_answer_actions E) p x c1 = Some (oc, x', d)" for x x' oc d
    using ex_perform_inv [where I = "\<lambda>_ c'. keeps c c'", OF _ assms(2) that] keeps_oa_step by blast
  then show ?thesis using assms by (auto simp: run_exchange_def split: option.splits)
qed

lemma keeps_setup_actions:
  "keeps c c1 \<Longrightarrow> keeps c (note_failure st r c1)" "keeps c c1 \<Longrightarrow> keeps c (do_begin_setup E c1)"
  "keeps c c1 \<Longrightarrow> keeps c (end_both E code c1)" "keeps c c1 \<Longrightarrow> keeps c (do_establish_call E c1)"
  "keeps c c1 \<Longrightarrow> keeps c (do_report_progress E code early c1)" "keeps c c1 \<Longrightarrow> keeps c (release_exchange c1)"
proof -
  assume k: "keeps c c1"
  show "keeps c (note_failure st r c1)" using k by (simp add: note_failure_def)
  have "keeps c (report_call_started E c1)"
    using k by (simp add: report_call_started_def send_event_def keeps_def setup_frame_def all_legs get_leg_def)
  then show "keeps c (do_begin_setup E c1)" by (simp add: do_begin_setup_def Let_def)
  show "keeps c (end_both E code c1)" using k by (simp add: end_both_def Let_def)
  have "keeps c (report_call_answered E c1)"
    using k by (simp add: report_call_answered_def send_call_updated_def send_event_def keeps_def setup_frame_def all_legs get_leg_def)
  then show "keeps c (do_establish_call E c1)"
    by (simp add: do_establish_call_def Let_def keeps_def setup_frame_def all_legs get_leg_def split: option.split)
  show "keeps c (do_report_progress E code early c1)"
    using k by (auto simp: do_report_progress_def mark_early_media_relayed_def keeps_oa_actions Let_def
        dest: keeps_with_pj [where c = c] split: option.split prod.split)
  show "keeps c (release_exchange c1)" using k by (simp add: release_exchange_def)
qed

lemma keeps_stop:
  assumes "keeps c c1"
  shows "keeps c (stop_and_release E c1)"
proof -
  obtain oc c2 where r: "run_exchange (ex_stop (offer_answer_actions E)) c1 = (oc, c2)" by fastforce
  then have "keeps c c2" using keeps_exchange [of E ExStop c1 oc c2] assms by simp
  then show ?thesis using assms by (simp add: stop_and_release_def r keeps_setup_actions)
qed

lemma keeps_start_exchange:
  assumes "do_start_exchange E ds codec c1 = (oc, c2)" and "keeps c c1"
  shows "keeps c c2"
  using assms keeps_exchange [of E "ExStart _" _ oc _ c]
  by (auto simp: do_start_exchange_def create_exchange_def keeps_setup_actions Let_def split: if_splits prod.splits)

lemma keeps_ends:
  "keeps c c1 \<Longrightarrow> keeps c (do_terminate_setup E c1)" "do_cancel_call E c1 = (b, c2) \<Longrightarrow> keeps c c1 \<Longrightarrow> keeps c c2"
  by (auto simp: do_terminate_setup_def do_cancel_call_def Let_def keeps_setup_actions keeps_stop)

lemma keeps_refusals:
  "keeps c c1 \<Longrightarrow> keeps c (do_route_failed E c1)" "keeps c c1 \<Longrightarrow> keeps c (do_routing_loop_detected E c1)"
  "keeps c c1 \<Longrightarrow> keeps c (do_codec_mismatch_detected E c1)"
  by (simp_all add: do_route_failed_def do_routing_loop_detected_def do_codec_mismatch_detected_def keeps_oa_actions keeps_setup_actions)

subsection \<open>A call in setup ends once\<close>

definition counts :: "history_key \<Rightarrow> bool \<Rightarrow> 'p call \<Rightarrow> bool" where
  "counts K over c \<longleftrightarrow>
     cs_call_id c = fst (snd K) \<and> prefix (snd (snd K)) (cs_manager_ops c) \<and> filter is_removal (cs_manager_ops c) = (if over then [ScheduleRemove (fst (snd K))] else []) \<and>
     length (filter is_close_task (cs_bridge_posts c)) = (if over then 1 else 0) \<and>
     length (filter is_terminated_event (cs_call_events c)) = (if cs_terminated_reported c \<and> fst K then 1 else 0) \<and>
     (over \<longrightarrow> cs_terminated_reported c)"

lemma counts_keeps: "counts K over c \<Longrightarrow> keeps c c' \<Longrightarrow> counts K over c'"
  by (auto simp: counts_def keeps_def setup_frame_def intro: prefix_order.trans)

lemma counts_report:
  "en_has_event_sink E = fst K \<Longrightarrow> counts K over c \<Longrightarrow> counts K over (report_call_terminated E st r c)"
  "cs_terminated_reported (report_call_terminated E st r c)"
  by (auto simp: report_call_terminated_def send_event_def counts_def Let_def split: if_splits)

lemma counts_cleanup:
  assumes "en_has_event_sink E = fst K" and "counts K False c"
  shows "counts K True (do_setup_cleanup E c)" "gone w (do_setup_cleanup E c) = gone w c" "cs_dialog (do_setup_cleanup E c) = cs_dialog c"
proof -
  let ?r = "report_call_terminated E (cs_failure_status c) (if cs_failure_reason c = [] then None else Some (cs_failure_reason c)) c"
  have "counts K False ?r" by (rule counts_report(1) [OF assms])
  moreover have "cs_terminated_reported ?r" by (rule counts_report(2))
  ultimately show "counts K True (do_setup_cleanup E c)" by (simp add: do_setup_cleanup_def counts_def post_bridge_def Let_def)
  show "gone w (do_setup_cleanup E c) = gone w c"
    by (cases w) (simp_all add: do_setup_cleanup_def post_bridge_def report_call_terminated_def send_event_def get_leg_def Let_def)
  show "cs_dialog (do_setup_cleanup E c) = cs_dialog c"
    by (simp add: do_setup_cleanup_def post_bridge_def report_call_terminated_def send_event_def Let_def)
qed

definition in_setup :: "history_key \<Rightarrow> dialog_state runner \<Rightarrow> setup_state \<Rightarrow> 'p call \<Rightarrow> bool" where
  "in_setup K r s c \<longleftrightarrow> counts K (s = SuDone) c \<and> cs_dialog c = r \<and> (\<forall>w. \<not> gone w c)"

lemma in_setup_keeps: "in_setup K r s c \<Longrightarrow> keeps c c' \<Longrightarrow> s \<noteq> SuDone \<Longrightarrow> s' \<noteq> SuDone \<Longrightarrow> in_setup K r s' c'"
  using counts_keeps [of K False c c'] by (auto simp: in_setup_def keeps_def setup_frame_def)

lemma resolve_same: "resolve_route (setup_actions_of E) c1 = (x, c2) \<Longrightarrow> c2 = c1"
  by (simp add: setup_actions_of_def)

lemma in_setup_step:
  assumes i: "in_setup K r s c" and sink: "en_has_event_sink E = fst K"
    and t: "setup_table (setup_actions_of E) s e c = Some (s', es, c')"
  shows "in_setup K r s' c'"
proof (cases "s' = SuDone")
  case True
  then have "s \<noteq> SuDone \<and> c' = do_setup_cleanup E c" using t by (cases s; cases e) (auto simp: su_defs split: if_splits prod.splits)
  then show ?thesis using i True counts_cleanup [OF sink, of c] by (simp add: in_setup_def)
next
  case False
  have k: "keeps c c'"
    using t False
    by (cases s; cases e)
      (auto simp: su_defs Let_def keeps_setup_actions keeps_ends(1) keeps_refusals dest!: resolve_same dest: keeps_start_exchange [where c = c]
        keeps_ends(2) [where c = c] split: if_splits prod.splits route_kind.splits)
  have "s \<noteq> SuDone" using t by (cases s) auto
  then show ?thesis using in_setup_keeps [OF i k _ False] by blast
qed

lemma in_setup_runner [simp]: "in_setup K r s (c\<lparr>cs_setup := x\<rparr>) = in_setup K r s c"
  by (simp add: in_setup_def counts_def all_legs get_leg_def)

text \<open>A call whose setup has not been left behind: what the setup operations keep.\<close>

definition setup_ok :: "history_key \<Rightarrow> dialog_state runner \<Rightarrow> 'p call \<Rightarrow> bool" where
  "setup_ok K r c \<longleftrightarrow> in_setup K r (rn_state (cs_setup c)) c"

lemma setup_dispatch_ok:
  assumes "setup_ok K r c" and sink: "en_has_event_sink E = fst K"
  obtains c' where "setup_dispatch E e c = Some c'" "setup_ok K r c'"
proof -
  let ?T = "setup_table (setup_actions_of E)" and ?s = "rn_state (cs_setup c)"
  obtain s' c1 h where 1: "sml_process_event ?T ?s c e = Some (s', c1, h)" using su.dispatch_returns [of "setup_actions_of E" ?s c e] by blast
  have "in_setup K r s' c1"
    by (rule su.dispatch_inv [of "in_setup K r", OF _ 1]) (use assms(1) in_setup_step [OF _ sink] in \<open>auto simp: setup_ok_def\<close>)
  then show thesis
    using that [of "c1\<lparr>cs_setup := (cs_setup c)\<lparr>rn_state := s', rn_processing := False\<rparr>\<rparr>"] 1
    by (simp add: setup_dispatch_def process_event_def setup_ok_def Let_def)
qed

lemma setup_ok_keeps:
  assumes "setup_ok K r c" and "keeps c c'"
  shows "setup_ok K r c'"
  using assms counts_keeps [of K _ c c'] by (auto simp: setup_ok_def in_setup_def keeps_def setup_frame_def)

lemma finish_exchange_ok:
  assumes "setup_ok K r c" and "en_has_event_sink E = fst K"
  obtains c' where "finish_exchange E (run_exchange (ex_perform (offer_answer_actions E) p) c) = Some c'" "setup_ok K r c'"
proof -
  obtain oc c1 where 1: "run_exchange (ex_perform (offer_answer_actions E) p) c = (oc, c1)" by fastforce
  have k: "setup_ok K r c1" "setup_ok K r (release_exchange c1)"
    using setup_ok_keeps [OF assms(1)] keeps_exchange [OF 1 keeps_refl] keeps_setup_actions(6) by blast+
  obtain c' where "setup_dispatch E (SuExchangeFinished oc) (release_exchange c1) = Some c'" "setup_ok K r c'"
    by (rule setup_dispatch_ok [OF k(2) assms(2)])
  with k(1) that show thesis by (cases "oc = OPending") (auto simp: finish_exchange_def 1)
qed

lemma finish_exchange_ops_ok:
  assumes "setup_ok K r c" and "en_has_event_sink E = fst K"
  shows "\<exists>c'. finish_exchange E (run_exchange (ex_perform (offer_answer_actions E) p) c) = Some c' \<and> setup_ok K r c'"
  using finish_exchange_ok [OF assms] by metis

lemmas exchange_ops_ok =
  finish_exchange_ops_ok [where p = "ExReceiveAnswer _", simplified] finish_exchange_ops_ok [where p = "ExReceiveEarlyAnswer _", simplified]
  finish_exchange_ops_ok [where p = "ExReject _", simplified] finish_exchange_ops_ok [where p = ExAnswerTimeout, simplified]
  finish_exchange_ops_ok [where p = ExConfirm, simplified] finish_exchange_ops_ok [where p = ExConfirmationTimeout, simplified]

lemma setup_event_ok:
  assumes "setup_ok K r c" and "en_has_event_sink E = fst K"
  shows "\<exists>c'. setup_dispatch E e c = Some c' \<and> setup_ok K r c'"
  using setup_dispatch_ok [OF assms] by metis

lemma handle_early_ok:
  assumes "setup_ok K r c" and "en_has_event_sink E = fst K"
  shows "\<exists>c'. handle_early E rdata c = Some c' \<and> setup_ok K r c'"
proof (cases "cs_exchange c \<noteq> None \<and> extract_sdp rdata \<noteq> []")
  case True
  obtain c1 where "finish_exchange E (run_exchange (receive_early_answer (offer_answer_actions E) (extract_sdp rdata)) c) = Some c1"
      "setup_ok K r c1"
    using exchange_ops_ok(2) [OF assms] by blast
  with True setup_event_ok [of K r c1 E] assms(2) show ?thesis by (simp add: handle_early_def)
next
  case False
  with setup_event_ok [OF assms] show ?thesis by (auto simp: handle_early_def)
qed

lemma setup_callback_ok:
  assumes "setup_ok K r c" and "en_has_event_sink E = fst K"
  shows "\<exists>c'. setup_on_leg_state_changed E i rdata c = Some c' \<and> setup_ok K r c'"
proof -
  have failed: "setup_ok K r (fail_setup reason c)" for reason
    unfolding fail_setup_def by (rule setup_ok_keeps [OF assms(1) keeps_setup_actions(1) [OF keeps_refl]])
  have "\<exists>c'. handle_disconnect E i c = Some c' \<and> setup_ok K r c'"
    using exchange_ops_ok(3,4,6) [OF failed assms(2)] failed assms(1) setup_event_ok [OF assms]
    unfolding handle_disconnect_def Let_def by (simp split: option.split)
  then show ?thesis
    using handle_early_ok [OF assms] exchange_ops_ok(1,5) [OF assms] setup_event_ok [OF assms] assms(1)
    unfolding setup_on_leg_state_changed_def Let_def by (simp split: inv_state.split)
qed

subsection \<open>A call from its INVITE to its removal\<close>

text \<open>Before the call is established only an UPDATE in the early dialog and the shutdown move its dialog machine: it is
  still unused, or it has torn the call down.\<close>

definition early_dialog :: "dialog_state \<Rightarrow> bool" where
  "early_dialog s \<longleftrightarrow> s = Active \<or> s = Terminating"

definition call_rests :: "history_key \<Rightarrow> 'p call \<Rightarrow> bool" where
  "call_rests K c \<longleftrightarrow>
     (if is_established c then dialog_rests K c
      else setup_ok K (cs_dialog c) c \<and> early_dialog (rn_state (cs_dialog c)))"

lemma setup_hands_over:
  assumes "setup_ok K (cs_dialog c) c" and "early_dialog (rn_state (cs_dialog c))"
  shows "call_rests K c"
  using assms
  by (auto simp: call_rests_def setup_ok_def in_setup_def counts_def early_dialog_def dialog_rests_def dialog_runs_def done_once_def
      is_established_def is_in_def Let_def)

lemma setup_ok_dialog: "setup_ok K r c \<Longrightarrow> cs_dialog c = r"
  by (simp add: setup_ok_def in_setup_def)

lemma setup_result_rests:
  "setup_ok K r c' \<Longrightarrow> early_dialog (rn_state r) \<Longrightarrow> call_rests K c'"
  using setup_hands_over [of K c'] setup_ok_dialog [of K r c'] by simp

lemma update_decided: "update_answer E offer which c = (oc, c') \<Longrightarrow> oc \<noteq> OPending"
  by (rule negotiate_cases [of E offer which c])
    (auto simp: update_answer_def with_pj_def Let_def split: prod.splits if_splits option.splits)

text \<open>What an event does to a dialog machine in the early phase.\<close>

definition early_effect :: "('p, 'st) engine_env \<Rightarrow> 'p call \<Rightarrow> 'p call \<Rightarrow> bool" where
  "early_effect E c c' \<longleftrightarrow>
     (\<exists>c1 s. keeps c c1 \<and> (c' = c1\<lparr>cs_dialog := (cs_dialog c)\<lparr>rn_state := s, rn_processing := False\<rparr>\<rparr> \<and> s = rn_state (cs_dialog c) \<or>
        (\<exists>reason. c' = (do_terminate_call E reason c1)\<lparr>cs_dialog := (cs_dialog c)\<lparr>rn_state := s, rn_processing := False\<rparr>\<rparr> \<and> s = Terminating)))"

lemma early_dispatch:
  assumes "early_dialog (rn_state (cs_dialog c))" and "(\<exists>sdp w. e = UpdateReceived sdp w) \<or> (\<exists>r. e = CallError r) \<or> is_refer_completed e"
  obtains h c' where "dialog_dispatch X find_call E e c = Some (h, c')" "early_effect E c c'"
proof (cases "rn_state (cs_dialog c) = Terminating")
  case True
  have "dialog_dispatch X find_call E e c = Some (False, c\<lparr>cs_dialog := (cs_dialog c)\<lparr>rn_state := Terminating, rn_processing := False\<rparr>\<rparr>)"
    using assms(2) True by (auto simp: dialog_dispatch_def process_event_def terminating_ignores Let_def elim!: is_refer_completed.elims)
  moreover have "early_effect E c (c\<lparr>cs_dialog := (cs_dialog c)\<lparr>rn_state := Terminating, rn_processing := False\<rparr>\<rparr>)"
    unfolding early_effect_def using True by (intro exI [of _ c] exI [of _ Terminating]) simp
  ultimately show thesis by (rule that)
next
  case False
  then have active: "rn_state (cs_dialog c) = Active" using assms(1) by (simp add: early_dialog_def)
  let ?to = "\<lambda>s c1. c1\<lparr>cs_dialog := (cs_dialog c)\<lparr>rn_state := s, rn_processing := False\<rparr>\<rparr>"
  consider (update) sdp w where "e = UpdateReceived sdp w" | (error) r where "e = CallError r" | (refer) oc where "e = ReferCompleted oc"
    using assms(2) by (auto elim: is_refer_completed.elims)
  then show thesis
  proof cases
    case update
    obtain oc c1 where u: "update_answer E sdp w c = (oc, c1)" by fastforce
    note k = keeps_frame [OF update_frame [OF u]]
    have "dialog_dispatch X find_call E e c = Some (True, if oc = OFailed then ?to Terminating (do_terminate_call E kMediaNegotiationFailed c1) else ?to Active c1)"
      using update_decided [OF u] active
      by (cases oc) (simp_all add: update dialog_dispatch_def process_event_def sml_process_event_def handle_update_def publish_outcome_def
          dialog_actions_of_def u table_simps Let_def)
    moreover have "early_effect E c (if oc = OFailed then ?to Terminating (do_terminate_call E kMediaNegotiationFailed c1) else ?to Active c1)"
      unfolding early_effect_def using k active by auto
    ultimately show thesis by (rule that)
  next
    case error
    have "dialog_dispatch X find_call E e c = Some (True, ?to Terminating (do_terminate_call E r c))"
      using active by (simp add: error dialog_dispatch_def process_event_def sml_process_event_def dialog_actions_of_def table_simps Let_def)
    moreover have "early_effect E c (?to Terminating (do_terminate_call E r c))"
      unfolding early_effect_def using keeps_refl [of c] by blast
    ultimately show thesis by (rule that)
  next
    case refer
    have "dialog_dispatch X find_call E e c = Some (False, ?to Active c)"
      using active by (simp add: refer dialog_dispatch_def process_event_def sml_process_event_def table_simps Let_def)
    moreover have "early_effect E c (?to Active c)"
      unfolding early_effect_def using active by (intro exI [of _ c] exI [of _ Active]) simp
    ultimately show thesis by (rule that)
  qed
qed

lemma report_machines [simp]:
  "cs_setup (report_call_terminated E st r c) = cs_setup c" "cs_dialog (report_call_terminated E st r c) = cs_dialog c"
  by (simp_all add: report_call_terminated_def send_event_def Let_def)

lemma report_setup_ok:
  "en_has_event_sink E = fst K \<Longrightarrow> setup_ok K r c \<Longrightarrow> setup_ok K r (report_call_terminated E st reason c)"
  by (auto simp: setup_ok_def in_setup_def intro: counts_report(1))

lemma terminate_setup_ok:
  assumes "en_has_event_sink E = fst K" and "setup_ok K r c"
  shows "setup_ok K r (do_terminate_call E reason c)"
proof -
  let ?r = "report_call_terminated E (if is_established c then kSuccess else kFailed_status) (Some (termination_reason_text reason)) c"
  have "setup_ok K r ?r" by (rule report_setup_ok [OF assms])
  moreover have "keeps ?r (do_terminate_call E reason c)" by (rule keeps_frame) (simp add: do_terminate_call_def Let_def)
  ultimately show ?thesis by (rule setup_ok_keeps)
qed

lemma setup_ok_moves: "setup_ok K r c \<Longrightarrow> setup_ok K r' (c\<lparr>cs_dialog := r'\<rparr>)"
  by (simp add: setup_ok_def in_setup_def counts_def)

lemma early_effect_ok:
  assumes "early_effect E c c'" and "setup_ok K (cs_dialog c) c" and "early_dialog (rn_state (cs_dialog c))" and "en_has_event_sink E = fst K"
  shows "setup_ok K (cs_dialog c') c'" "early_dialog (rn_state (cs_dialog c'))"
proof -
  from assms(1) obtain c1 s where k: "keeps c c1" and c': "c' = c1\<lparr>cs_dialog := (cs_dialog c)\<lparr>rn_state := s, rn_processing := False\<rparr>\<rparr> \<and> s = rn_state (cs_dialog c) \<or>
        (\<exists>reason. c' = (do_terminate_call E reason c1)\<lparr>cs_dialog := (cs_dialog c)\<lparr>rn_state := s, rn_processing := False\<rparr>\<rparr> \<and> s = Terminating)"
    unfolding early_effect_def by blast
  have ok: "setup_ok K (cs_dialog c) c1" by (rule setup_ok_keeps [OF assms(2) k])
  show "setup_ok K (cs_dialog c') c'" using c' setup_ok_moves [OF ok] setup_ok_moves [OF terminate_setup_ok [OF assms(4) ok]] by auto
  show "early_dialog (rn_state (cs_dialog c'))" using c' assms(3) by (auto simp: early_dialog_def)
qed

text \<open>Everything that can happen to a call: callbacks of its invite sessions and of a transfer, requests in its dialogs, and
  the call manager. Each comes with the state of the stack at that time.\<close>

datatype call_input =
    LegStateChanged inv "rx_data option"
  | ReinviteArrived inv "sdp_session option" rx_data
  | UpdateArrived inv "sdp_session option"
  | ReferArrived refer_request
  | MediaUpdated inv bool
  | TransferCallback refer_callback
  | Replaced bool
  | InactivityScan int
  | HoldScan
  | EngineShutdown

fun call_input_step ::
  "'p pjsip_xfer \<Rightarrow> (dlg \<Rightarrow> 'p call option) \<Rightarrow> ('p, 'st) engine_env \<Rightarrow> call_input \<Rightarrow> 'p call \<Rightarrow> 'p call option" where
  "call_input_step X find_call E (LegStateChanged i rdata) c = call_on_inv_state_changed X find_call E i rdata c"
| "call_input_step X find_call E (ReinviteArrived i offer rdata) c = map_option snd (call_on_rx_reinvite X find_call E i offer rdata c)"
| "call_input_step X find_call E (UpdateArrived i offer) c = call_on_rx_offer X find_call E i offer c"
| "call_input_step X find_call E (ReferArrived rq) c = call_on_rx_refer X find_call E rq c"
| "call_input_step X find_call E (MediaUpdated i ok) c = call_on_media_update X find_call E i ok c"
| "call_input_step X find_call E (TransferCallback k) c = dispatch_result X find_call E (refer_callback_step X k c)"
| "call_input_step X find_call E (Replaced uac) c = terminate_replaced X find_call E uac c"
| "call_input_step X find_call E (InactivityScan t) c = end_if_inactive X find_call E t c"
| "call_input_step X find_call E HoldScan c = end_if_held_too_long X find_call E c"
| "call_input_step X find_call E EngineShutdown c = end_if_terminable X find_call E (CallError kEngineRequested) c"

lemma dialog_rests_pj [simp]: "dialog_rests K (c\<lparr>cs_pj := p\<rparr>) = dialog_rests K c"
  by (rule rests_cong) simp

lemma rests_pj [simp]: "call_rests K (c\<lparr>cs_pj := p\<rparr>) = call_rests K c"
proof -
  have "setup_ok K (cs_dialog c) (c\<lparr>cs_pj := p\<rparr>) = setup_ok K (cs_dialog c) c"
    by (simp add: setup_ok_def in_setup_def counts_def all_legs get_leg_def)
  then show ?thesis using rests_cong(1) [of "c\<lparr>cs_pj := p\<rparr>" c K] by (simp add: call_rests_def is_established_def)
qed

lemma established_rests:
  assumes "call_rests K c" and "is_established c" and "dl_frame c' = dl_frame c"
  shows "dialog_rests K c'"
  using assms rests_cong(1) [OF assms(3), of K] by (simp add: call_rests_def)

lemma dialog_call_rests: "dialog_rests K c \<Longrightarrow> call_rests K c"
  by (simp add: call_rests_def dialog_rests_def dialog_runs_def done_once_def Let_def)

lemma established_event:
  assumes "call_rests K c" and "is_established c" and "dl_frame c0 = dl_frame c" and "en_has_event_sink E = fst K"
  shows "\<exists>h c'. dialog_dispatch X find_call E e c0 = Some (h, c') \<and> dialog_rests K c'"
  by (rule dialog_dispatch_rests [OF established_rests [OF assms(1-3)] assms(4), of X find_call e]) blast

lemma input_rests_established:
  assumes r: "call_rests K c" and e: "is_established c" and sink: "en_has_event_sink E = fst K"
  shows "\<exists>c'. call_input_step X find_call E k c = Some c' \<and> dialog_rests K c'"
proof -
  have d: "dialog_rests K c" using r e by (simp add: call_rests_def)
  have ev: "\<exists>h c'. dialog_dispatch X find_call E ev c0 = Some (h, c') \<and> dialog_rests K c'" if "dl_frame c0 = dl_frame c" for ev c0
    by (rule established_event [OF r e that sink])
  note ev0 = ev [OF refl]
  have ends: "\<exists>c'. end_if_terminable X find_call E ev c = Some c' \<and> dialog_rests K c'" for ev
    using ev0 [of ev] d by (auto simp: end_if_terminable_def)
  show ?thesis
  proof (cases k)
    case (LegStateChanged i rdata)
    obtain c' where "dialog_on_leg_state_changed X find_call E i c = Some c'" "dialog_rests K c'"
      by (rule leg_changed_rests [OF d sink])
    then show ?thesis using e LegStateChanged by (simp add: call_on_inv_state_changed_def)
  next
    case (ReinviteArrived i offer rdata)
    obtain h c' where c': "dialog_dispatch X find_call E (ReinviteReceived (case offer of None \<Rightarrow> [] | Some s \<Rightarrow> sdp_serialize (en_sdp E) s) (leg_for i c))
        (c\<lparr>cs_pending_reinvite := Some rdata\<rparr>) = Some (h, c')" "dialog_rests K c'"
      using ev [OF frame_updates(5)] by blast
    have "dialog_rests K (c'\<lparr>cs_pending_reinvite := None\<rparr>)" using c'(2) rests_cong(1) [of "c'\<lparr>cs_pending_reinvite := None\<rparr>" c' K] by simp
    moreover from this have "dialog_rests K (reject_reinvite E i rdata 500 (c'\<lparr>cs_pending_reinvite := None\<rparr>))"
      using rests_cong(1) [of "reject_reinvite E i rdata 500 (c'\<lparr>cs_pending_reinvite := None\<rparr>)" "c'\<lparr>cs_pending_reinvite := None\<rparr>" K]
      by (simp add: reject_reinvite_def)
    ultimately show ?thesis using e ReinviteArrived c'(1) by (simp add: call_on_rx_reinvite_def Let_def)
  next
    case (UpdateArrived i offer)
    obtain h c' where c': "dialog_dispatch X find_call E (UpdateReceived (case offer of None \<Rightarrow> [] | Some s \<Rightarrow> sdp_serialize (en_sdp E) s) (leg_for i c)) c = Some (h, c')"
        "dialog_rests K c'" using ev0 by blast
    have "is_established c'" using c'(2) by (simp add: dialog_rests_def dialog_runs_def done_once_def Let_def)
    then show ?thesis using e UpdateArrived c' by (simp add: call_on_rx_offer_def Let_def)
  next
    case (ReferArrived rq)
    let ?c = "set_refer (\<lambda>r. r\<lparr>rf_pending := Some rq\<rparr>) c"
    have pending: "dl_frame (set_refer (\<lambda>r. r\<lparr>rf_pending := x\<rparr>) c1) = dl_frame c1" for x c1 by (simp add: dl_frame_def set_refer_def)
    obtain h c' where c': "dialog_dispatch X find_call E (ReferReceived (if lg_dialog (cs_caller c) = Some (rfq_dialog rq) then Caller else Callee)) ?c = Some (h, c')"
        "dialog_rests K c'"
      using ev [OF pending] by blast
    have "dialog_rests K (set_refer (\<lambda>r. r\<lparr>rf_pending := None\<rparr>) c')" using c'(2) rests_cong(1) [OF pending] by blast
    then show ?thesis using e ReferArrived c'(1) by (simp add: call_on_rx_refer_def Let_def)
  next
    case (MediaUpdated i ok)
    obtain c' where "dialog_on_media_update X find_call E i ok c = Some c'" "dialog_rests K c'" by (rule media_update_rests [OF d sink])
    then show ?thesis using e MediaUpdated by (simp add: call_on_media_update_def)
  next
    case (TransferCallback k')
    obtain c' where "dispatch_result X find_call E (refer_callback_step X k' c) = Some c'" "dialog_rests K c'"
      by (rule refer_callback_rests [OF d sink])
    then show ?thesis using TransferCallback by simp
  next
    case (Replaced uac)
    then show ?thesis using e d ev0 [of CallReplaced] by (auto simp: terminate_replaced_def)
  qed (use e d ends in \<open>auto simp: end_if_inactive_def end_if_held_too_long_def\<close>)
qed

lemma input_rests_early:
  assumes r: "call_rests K c" and e: "\<not> is_established c" and sink: "en_has_event_sink E = fst K"
  shows "\<exists>c'. call_input_step X find_call E k c = Some c' \<and> call_rests K c'"
proof -
  have ok: "setup_ok K (cs_dialog c) c" "early_dialog (rn_state (cs_dialog c))" using r e by (simp_all add: call_rests_def)
  have through: "\<exists>c'. f = Some c' \<and> call_rests K c'" if "\<exists>c'. f = Some c' \<and> setup_ok K (cs_dialog c) c'" for f
    using that setup_result_rests ok(2) by blast
  have event: "\<exists>h c'. dialog_dispatch X find_call E ev c = Some (h, c') \<and> setup_ok K (cs_dialog c') c' \<and> early_dialog (rn_state (cs_dialog c'))"
    if "(\<exists>sdp w. ev = UpdateReceived sdp w) \<or> (\<exists>r. ev = CallError r) \<or> is_refer_completed ev" for ev
    by (rule early_dispatch [OF ok(2) that, of X find_call E]) (use early_effect_ok [OF _ ok sink] in blast)
  show ?thesis
  proof (cases k)
    case (LegStateChanged i rdata)
    then show ?thesis
      using e r through [OF setup_callback_ok [OF ok(1) sink]] by (simp add: call_on_inv_state_changed_def)
  next
    case (ReinviteArrived i offer rdata)
    then show ?thesis using e r by (simp add: call_on_rx_reinvite_def reject_reinvite_def with_pj_def split: prod.split)
  next
    case (UpdateArrived i offer)
    let ?ev = "UpdateReceived (case offer of None \<Rightarrow> [] | Some s \<Rightarrow> sdp_serialize (en_sdp E) s) (leg_for i c)"
    obtain h c1 where c1: "dialog_dispatch X find_call E ?ev c = Some (h, c1)" "setup_ok K (cs_dialog c1) c1" "early_dialog (rn_state (cs_dialog c1))"
      using event [of ?ev] by blast
    obtain c2 where c2: "setup_dispatch E (SuExchangeFinished OFailed) c1 = Some c2" "setup_ok K (cs_dialog c1) c2"
      by (rule setup_dispatch_ok [OF c1(2) sink])
    have "call_rests K c1" "call_rests K c2"
      using setup_hands_over [OF c1(2,3)] setup_result_rests [OF c2(2) c1(3)] by blast+
    with UpdateArrived e r c1(1) c2(1) show ?thesis by (simp add: call_on_rx_offer_def Let_def)
  next
    case (ReferArrived rq)
    then show ?thesis using e r by (simp add: call_on_rx_refer_def)
  next
    case (MediaUpdated i ok)
    then show ?thesis using e r by (simp add: call_on_media_update_def)
  next
    case (TransferCallback k')
    obtain ev c1 where 1: "refer_callback_step X k' c = (ev, c1)" by fastforce
    note eff = callback_step_effect [OF 1]
    have "keeps c c1" using eff by (auto simp: callback_effect_def refer_only_def keeps_def setup_frame_def all_legs get_leg_def)
    then have ok1: "setup_ok K (cs_dialog c) c1" "cs_dialog c1 = cs_dialog c"
      using setup_ok_keeps [OF ok(1)] by (simp_all add: keeps_def setup_frame_def)
    show ?thesis
    proof (cases ev)
      case None
      with TransferCallback 1 setup_result_rests [OF ok1(1) ok(2)] show ?thesis by (simp add: dispatch_result_def)
    next
      case (Some x)
      then have "is_refer_completed x" using eff by (auto simp: callback_effect_def)
      then obtain h c2 where c2: "dialog_dispatch X find_call E x c1 = Some (h, c2)" "early_effect E c1 c2"
        using early_dispatch [of c1 x X find_call E] ok(2) ok1(2) by metis
      have "setup_ok K (cs_dialog c1) c1" "early_dialog (rn_state (cs_dialog c1))" using ok1 ok(2) by simp_all
      from setup_hands_over [OF early_effect_ok [OF c2(2) this sink]] c2(1) show ?thesis
        using TransferCallback 1 Some by (simp add: dispatch_result_def)
    qed
  next
    case (Replaced uac)
    then show ?thesis using e r through [OF setup_event_ok [OF ok(1) sink]] by (simp add: terminate_replaced_def)
  next
    case EngineShutdown
    obtain h c1 where c1: "dialog_dispatch X find_call E (CallError kEngineRequested) c = Some (h, c1)" "setup_ok K (cs_dialog c1) c1"
        "early_dialog (rn_state (cs_dialog c1))"
      using event [of "CallError kEngineRequested"] by blast
    with setup_hands_over [OF c1(2,3)] r EngineShutdown show ?thesis by (simp add: end_if_terminable_def)
  qed (use e r in \<open>simp_all add: end_if_inactive_def end_if_held_too_long_def\<close>)
qed

lemma input_rests:
  assumes "call_rests K c" and "en_has_event_sink E = fst K"
  obtains c' where "call_input_step X find_call E k c = Some c'" "call_rests K c'"
  using input_rests_established [OF assms(1) _ assms(2)] input_rests_early [OF assms(1) _ assms(2)] dialog_call_rests by metis

type_synonym ('p, 'st) timed_input = "('p pjsip_xfer \<times> (dlg \<Rightarrow> 'p call option)) \<times> ('p, 'st) engine_env \<times> 'p \<times> call_input"

fun run_inputs :: "('p, 'st) timed_input list \<Rightarrow> 'p call \<Rightarrow> 'p call option" where
  "run_inputs [] c = Some c"
| "run_inputs (((X, find_call), E, p, k) # ins) c = do {
     c' \<leftarrow> call_input_step X find_call E k (c\<lparr>cs_pj := p\<rparr>);
     run_inputs ins c' }"

lemma run_inputs_rests:
  assumes "call_rests K c" and "\<forall>(_, E, _) \<in> set ins. en_has_event_sink E = fst K"
  shows "\<exists>c'. run_inputs ins c = Some c' \<and> call_rests K c'"
  using assms
proof (induction ins arbitrary: c)
  case (Cons i ins)
  obtain X find_call E p k where i: "i = ((X, find_call), E, p, k)" by (metis surj_pair)
  have "call_rests K (c\<lparr>cs_pj := p\<rparr>)" "en_has_event_sink E = fst K" using Cons.prems i by auto
  then obtain c1 where "call_input_step X find_call E k (c\<lparr>cs_pj := p\<rparr>) = Some c1" "call_rests K c1" by (rule input_rests)
  with Cons i show ?case by simp
qed simp

lemma start_setup_call_rests:
  assumes "\<not> lg_disconnected l"
  obtains c where "start_setup E ((new_call call_id rdata now p)\<lparr>cs_replacement_target := r, cs_caller := l\<rparr>) = Some c"
    "call_rests (en_has_event_sink E, call_id, []) c"
proof -
  let ?c = "(new_call call_id rdata now p)\<lparr>cs_replacement_target := r, cs_caller := l\<rparr>"
  have "setup_ok (en_has_event_sink E, call_id, []) (new_runner Active) ?c"
    using assms by (simp add: setup_ok_def in_setup_def counts_def new_call_def new_runner_def new_leg_def all_legs get_leg_def)
  then obtain c1 where c1: "setup_dispatch E Requested ?c = Some c1" "setup_ok (en_has_event_sink E, call_id, []) (new_runner Active) c1"
    by (rule setup_dispatch_ok) simp
  then have "setup_ok (en_has_event_sink E, call_id, []) (new_runner Active) (c1\<lparr>cs_current_rdata := None\<rparr>)"
    using setup_ok_keeps [of _ _ c1 "c1\<lparr>cs_current_rdata := None\<rparr>"] by simp
  then have "call_rests (en_has_event_sink E, call_id, []) (c1\<lparr>cs_current_rdata := None\<rparr>)"
    by (rule setup_result_rests) (simp add: early_dialog_def new_runner_def)
  with c1(1) that [of "c1\<lparr>cs_current_rdata := None\<rparr>"] show thesis by (simp add: start_setup_def)
qed



end
