(* ===== verification/Call_Manager.thy ===== *)
theory Call_Manager
  imports Call_Callbacks
begin

text \<open>
  The table of calls, \<^verbatim>\<open>engine/src/sip/call/call_manager.cpp\<close>, and the timer that asks for a scan of it,
  \<^verbatim>\<open>engine/src/net/rtp/rtp_inactivity_timer.cpp\<close>. The hash map is a list of the sessions in its iteration order. The
  SIP stack is shared by all calls: an operation on a call runs on the manager's stack state and hands it back, and
  what the call asked of the manager meanwhile is done then. A session that was removed stays reachable through the
  invite sessions it claimed until the purge, as its \<^verbatim>\<open>mod_data\<close> slots do when the module is registered.
\<close>

subsection \<open>The scan timer\<close>

record scan_timer =
  st_interval :: int
  st_running :: bool
  st_scan_pending :: bool
  st_waiting :: bool

definition new_timer :: "int \<Rightarrow> scan_timer" where
  "new_timer interval = \<lparr>st_interval = interval, st_running = False, st_scan_pending = False, st_waiting = False\<rparr>"

definition timer_arm :: "scan_timer \<Rightarrow> scan_timer" where
  "timer_arm t = t\<lparr>st_waiting := True\<rparr>"

definition timer_start :: "scan_timer \<Rightarrow> scan_timer" where
  "timer_start t = (if \<not> st_running t \<and> st_interval t > 0 then timer_arm (t\<lparr>st_running := True\<rparr>) else t)"

definition timer_stop :: "scan_timer \<Rightarrow> scan_timer" where
  "timer_stop t = t\<lparr>st_running := False\<rparr>"

text \<open>The handler of the wait: the wait was cancelled, ended with another error, or expired.\<close>

definition timer_expired :: "bool \<Rightarrow> bool \<Rightarrow> scan_timer \<Rightarrow> scan_timer" where
  "timer_expired aborted error t =
     (let t = t\<lparr>st_waiting := False\<rparr> in
      if aborted \<or> \<not> st_running t then t
      else if error then t\<lparr>st_running := False\<rparr>
      else let t = t\<lparr>st_scan_pending := True\<rparr> in if st_running t then timer_arm t else t)"

definition run_pending_scan :: "scan_timer \<Rightarrow> bool \<times> scan_timer" where
  "run_pending_scan t = (st_scan_pending t, t\<lparr>st_scan_pending := False\<rparr>)"

subsection \<open>The table\<close>

record 'p call_manager =
  mg_sessions :: "(string \<times> 'p call) list"
  mg_retired :: "'p call list"
  mg_pending_replacements :: "(string \<times> bool) list"
  mg_rtp_inactivity_timer :: "scan_timer option"
  mg_module_id :: int
  mg_pj :: 'p

definition find_by_call_id :: "string \<Rightarrow> 'p call_manager \<Rightarrow> 'p call option" where
  "find_by_call_id call_id M = map_of (mg_sessions M) call_id"

text \<open>The position of a session: under its Call-ID in the table, or in the list of retired sessions.\<close>

datatype session_ref = Live string | Retired nat

fun session_at :: "session_ref \<Rightarrow> 'p call_manager \<Rightarrow> 'p call option" where
  "session_at (Live call_id) M = find_by_call_id call_id M"
| "session_at (Retired n) M = (if n < length (mg_retired M) then Some (mg_retired M ! n) else None)"

definition find_session :: "('p call \<Rightarrow> bool) \<Rightarrow> 'p call_manager \<Rightarrow> session_ref option" where
  "find_session Q M =
     (case find (\<lambda>(_, c). Q c) (mg_sessions M) of
        Some (call_id, _) \<Rightarrow> Some (Live call_id)
      | None \<Rightarrow>
          if mg_module_id M \<ge> 0
          then map_option (\<lambda>(n, _). Retired n) (find (\<lambda>(_, c). Q c) (enumerate 0 (mg_retired M)))
          else None)"

definition find_by_inv :: "inv \<Rightarrow> 'p call_manager \<Rightarrow> session_ref option" where
  "find_by_inv i M = find_session (\<lambda>c. lg_inv (cs_caller c) = Some i \<or> lg_inv (cs_callee c) = Some i) M"

definition find_by_dialog :: "dlg \<Rightarrow> 'p call_manager \<Rightarrow> session_ref option" where
  "find_by_dialog d M = find_session (\<lambda>c. lg_dialog (cs_caller c) = Some d \<or> lg_dialog (cs_callee c) = Some d) M"

definition dialog_session :: "'p call_manager \<Rightarrow> dlg \<Rightarrow> 'p call option" where
  "dialog_session M d = (case find_by_dialog d M of None \<Rightarrow> None | Some ref \<Rightarrow> session_at ref M)"

definition value_or_0 :: "16 word option \<Rightarrow> 16 word" where
  "value_or_0 p = (case p of None \<Rightarrow> 0 | Some n \<Rightarrow> n)"

definition find_by_relay_port :: "16 word \<Rightarrow> string \<Rightarrow> 'p call_manager \<Rightarrow> 'p call option" where
  "find_by_relay_port port except_id M =
     map_option snd (find (\<lambda>(call_id, c). call_id \<noteq> except_id \<and>
       (value_or_0 (cs_leg_port c LegA) = port \<or> value_or_0 (cs_leg_port c LegB) = port)) (mg_sessions M))"

definition queue_replaced_session :: "string \<Rightarrow> bool \<Rightarrow> 'p call_manager \<Rightarrow> 'p call_manager" where
  "queue_replaced_session call_id matched_dialog_is_uac M =
     M\<lparr>mg_pending_replacements := mg_pending_replacements M @ [(call_id, matched_dialog_is_uac)]\<rparr>"

definition schedule_remove :: "string \<Rightarrow> 'p call_manager \<Rightarrow> 'p call_manager" where
  "schedule_remove call_id M =
     (case find_by_call_id call_id M of
        None \<Rightarrow> M
      | Some c \<Rightarrow> M\<lparr>mg_retired := mg_retired M @ [c], mg_sessions := filter (\<lambda>(k, _). k \<noteq> call_id) (mg_sessions M)\<rparr>)"

text \<open>The destructor of a session ends the subscriptions of a transfer that is still running.\<close>

definition purge_scheduled :: "'p pjsip_xfer \<Rightarrow> 'p call_manager \<Rightarrow> 'p call_manager" where
  "purge_scheduled X M =
     M\<lparr>mg_retired := [], mg_pj := foldl (\<lambda>p c. cs_pj (stop_subscriptions X (c\<lparr>cs_pj := p\<rparr>))) (mg_pj M) (mg_retired M)\<rparr>"

subsection \<open>Running an operation of a call\<close>

fun manager_request :: "manager_op \<Rightarrow> 'p call_manager \<Rightarrow> 'p call_manager" where
  "manager_request (ScheduleRemove call_id) M = schedule_remove call_id M"
| "manager_request (QueueReplaced call_id uac) M = queue_replaced_session call_id uac M"

fun put_session :: "session_ref \<Rightarrow> 'p call \<Rightarrow> 'p call_manager \<Rightarrow> 'p call_manager" where
  "put_session (Live call_id) c M =
     M\<lparr>mg_sessions := map (\<lambda>(k, v). (k, if k = call_id then c else v)) (mg_sessions M)\<rparr>"
| "put_session (Retired n) c M = M\<lparr>mg_retired := (mg_retired M)[n := c]\<rparr>"

definition settle :: "session_ref \<Rightarrow> nat \<Rightarrow> 'p call \<Rightarrow> 'p call_manager \<Rightarrow> 'p call_manager" where
  "settle ref seen c M = fold manager_request (drop seen (cs_manager_ops c)) ((put_session ref c M)\<lparr>mg_pj := cs_pj c\<rparr>)"

definition with_session ::
  "session_ref \<Rightarrow> ('p call \<Rightarrow> ('r \<times> 'p call) option) \<Rightarrow> 'r \<Rightarrow> 'p call_manager \<Rightarrow> ('r \<times> 'p call_manager) option" where
  "with_session ref f absent M =
     (case session_at ref M of
        None \<Rightarrow> Some (absent, M)
      | Some c \<Rightarrow> do {
          (r, c') \<leftarrow> f (c\<lparr>cs_pj := mg_pj M\<rparr>);
          Some (r, settle ref (length (cs_manager_ops c)) c' M) })"

definition on_session :: "session_ref \<Rightarrow> ('p call \<Rightarrow> 'p call option) \<Rightarrow> 'p call_manager \<Rightarrow> 'p call_manager option" where
  "on_session ref f M = map_option snd (with_session ref (\<lambda>c. map_option (Pair ()) (f c)) () M)"

fun for_sessions :: "string list \<Rightarrow> ('p call_manager \<Rightarrow> 'p call \<Rightarrow> 'p call option) \<Rightarrow> 'p call_manager \<Rightarrow> 'p call_manager option" where
  "for_sessions [] f M = Some M"
| "for_sessions (call_id # ids) f M = do { M' \<leftarrow> on_session (Live call_id) (f M) M; for_sessions ids f M' }"

subsection \<open>Operations of the manager\<close>

definition create_session :: "string \<Rightarrow> rx_data \<Rightarrow> int \<Rightarrow> 'p call_manager \<Rightarrow> 'p call_manager" where
  "create_session call_id rdata now M =
     (if find_by_call_id call_id M \<noteq> None then M
      else M\<lparr>mg_sessions := mg_sessions M @ [(call_id, new_call call_id rdata now (mg_pj M))]\<rparr>)"

definition terminate_replaced_session ::
  "'p pjsip_xfer \<Rightarrow> ('p, 'st) engine_env \<Rightarrow> string \<times> bool \<Rightarrow> 'p call_manager \<Rightarrow> 'p call_manager option" where
  "terminate_replaced_session X E replacement M =
     (case replacement of (call_id, uac) \<Rightarrow> on_session (Live call_id) (terminate_replaced X (dialog_session M) E uac) M)"

fun terminate_replaced_sessions ::
  "'p pjsip_xfer \<Rightarrow> ('p, 'st) engine_env \<Rightarrow> (string \<times> bool) list \<Rightarrow> 'p call_manager \<Rightarrow> 'p call_manager option" where
  "terminate_replaced_sessions X E [] M = Some M"
| "terminate_replaced_sessions X E (r # rs) M = do {
     M' \<leftarrow> terminate_replaced_session X E r M; terminate_replaced_sessions X E rs M' }"

definition process_pending_replacements ::
  "'p pjsip_xfer \<Rightarrow> ('p, 'st) engine_env \<Rightarrow> 'p call_manager \<Rightarrow> 'p call_manager option" where
  "process_pending_replacements X E M =
     terminate_replaced_sessions X E (mg_pending_replacements M) (M\<lparr>mg_pending_replacements := []\<rparr>)"

definition start_rtp_inactivity_timer :: "int \<Rightarrow> 'p call_manager \<Rightarrow> 'p call_manager" where
  "start_rtp_inactivity_timer interval M = M\<lparr>mg_rtp_inactivity_timer := Some (timer_start (new_timer interval))\<rparr>"

definition stop_rtp_inactivity_timer :: "'p call_manager \<Rightarrow> 'p call_manager" where
  "stop_rtp_inactivity_timer M = M\<lparr>mg_rtp_inactivity_timer := None\<rparr>"

definition process_pending_rtp_inactivity ::
  "'p pjsip_xfer \<Rightarrow> ('p, 'st) engine_env \<Rightarrow> 'p call_manager \<Rightarrow> 'p call_manager option" where
  "process_pending_rtp_inactivity X E M =
     (case mg_rtp_inactivity_timer M of
        None \<Rightarrow> Some M
      | Some t \<Rightarrow>
          let (pending, t') = run_pending_scan t; M = M\<lparr>mg_rtp_inactivity_timer := Some t'\<rparr> in
          if pending
          then for_sessions (map fst (mg_sessions M)) (\<lambda>M. end_if_inactive X (dialog_session M) E (st_interval t)) M
          else Some M)"

definition process_pending_hold_timeouts ::
  "'p pjsip_xfer \<Rightarrow> ('p, 'st) engine_env \<Rightarrow> 'p call_manager \<Rightarrow> 'p call_manager option" where
  "process_pending_hold_timeouts X E M =
     for_sessions (map fst (mg_sessions M)) (\<lambda>M. end_if_held_too_long X (dialog_session M) E) M"

definition terminate_established_calls ::
  "'p pjsip_xfer \<Rightarrow> ('p, 'st) engine_env \<Rightarrow> 'p call_manager \<Rightarrow> 'p call_manager option" where
  "terminate_established_calls X E M = do {
     M' \<leftarrow> for_sessions (map fst (mg_sessions M)) (\<lambda>M. end_if_terminable X (dialog_session M) E (CallError kEngineRequested)) M;
     Some (stop_rtp_inactivity_timer M') }"

subsection \<open>The table holds exactly the calls that have not been removed\<close>

definition removed :: "'p call \<Rightarrow> bool" where
  "removed c \<longleftrightarrow> filter is_removal (cs_manager_ops c) \<noteq> []"

definition at_rest :: "bool \<Rightarrow> string \<Rightarrow> 'p call \<Rightarrow> bool" where
  "at_rest sink call_id c \<longleftrightarrow> call_rests (sink, call_id, []) c"

definition table_ok :: "bool \<Rightarrow> 'p call_manager \<Rightarrow> bool" where
  "table_ok sink M \<longleftrightarrow> distinct (map fst (mg_sessions M)) \<and>
     (\<forall>(call_id, c) \<in> set (mg_sessions M). at_rest sink call_id c \<and> \<not> removed c) \<and>
     (\<forall>c \<in> set (mg_retired M). at_rest sink (cs_call_id c) c \<and> removed c)"

lemma rests_rebase:
  "call_rests (sink, call_id, ops) c \<Longrightarrow> prefix ops' (cs_manager_ops c) \<Longrightarrow> call_rests (sink, call_id, ops') c"
  by (auto simp: call_rests_def dialog_rests_def dialog_runs_def done_once_def setup_ok_def in_setup_def counts_def Let_def)

lemma rests_removals:
  assumes "call_rests (sink, call_id, ops) c"
  shows "cs_call_id c = call_id" "prefix ops (cs_manager_ops c)"
    "filter is_removal (cs_manager_ops c) = [] \<or> filter is_removal (cs_manager_ops c) = [ScheduleRemove call_id]"
  using assms
  by (auto simp: call_rests_def dialog_rests_def dialog_runs_def done_once_def setup_ok_def in_setup_def counts_def Let_def split: if_splits)

lemma input_rests_from:
  assumes "at_rest (en_has_event_sink E) call_id c"
  obtains c' where "call_input_step X find_call E k (c\<lparr>cs_pj := p\<rparr>) = Some c'"
    "call_rests (en_has_event_sink E, call_id, cs_manager_ops c) c'"
proof -
  have "call_rests (en_has_event_sink E, call_id, cs_manager_ops c) (c\<lparr>cs_pj := p\<rparr>)"
    using assms rests_rebase [of _ _ "[]" c "cs_manager_ops c"] by (simp add: at_rest_def)
  then obtain c' where "call_input_step X find_call E k (c\<lparr>cs_pj := p\<rparr>) = Some c'"
      "call_rests (en_has_event_sink E, call_id, cs_manager_ops c) c'"
    by (rule input_rests) simp
  then show thesis by (rule that)
qed

lemma requests_without_removal:
  assumes "filter is_removal ops = []"
  shows "mg_sessions (fold manager_request ops M) = mg_sessions M \<and> mg_retired (fold manager_request ops M) = mg_retired M"
  using assms
proof (induction ops arbitrary: M)
  case (Cons x ops)
  then obtain id uac where "x = QueueReplaced id uac" by (cases x) auto
  with Cons show ?case by (simp add: queue_replaced_session_def)
qed simp

lemma requests_with_removal:
  assumes "filter is_removal ops = [ScheduleRemove call_id]"
  shows "mg_sessions (fold manager_request ops M) = mg_sessions (schedule_remove call_id M) \<and>
    mg_retired (fold manager_request ops M) = mg_retired (schedule_remove call_id M)"
proof -
  obtain xs ys where ops: "ops = xs @ ScheduleRemove call_id # ys" "filter is_removal xs = []" "filter is_removal ys = []"
  proof -
    obtain us vs where "ops = us @ ScheduleRemove call_id # vs" "\<forall>u\<in>set us. \<not> is_removal u" "[] = filter is_removal vs"
      using filter_eq_ConsD [OF assms] by blast
    then show thesis using that [of us vs] by (simp add: filter_empty_conv)
  qed
  let ?M = "fold manager_request xs M"
  have x: "mg_sessions ?M = mg_sessions M" "mg_retired ?M = mg_retired M" using requests_without_removal [OF ops(2), of M] by blast+
  then have "mg_sessions (schedule_remove call_id ?M) = mg_sessions (schedule_remove call_id M)"
    "mg_retired (schedule_remove call_id ?M) = mg_retired (schedule_remove call_id M)"
    by (simp_all add: schedule_remove_def find_by_call_id_def split: option.split)
  then show ?thesis using requests_without_removal [OF ops(3), of "schedule_remove call_id ?M"] by (simp add: ops(1))
qed

lemma found_live:
  assumes "table_ok sink M" and "find_by_call_id call_id M = Some c"
  shows "at_rest sink call_id c" "\<not> removed c" "(call_id, c) \<in> set (mg_sessions M)"
proof -
  show m: "(call_id, c) \<in> set (mg_sessions M)" using assms(2) map_of_SomeD [of "mg_sessions M" call_id c] by (simp add: find_by_call_id_def)
  have "\<forall>(call_id, c) \<in> set (mg_sessions M). at_rest sink call_id c \<and> \<not> removed c" using assms(1) by (simp add: table_ok_def)
  with m show "at_rest sink call_id c" "\<not> removed c" by blast+
qed

text \<open>The table while the call under one Call-ID is being worked on.\<close>

definition table_except :: "bool \<Rightarrow> string \<Rightarrow> 'p call_manager \<Rightarrow> bool" where
  "table_except sink call_id M \<longleftrightarrow> distinct (map fst (mg_sessions M)) \<and>
     (\<forall>(k, c) \<in> set (mg_sessions M). k \<noteq> call_id \<longrightarrow> at_rest sink k c \<and> \<not> removed c) \<and>
     (\<forall>c \<in> set (mg_retired M). at_rest sink (cs_call_id c) c \<and> removed c)"

lemma table_exceptI: "table_ok sink M \<Longrightarrow> table_except sink call_id M"
  by (auto simp: table_ok_def table_except_def)

lemma map_of_put: "map_of (map (\<lambda>(k, v). (k, if k = i then c else v)) kvs) i = map_option (\<lambda>_. c) (map_of kvs i)"
  by (induction kvs) auto

lemma map_fst_put [simp]: "map (fst \<circ> (\<lambda>(k, v). (k, if k = i then c else v))) kvs = map fst kvs"
  by (induction kvs) auto

lemma settle_live:
  assumes ok: "table_except sink call_id M" and at: "find_by_call_id call_id M = Some c" and unremoved: "\<not> removed c"
    and c': "call_rests (sink, call_id, cs_manager_ops c) c'"
  shows "table_ok sink (settle (Live call_id) (length (cs_manager_ops c)) c' M)"
proof -
  let ?new = "drop (length (cs_manager_ops c)) (cs_manager_ops c')"
  let ?M = "(put_session (Live call_id) c' M)\<lparr>mg_pj := cs_pj c'\<rparr>"
  have rest': "at_rest sink call_id c'" using rests_rebase [OF c', of "[]"] by (simp add: at_rest_def)
  have "cs_manager_ops c' = cs_manager_ops c @ ?new" using rests_removals(2) [OF c'] by (auto elim: prefixE)
  then have new: "filter is_removal ?new = filter is_removal (cs_manager_ops c')"
    using unremoved unfolding removed_def by (metis append_self_conv2 filter_append not_not)
  have others: "at_rest sink k v \<and> \<not> removed v" if "(k, v) \<in> set (mg_sessions M)" "k \<noteq> call_id" for k v
    using ok that by (auto simp: table_except_def)
  have sessions: "mg_sessions ?M = map (\<lambda>(k, v). (k, if k = call_id then c' else v)) (mg_sessions M)" "mg_retired ?M = mg_retired M"
    by simp_all
  show ?thesis
  proof (cases "removed c'")
    case False
    then have "filter is_removal ?new = []" using new by (simp add: removed_def)
    from requests_without_removal [OF this, of ?M] show ?thesis
      using ok others rest' False by (auto simp: settle_def table_ok_def table_except_def split: if_splits)
  next
    case True
    then have "filter is_removal ?new = [ScheduleRemove call_id]" using new rests_removals(3) [OF c'] by (auto simp: removed_def)
    note r = requests_with_removal [OF this, of ?M]
    have "find_by_call_id call_id ?M = Some c'"
      using at map_of_put [of call_id c' "mg_sessions M"] by (simp add: find_by_call_id_def)
    then have "schedule_remove call_id ?M = ?M\<lparr>mg_retired := mg_retired M @ [c'], mg_sessions := filter (\<lambda>(k, _). k \<noteq> call_id) (mg_sessions ?M)\<rparr>"
      by (simp add: schedule_remove_def)
    with r have t: "mg_sessions (settle (Live call_id) (length (cs_manager_ops c)) c' M) = filter (\<lambda>(k, _). k \<noteq> call_id) (mg_sessions ?M)"
      "mg_retired (settle (Live call_id) (length (cs_manager_ops c)) c' M) = mg_retired M @ [c']"
      by (simp_all add: settle_def)
    have "distinct (map fst (mg_sessions ?M))" using ok sessions(1) by (simp add: table_except_def)
    then have "distinct (map fst (filter (\<lambda>(k, _). k \<noteq> call_id) (mg_sessions ?M)))" by (rule distinct_map_filter)
    moreover have "at_rest sink (cs_call_id c') c'" using rest' rests_removals(1) [OF c'] by simp
    ultimately show ?thesis using ok others True t sessions(1) by (auto simp: table_ok_def table_except_def split: if_splits)
  qed
qed

lemma settle_retired:
  assumes ok: "table_ok sink M" and n: "n < length (mg_retired M)" and c: "mg_retired M ! n = c"
    and c': "call_rests (sink, cs_call_id c, cs_manager_ops c) c'"
  shows "table_ok sink (settle (Retired n) (length (cs_manager_ops c)) c' M)"
proof -
  let ?new = "drop (length (cs_manager_ops c)) (cs_manager_ops c')"
  let ?M = "(put_session (Retired n) c' M)\<lparr>mg_pj := cs_pj c'\<rparr>"
  have old: "removed c" using ok n c nth_mem [of n "mg_retired M"] by (auto simp: table_ok_def)
  have "cs_manager_ops c' = cs_manager_ops c @ ?new" using rests_removals(2) [OF c'] by (auto elim: prefixE)
  then have split: "filter is_removal (cs_manager_ops c') = filter is_removal (cs_manager_ops c) @ filter is_removal ?new"
    by (metis filter_append)
  have "filter is_removal ?new = []"
    using split old rests_removals(3) [OF c'] by (auto simp: removed_def append_eq_Cons_conv)
  from requests_without_removal [OF this, of ?M]
  have M': "mg_sessions (settle (Retired n) (length (cs_manager_ops c)) c' M) = mg_sessions M"
    "mg_retired (settle (Retired n) (length (cs_manager_ops c)) c' M) = (mg_retired M)[n := c']"
    by (simp_all add: settle_def)
  have "at_rest sink (cs_call_id c') c'" using rests_rebase [OF c', of "[]"] rests_removals(1) [OF c'] by (simp add: at_rest_def)
  moreover have "removed c'" using split old by (simp add: removed_def)
  ultimately show ?thesis using ok M' by (auto simp: table_ok_def dest!: set_update_subset_insert [THEN subsetD])
qed

lemma with_session_ok:
  assumes ok: "table_ok sink M"
    and f: "\<And>c. call_rests (sink, cs_call_id c, cs_manager_ops c) c \<Longrightarrow> cs_pj c = mg_pj M \<Longrightarrow>
      \<exists>r c'. f c = Some (r, c') \<and> call_rests (sink, cs_call_id c, cs_manager_ops c) c'"
  obtains r M' where "with_session ref f absent M = Some (r, M')" "table_ok sink M'"
proof (cases "session_at ref M")
  case None
  with ok that show thesis by (simp add: with_session_def)
next
  case (Some c)
  have rest: "at_rest sink (cs_call_id c) c" and id: "ref = Live k \<Longrightarrow> cs_call_id c = k \<and> \<not> removed c" for k
  proof -
    show "at_rest sink (cs_call_id c) c"
    proof (cases ref)
      case (Live k)
      with Some found_live [OF ok, of k c] rests_removals(1) show ?thesis by (fastforce simp: at_rest_def)
    next
      case (Retired n)
      with Some ok show ?thesis by (auto simp: table_ok_def split: if_splits)
    qed
    show "cs_call_id c = k \<and> \<not> removed c" if "ref = Live k"
      using that Some found_live [OF ok, of k c] rests_removals(1) by (fastforce simp: at_rest_def)
  qed
  have "call_rests (sink, cs_call_id c, cs_manager_ops c) (c\<lparr>cs_pj := mg_pj M\<rparr>)"
    using rest rests_rebase [of sink "cs_call_id c" "[]" c "cs_manager_ops c"] by (simp add: at_rest_def)
  with f [of "c\<lparr>cs_pj := mg_pj M\<rparr>"] obtain r c' where
    c': "f (c\<lparr>cs_pj := mg_pj M\<rparr>) = Some (r, c')" "call_rests (sink, cs_call_id c, cs_manager_ops c) c'" by auto
  have "table_ok sink (settle ref (length (cs_manager_ops c)) c' M)"
  proof (cases ref)
    case (Live k)
    with Some c'(2) id settle_live [OF table_exceptI [OF ok], of k c c'] show ?thesis by simp
  next
    case (Retired n)
    with Some c'(2) settle_retired [OF ok, of n c c'] show ?thesis by (simp split: if_splits)
  qed
  with that Some c'(1) show thesis by (simp add: with_session_def)
qed

lemma on_session_ok:
  assumes "table_ok sink M" and "\<And>c. call_rests (sink, cs_call_id c, cs_manager_ops c) c \<Longrightarrow>
      \<exists>c'. f c = Some c' \<and> call_rests (sink, cs_call_id c, cs_manager_ops c) c'"
  obtains M' where "on_session ref f M = Some M'" "table_ok sink M'"
proof -
  have "\<exists>r c'. map_option (Pair ()) (f c) = Some (r, c') \<and> call_rests (sink, cs_call_id c, cs_manager_ops c) c'"
    if "call_rests (sink, cs_call_id c, cs_manager_ops c) c" for c using assms(2) [OF that] by auto
  then obtain r M' where "with_session ref (\<lambda>c. map_option (Pair ()) (f c)) () M = Some (r, M')" "table_ok sink M'"
    by (rule with_session_ok [OF assms(1)])
  then show thesis using that by (simp add: on_session_def)
qed

lemma input_session_ok:
  assumes "table_ok (en_has_event_sink E) M"
  obtains M' where "on_session ref (call_input_step X find_call E k) M = Some M'" "table_ok (en_has_event_sink E) M'"
proof -
  have "\<exists>c'. call_input_step X find_call E k c = Some c' \<and> call_rests (en_has_event_sink E, cs_call_id c, cs_manager_ops c) c'"
    if "call_rests (en_has_event_sink E, cs_call_id c, cs_manager_ops c) c" for c
    by (rule input_rests [OF that]) auto
  then show thesis using on_session_ok [OF assms] that by blast
qed

lemma for_sessions_ok:
  assumes "table_ok (en_has_event_sink E) M" and "\<And>M. f M = call_input_step X (dialog_session M) E k"
  obtains M' where "for_sessions ids f M = Some M'" "table_ok (en_has_event_sink E) M'"
proof -
  have "\<exists>M'. for_sessions ids f M = Some M' \<and> table_ok (en_has_event_sink E) M'" using assms(1)
  proof (induction ids arbitrary: M)
    case (Cons id ids)
    obtain M' where "on_session (Live id) (f M) M = Some M'" "table_ok (en_has_event_sink E) M'"
      using input_session_ok [OF Cons.prems] assms(2) by metis
    with Cons.IH show ?case by simp
  qed simp
  with that show thesis by blast
qed

lemma table_ok_updates [simp]:
  "table_ok sink (M\<lparr>mg_rtp_inactivity_timer := t\<rparr>) = table_ok sink M" "table_ok sink (M\<lparr>mg_pending_replacements := rs\<rparr>) = table_ok sink M"
  "table_ok sink (M\<lparr>mg_pj := p\<rparr>) = table_ok sink M"
  by (simp_all add: table_ok_def)

lemma manager_inputs [simp]:
  "call_input_step X find_call E (InactivityScan t) = end_if_inactive X find_call E t"
  "call_input_step X find_call E HoldScan = end_if_held_too_long X find_call E"
  "call_input_step X find_call E (Replaced uac) = terminate_replaced X find_call E uac"
  "call_input_step X find_call E EngineShutdown = end_if_terminable X find_call E (CallError kEngineRequested)"
  by (simp_all add: fun_eq_iff)

text \<open>The operations the main loop runs on the table all return and keep it in order.\<close>

lemma scans_ok:
  assumes "table_ok (en_has_event_sink E) M"
  shows "\<exists>M'. process_pending_rtp_inactivity X E M = Some M' \<and> table_ok (en_has_event_sink E) M'"
    "\<exists>M'. process_pending_hold_timeouts X E M = Some M' \<and> table_ok (en_has_event_sink E) M'"
    "\<exists>M'. terminate_established_calls X E M = Some M' \<and> table_ok (en_has_event_sink E) M'"
proof -
  have scan: "\<exists>M'. for_sessions ids (\<lambda>M. call_input_step X (dialog_session M) E k) M1 = Some M' \<and> table_ok (en_has_event_sink E) M'"
    if "table_ok (en_has_event_sink E) M1" for ids k M1
    using for_sessions_ok [OF that, of "\<lambda>M. call_input_step X (dialog_session M) E k" X k ids] by blast
  show "\<exists>M'. process_pending_rtp_inactivity X E M = Some M' \<and> table_ok (en_has_event_sink E) M'"
    using assms scan [where k = "InactivityScan i" for i]
    by (auto simp: process_pending_rtp_inactivity_def Let_def split: option.split prod.split)
  show "\<exists>M'. process_pending_hold_timeouts X E M = Some M' \<and> table_ok (en_has_event_sink E) M'"
    using scan [OF assms, where k = HoldScan] by (simp add: process_pending_hold_timeouts_def)
  show "\<exists>M'. terminate_established_calls X E M = Some M' \<and> table_ok (en_has_event_sink E) M'"
    using scan [OF assms, of "map fst (mg_sessions M)" EngineShutdown] by (auto simp: terminate_established_calls_def stop_rtp_inactivity_timer_def)
qed

lemma replacements_ok:
  assumes "table_ok (en_has_event_sink E) M"
  shows "\<exists>M'. process_pending_replacements X E M = Some M' \<and> table_ok (en_has_event_sink E) M'"
proof -
  have "\<exists>M'. terminate_replaced_sessions X E rs M = Some M' \<and> table_ok (en_has_event_sink E) M'" if "table_ok (en_has_event_sink E) M" for rs M
    using that
  proof (induction rs arbitrary: M)
    case (Cons r rs)
    obtain id uac where r: "r = (id, uac)" by fastforce
    obtain M' where "on_session (Live id) (call_input_step X (dialog_session M) E (Replaced uac)) M = Some M'" "table_ok (en_has_event_sink E) M'"
      by (rule input_session_ok [OF Cons.prems])
    with Cons.IH r show ?case by (simp add: terminate_replaced_session_def)
  qed simp
  then show ?thesis using assms by (simp add: process_pending_replacements_def)
qed

lemma purge_ok: "table_ok sink M \<Longrightarrow> table_ok sink (purge_scheduled X M)"
  by (simp add: purge_scheduled_def table_ok_def)

subsection \<open>A scan ends exactly the calls it is for\<close>

definition ended_for :: "('p, 'st) engine_env \<Rightarrow> termination_reason \<Rightarrow> 'p call \<Rightarrow> 'p call" where
  "ended_for E reason c = (do_terminate_call E reason c)\<lparr>cs_dialog := (cs_dialog c)\<lparr>rn_state := Terminating, rn_processing := False\<rparr>\<rparr>"

lemma end_if_terminable_eq:
  assumes "e = CallEnded reason \<or> e = CallError reason"
  shows "end_if_terminable X find_call E e c = Some (if can_terminate c then ended_for E reason c else c)"
proof (cases "can_terminate c")
  case True
  have "sml_process_event (dialog_table (dialog_actions_of X find_call E)) (rn_state (cs_dialog c)) c e =
      Some (Terminating, do_terminate_call E reason c, True)"
    using True assms by (auto simp: can_terminate_def is_in_def sml_process_event_def table_simps dl_select)
  with True show ?thesis by (simp add: end_if_terminable_def dialog_dispatch_def process_event_def ended_for_def Let_def)
qed (simp add: end_if_terminable_def)

lemma ended_ops [simp]: "cs_manager_ops (ended_for E reason c) = cs_manager_ops c"
proof -
  let ?r = "report_call_terminated E (if is_established c then kSuccess else kFailed_status) (Some (termination_reason_text reason)) c"
  have "dl_frame (do_terminate_call E reason c) = dl_frame ?r" by (simp add: do_terminate_call_def Let_def)
  then have "cs_manager_ops (do_terminate_call E reason c) = cs_manager_ops ?r" by (simp add: dl_frame_def)
  also have "\<dots> = cs_manager_ops c" by (simp add: report_call_terminated_def send_event_def Let_def)
  finally show ?thesis by (simp add: ended_for_def)
qed

text \<open>The table after the calls that satisfy \<open>Q\<close> were ended for a reason, each with the stack as the one before left it.\<close>

definition scan_result ::
  "('p, 'st) engine_env \<Rightarrow> termination_reason \<Rightarrow> ('p call \<Rightarrow> bool) \<Rightarrow> 'p call_manager \<Rightarrow> 'p call_manager \<Rightarrow> bool" where
  "scan_result E reason Q M M' \<longleftrightarrow> map fst (mg_sessions M') = map fst (mg_sessions M) \<and> mg_retired M' = mg_retired M \<and>
     (\<forall>id c. find_by_call_id id M = Some c \<longrightarrow>
        (\<exists>p. find_by_call_id id M' =
           Some (if Q c \<and> can_terminate c then ended_for E reason (c\<lparr>cs_pj := p\<rparr>) else c\<lparr>cs_pj := p\<rparr>)))"

lemma map_of_put_at: "map_of (map (\<lambda>(k, v). (k, if k = i then c else v)) kvs) j =
    (if j = i then map_option (\<lambda>_. c) (map_of kvs i) else map_of kvs j)"
  by (induction kvs) auto

lemma on_session_kept:
  assumes "f (c\<lparr>cs_pj := mg_pj M\<rparr>) = Some c'" and "cs_manager_ops c' = cs_manager_ops c" and "find_by_call_id call_id M = Some c"
  shows "on_session (Live call_id) f M = Some ((put_session (Live call_id) c' M)\<lparr>mg_pj := cs_pj c'\<rparr>)"
  using assms by (simp add: on_session_def with_session_def settle_def)

lemma for_sessions_map:
  assumes "distinct ids" and f: "\<And>M c. f M c = Some (g c)" and g: "\<And>c. cs_manager_ops (g c) = cs_manager_ops c"
  shows "\<exists>M'. for_sessions ids f M = Some M' \<and> map fst (mg_sessions M') = map fst (mg_sessions M) \<and> mg_retired M' = mg_retired M \<and>
    (\<forall>id. \<exists>p. find_by_call_id id M' = (if id \<in> set ids then map_option (\<lambda>c. g (c\<lparr>cs_pj := p\<rparr>)) (find_by_call_id id M) else find_by_call_id id M))"
  using assms(1)
proof (induction ids arbitrary: M)
  case (Cons i ids)
  define M1 where "M1 = (case find_by_call_id i M of None \<Rightarrow> M
    | Some c \<Rightarrow> let c' = g (c\<lparr>cs_pj := mg_pj M\<rparr>) in (put_session (Live i) c' M)\<lparr>mg_pj := cs_pj c'\<rparr>)"
  have 1: "on_session (Live i) (f M) M = Some M1"
    by (cases "find_by_call_id i M") (simp_all add: M1_def f g on_session_kept on_session_def with_session_def settle_def Let_def)
  have M1: "map fst (mg_sessions M1) = map fst (mg_sessions M)" "mg_retired M1 = mg_retired M"
    "find_by_call_id j M1 = (if j = i then map_option (\<lambda>c. g (c\<lparr>cs_pj := mg_pj M\<rparr>)) (find_by_call_id i M) else find_by_call_id j M)" for j
    by (cases "find_by_call_id i M"; simp add: M1_def find_by_call_id_def map_of_put_at Let_def)+
  obtain M' where M': "for_sessions ids f M1 = Some M'" "map fst (mg_sessions M') = map fst (mg_sessions M1)" "mg_retired M' = mg_retired M1"
    "\<And>id. \<exists>p. find_by_call_id id M' = (if id \<in> set ids then map_option (\<lambda>c. g (c\<lparr>cs_pj := p\<rparr>)) (find_by_call_id id M1) else find_by_call_id id M1)"
    using Cons by force
  have "\<exists>p. find_by_call_id id M' = (if id \<in> set (i # ids) then map_option (\<lambda>c. g (c\<lparr>cs_pj := p\<rparr>)) (find_by_call_id id M) else find_by_call_id id M)" for id
    using M'(4) [of id] M1(3) [of id] Cons.prems by (cases "id = i") auto
  with 1 M1 M' show ?case by simp
qed simp

lemma scan_exact:
  assumes d: "distinct (map fst (mg_sessions M))" and f: "\<And>M c. f M c = Some (if Q c \<and> can_terminate c then ended_for E reason c else c)"
    and Q: "\<And>c p. Q (c\<lparr>cs_pj := p\<rparr>) = Q c"
  shows "\<exists>M'. for_sessions (map fst (mg_sessions M)) f M = Some M' \<and> scan_result E reason Q M M'"
proof -
  let ?g = "\<lambda>c. if Q c \<and> can_terminate c then ended_for E reason c else c"
  obtain M' where M': "for_sessions (map fst (mg_sessions M)) f M = Some M'" "map fst (mg_sessions M') = map fst (mg_sessions M)"
    "mg_retired M' = mg_retired M"
    "\<And>id. \<exists>p. find_by_call_id id M' = (if id \<in> set (map fst (mg_sessions M)) then map_option (\<lambda>c. ?g (c\<lparr>cs_pj := p\<rparr>)) (find_by_call_id id M) else find_by_call_id id M)"
    using for_sessions_map [OF d, of f ?g M] f by force
  have can: "can_terminate (c\<lparr>cs_pj := p\<rparr>) = can_terminate c" for c :: "'a call" and p by (simp add: can_terminate_def)
  have "\<exists>p. find_by_call_id id M' = Some (if Q c \<and> can_terminate c then ended_for E reason (c\<lparr>cs_pj := p\<rparr>) else c\<lparr>cs_pj := p\<rparr>)"
    if at: "find_by_call_id id M = Some c" for id c
  proof -
    have "id \<in> set (map fst (mg_sessions M))" using at map_of_SomeD [of "mg_sessions M" id c] by (force simp: find_by_call_id_def)
    then show ?thesis using M'(4) [of id] at Q can by auto
  qed
  with M' show ?thesis by (auto simp: scan_result_def)
qed

lemma shutdown_exact:
  assumes "distinct (map fst (mg_sessions M))"
  shows "\<exists>M'. terminate_established_calls X E M = Some M' \<and> scan_result E kEngineRequested (\<lambda>_. True) M M' \<and> mg_rtp_inactivity_timer M' = None"
proof -
  obtain M' where "for_sessions (map fst (mg_sessions M)) (\<lambda>M. end_if_terminable X (dialog_session M) E (CallError kEngineRequested)) M = Some M'"
      "scan_result E kEngineRequested (\<lambda>_. True) M M'"
    using scan_exact [OF assms, of "\<lambda>M. end_if_terminable X (dialog_session M) E (CallError kEngineRequested)" "\<lambda>_. True" E kEngineRequested]
    by (auto simp: end_if_terminable_eq)
  then show ?thesis by (simp add: terminate_established_calls_def stop_rtp_inactivity_timer_def scan_result_def find_by_call_id_def)
qed


definition sample_manager :: "unit call_manager" where
  "sample_manager = \<lparr>mg_sessions = [(''c1'', sample_call), (''c2'', new_call ''c2'' sample_rdata 0 ())], mg_retired = [],
     mg_pending_replacements = [], mg_rtp_inactivity_timer = Some (timer_expired False False (timer_start (new_timer 30000))),
     mg_module_id = 0, mg_pj = ()\<rparr>"


end
