(* ===== verification/Request_Actions.thy ===== *)
theory Request_Actions
  imports Call_Manager
begin

text \<open>
  The admission of SIP requests that do not belong to a live call,
  \<^verbatim>\<open>engine/src/sip/router/sip_request_actions.cpp\<close>: the target of a Replaces header, the creation of a call and
  the refusals. What it uses of PJSIP beyond the invite sessions is the record \<open>pjsip_ua\<close>. The responses it asks the endpoint
  to send are kept in order.
\<close>

subsection \<open>Requests and the stack\<close>

text \<open>A request with the dialog it was matched to, its parsed Replaces header, its buffer, and what only the registrar
  reads of it.\<close>

record 'r sip_request =
  sr_rdata :: rx_data
  sr_dialog :: "dlg option"
  sr_replaces :: "replaces_hdr option"
  sr_msg_buf :: "string option"
  sr_register :: 'r

datatype inv_option = InvSupportTimer | InvSupport100rel | InvOtherOption nat

datatype response =
    StatelessResponse rx_data int
  | VerifierResponse rx_data tx_data
  | OptionsResponse rx_data "string list"

text \<open>The dialog lock is recursive; \<open>ua_replaces_verify\<close> and \<open>ua_dlg_create_uas\<close> return their dialog locked. A failed
  verification has its status and possibly a response to send.\<close>

record 'p pjsip_ua =
  ua_respond_stateless :: "rx_data \<Rightarrow> int \<Rightarrow> 'p \<Rightarrow> 'p"
  ua_send_response :: "rx_data \<Rightarrow> tx_data \<Rightarrow> 'p \<Rightarrow> int \<times> 'p"
  ua_replaces_verify :: "rx_data \<Rightarrow> replaces_hdr option \<Rightarrow> 'p \<Rightarrow> (int \<times> tx_data option + dlg option) \<times> 'p"
  ua_inc_lock :: "dlg \<Rightarrow> 'p \<Rightarrow> 'p"
  ua_dec_lock :: "dlg \<Rightarrow> 'p \<Rightarrow> 'p"
  ua_dlg_inv :: "dlg \<Rightarrow> 'p \<Rightarrow> inv option"
  ua_is_uac :: "inv \<Rightarrow> 'p \<Rightarrow> bool"
  ua_call_id :: "dlg \<Rightarrow> 'p \<Rightarrow> string option"
  ua_local_tag :: "dlg \<Rightarrow> 'p \<Rightarrow> string option"
  ua_remote_tag :: "dlg \<Rightarrow> 'p \<Rightarrow> string option"
  ua_has_target :: "dlg \<Rightarrow> 'p \<Rightarrow> bool"
  ua_print_target :: "dlg \<Rightarrow> 'p \<Rightarrow> string option"
  ua_inv_verify :: "rx_data \<Rightarrow> inv_option list \<Rightarrow> 'p \<Rightarrow> inv_option list option \<times> 'p"
  ua_dlg_create_uas :: "rx_data \<Rightarrow> string \<Rightarrow> 'p \<Rightarrow> dlg option \<times> 'p"
  ua_inv_create_uas :: "dlg \<Rightarrow> rx_data \<Rightarrow> inv_option list \<Rightarrow> 'p \<Rightarrow> inv option \<times> 'p"

datatype replacement_error =
    InvalidRequest
  | NotSingleDialogTags
  | VerificationFailed int
  | RejectionNotSent int int
  | NoParsedHeader
  | NoCallSession
  | NoMatchedInvite
  | NotALeg
  | DestinationMissing
  | DestinationNoInvite
  | DestinationDisconnected
  | DestinationNotReplaceable inv_state int
  | IncompleteIdentifiers
  | EmptyIdentifiers
  | UnusableTarget

text \<open>The table of calls with the responses asked for.\<close>

record 'p admission =
  ad_manager :: "'p call_manager"
  ad_sent :: "response list"

definition on_stack :: "('p \<Rightarrow> 'p) \<Rightarrow> 'p admission \<Rightarrow> 'p admission" where
  "on_stack f A = A\<lparr>ad_manager := (ad_manager A)\<lparr>mg_pj := f (mg_pj (ad_manager A))\<rparr>\<rparr>"

definition ask_stack :: "('p \<Rightarrow> 'r \<times> 'p) \<Rightarrow> 'p admission \<Rightarrow> 'r \<times> 'p admission" where
  "ask_stack f A = (let (r, p) = f (mg_pj (ad_manager A)) in (r, on_stack (\<lambda>_. p) A))"

abbreviation ad_pj :: "'p admission \<Rightarrow> 'p" where
  "ad_pj A \<equiv> mg_pj (ad_manager A)"

definition respond_stateless :: "'p pjsip_ua \<Rightarrow> rx_data \<Rightarrow> int \<Rightarrow> 'p admission \<Rightarrow> 'p admission" where
  "respond_stateless U rdata code A =
     (on_stack (ua_respond_stateless U rdata code) A)\<lparr>ad_sent := ad_sent A @ [StatelessResponse rdata code]\<rparr>"

subsection \<open>The target of a Replaces header\<close>

definition replacement_rejection_code :: "'p pjsip \<Rightarrow> 'p pjsip_ua \<Rightarrow> inv option \<Rightarrow> bool \<Rightarrow> 'p \<Rightarrow> int option" where
  "replacement_rejection_code K U invite early_only p =
     (case invite of
        None \<Rightarrow> Some 481
      | Some i \<Rightarrow>
          (case pj_state K i p of
             InvDisconnected \<Rightarrow> Some 603
           | InvEarly \<Rightarrow> if ua_is_uac U i p then Some 481 else None
           | InvConnecting \<Rightarrow> if early_only then Some 486 else None
           | InvConfirmed \<Rightarrow> if early_only then Some 486 else None
           | _ \<Rightarrow> Some 481))"

definition make_replacement_target :: "string \<Rightarrow> string \<Rightarrow> string \<Rightarrow> string \<Rightarrow> bool \<Rightarrow> replacement_target" where
  "make_replacement_target call_id local_tag remote_tag target_uri early_only =
     \<lparr>rp_replaced_session_id = [], rp_call_id = call_id, rp_to_tag = remote_tag, rp_from_tag = local_tag,
      rp_target_uri = target_uri, rp_early_only = early_only, rp_matched_dialog_is_uac = False\<rparr>"

definition refuse_replacement ::
  "'p pjsip_ua \<Rightarrow> rx_data \<Rightarrow> dlg option \<Rightarrow> int \<Rightarrow> replacement_error \<Rightarrow> 'p admission \<Rightarrow>
     (replacement_error + replacement_target option) \<times> 'p admission" where
  "refuse_replacement U rdata locked code e A =
     (Inl e, respond_stateless U rdata code (case locked of None \<Rightarrow> A | Some d \<Rightarrow> on_stack (ua_dec_lock U d) A))"

text \<open>The second half works on the dialog of the other leg while it is locked.\<close>

definition snapshot_destination ::
  "'p pjsip \<Rightarrow> 'p pjsip_ua \<Rightarrow> rx_data \<Rightarrow> 'p call \<Rightarrow> call_leg \<Rightarrow> dlg \<Rightarrow> bool \<Rightarrow> bool \<Rightarrow> 'p admission \<Rightarrow>
     (replacement_error + replacement_target option) \<times> 'p admission" where
  "snapshot_destination K U rdata session destination_leg d early_only matched_dialog_is_uac A =
     (let refuse = (\<lambda>code e. refuse_replacement U rdata (Some d) code e A); p = ad_pj A in
      case ua_dlg_inv U d p of
        None \<Rightarrow> refuse 481 DestinationNoInvite
      | Some i \<Rightarrow>
          if lg_disconnected destination_leg then refuse 603 DestinationDisconnected
          else (case replacement_rejection_code K U (Some i) early_only p of
            Some code \<Rightarrow> refuse code (DestinationNotReplaceable (pj_state K i p) code)
          | None \<Rightarrow>
              (case (ua_call_id U d p, ua_local_tag U d p, ua_remote_tag U d p, ua_has_target U d p) of
                 (Some call_id, Some local_tag, Some remote_tag, True) \<Rightarrow>
                   if call_id = [] \<or> local_tag = [] \<or> remote_tag = [] then refuse 481 EmptyIdentifiers
                   else (case ua_print_target U d p of
                     None \<Rightarrow> refuse 481 UnusableTarget
                   | Some target_uri \<Rightarrow>
                       let target = (make_replacement_target call_id local_tag remote_tag target_uri early_only)
                             \<lparr>rp_replaced_session_id := cs_call_id session, rp_matched_dialog_is_uac := matched_dialog_is_uac\<rparr> in
                       (Inr (Some target), on_stack (ua_dec_lock U d) A))
               | _ \<Rightarrow> refuse 481 IncompleteIdentifiers)))"

definition leg_of_dialog :: "dlg \<Rightarrow> 'p call \<Rightarrow> leg option" where
  "leg_of_dialog d c =
     (if lg_dialog (cs_caller c) = Some d then Some Caller else if lg_dialog (cs_callee c) = Some d then Some Callee else None)"

text \<open>The first half: the call of the matched dialog, which is locked, and its leg.\<close>

definition resolve_matched ::
  "'p pjsip \<Rightarrow> 'p pjsip_ua \<Rightarrow> rx_data \<Rightarrow> bool \<Rightarrow> dlg \<Rightarrow> 'p admission \<Rightarrow>
     (replacement_error + replacement_target option) \<times> 'p admission" where
  "resolve_matched K U rdata early_only dialog A =
     (case dialog_session (ad_manager A) dialog of
        None \<Rightarrow> refuse_replacement U rdata (Some dialog) 481 NoCallSession A
      | Some session \<Rightarrow>
          (case ua_dlg_inv U dialog (ad_pj A) of
             None \<Rightarrow> refuse_replacement U rdata (Some dialog) 481 NoMatchedInvite A
           | Some matched_invite \<Rightarrow>
               let matched_dialog_is_uac = ua_is_uac U matched_invite (ad_pj A); A = on_stack (ua_dec_lock U dialog) A in
               (case leg_of_dialog dialog session of
                  None \<Rightarrow> refuse_replacement U rdata None 481 NotALeg A
                | Some which \<Rightarrow>
                    let destination_leg = get_leg (other which) session in
                    (case lg_dialog destination_leg of
                       None \<Rightarrow> refuse_replacement U rdata None 481 DestinationMissing A
                     | Some d \<Rightarrow>
                         snapshot_destination K U rdata session destination_leg d early_only matched_dialog_is_uac
                           (on_stack (ua_inc_lock U d) A)))))"

definition resolve_replacement ::
  "'p pjsip \<Rightarrow> 'p pjsip_ua \<Rightarrow> 'r sip_request option \<Rightarrow> 'p admission \<Rightarrow>
     (replacement_error + replacement_target option) \<times> 'p admission" where
  "resolve_replacement K U request A =
     (case request of
        None \<Rightarrow> (Inl InvalidRequest, A)
      | Some rq \<Rightarrow>
          let rdata = sr_rdata rq in
          if sr_replaces rq \<noteq> None \<and> \<not> replaces_has_single_dialog_tags (sr_msg_buf rq)
          then refuse_replacement U rdata None 400 NotSingleDialogTags A
          else (case ask_stack (ua_replaces_verify U rdata (sr_replaces rq)) A of
            (Inl (status, Some response), A) \<Rightarrow>
              let (send_status, A) = ask_stack (ua_send_response U rdata response) A;
                  A = A\<lparr>ad_sent := ad_sent A @ [VerifierResponse rdata response]\<rparr> in
              (Inl (if send_status \<noteq> 0 then RejectionNotSent status send_status else VerificationFailed status), A)
          | (Inl (status, None), A) \<Rightarrow> refuse_replacement U rdata None 500 (VerificationFailed status) A
          | (Inr None, A) \<Rightarrow> (Inr None, A)
          | (Inr (Some dialog), A) \<Rightarrow>
              (case sr_replaces rq of
                 None \<Rightarrow> refuse_replacement U rdata (Some dialog) 500 NoParsedHeader A
               | Some replaces \<Rightarrow> resolve_matched K U rdata (rh_early_only replaces) dialog A)))"

subsection \<open>Admitting a call\<close>

definition refuse_call :: "'p pjsip_ua \<Rightarrow> rx_data \<Rightarrow> int \<Rightarrow> 'p admission \<Rightarrow> string option \<times> 'p admission" where
  "refuse_call U rdata code A = (None, respond_stateless U rdata code A)"

text \<open>The caller-facing leg: its dialog, which is created locked, its invite session and the usage of the module, which is
  undone when it cannot be added.\<close>

definition create_caller_leg ::
  "('p, 'st) engine_env \<Rightarrow> 'p pjsip_ua \<Rightarrow> rx_data \<Rightarrow> inv_option list \<Rightarrow> 'p admission \<Rightarrow> inv option \<times> 'p admission" where
  "create_caller_leg E U rdata options A =
     (case ask_stack (ua_dlg_create_uas U rdata (own_contact_uri (en_config E))) A of
        (None, A) \<Rightarrow> (None, respond_stateless U rdata 500 A)
      | (Some dlg, A) \<Rightarrow>
          (case ask_stack (ua_inv_create_uas U dlg rdata options) A of
             (None, A) \<Rightarrow> (None, respond_stateless U rdata 500 (on_stack (ua_dec_lock U dlg) A))
           | (Some i, A) \<Rightarrow>
               (case ask_stack (pj_dlg_add_usage (en_pjsip E) dlg) A of
                  (False, A) \<Rightarrow>
                    (None, respond_stateless U rdata 500
                       (on_stack (ua_dec_lock U dlg) (on_stack (pj_inv_terminate (en_pjsip E) i 500) A)))
                | (True, A) \<Rightarrow> (Some i, on_stack (ua_dec_lock U dlg) A))))"

text \<open>The new call with its replacement target and its caller leg; setup has not started yet.\<close>

definition enter_call ::
  "('p, 'st) engine_env \<Rightarrow> string \<Rightarrow> rx_data \<Rightarrow> replacement_target option \<Rightarrow> inv \<Rightarrow> 'p call_manager \<Rightarrow> 'p call_manager" where
  "enter_call E call_id rdata replacement i M =
     (let M = create_session call_id rdata (en_now E) M in
      case find_by_call_id call_id M of
        None \<Rightarrow> M
      | Some c \<Rightarrow> put_session (Live call_id) (set_inv E Caller (Some i) (c\<lparr>cs_pj := mg_pj M, cs_replacement_target := replacement\<rparr>)) M)"

definition create_call ::
  "('p, 'st) engine_env \<Rightarrow> 'p pjsip_ua \<Rightarrow> 'r sip_request \<Rightarrow> 'p admission \<Rightarrow> string option \<times> 'p admission" where
  "create_call E U rq A =
     (case resolve_replacement (en_pjsip E) U (Some rq) A of
        (Inl _, A) \<Rightarrow> (None, A)
      | (Inr replacement, A) \<Rightarrow>
          let rdata = sr_rdata rq; call_id = rx_call_id rdata in
          if call_id = [] then refuse_call U rdata 400 A
          else if find_by_call_id call_id (ad_manager A) \<noteq> None then (None, A)
          else (case ask_stack (ua_inv_verify U rdata [InvSupportTimer, InvSupport100rel]) A of
            (None, A) \<Rightarrow> refuse_call U rdata 400 A
          | (Some options, A) \<Rightarrow>
              if rx_max_fwd rdata = Some 0 then refuse_call U rdata 483 A
              else if rx_sdp rdata = [] then refuse_call U rdata 400 A
              else (case create_caller_leg E U rdata options A of
                (None, A) \<Rightarrow> (None, A)
              | (Some i, A) \<Rightarrow>
                  (Some call_id, A\<lparr>ad_manager := enter_call E call_id rdata replacement i (ad_manager A)\<rparr>))))"

definition handle_unmatched_dialog_request :: "'p pjsip_ua \<Rightarrow> rx_data \<Rightarrow> 'p admission \<Rightarrow> 'p admission" where
  "handle_unmatched_dialog_request U rdata A =
     (if find_by_call_id (rx_call_id rdata) (ad_manager A) = None then respond_stateless U rdata 481 A else A)"

definition handle_unmatched_ack :: "rx_data \<Rightarrow> 'p admission \<Rightarrow> 'p admission" where
  "handle_unmatched_ack rdata A = A"

definition reject_bad_request :: "'p pjsip_ua \<Rightarrow> rx_data \<Rightarrow> 'p admission \<Rightarrow> 'p admission" where
  "reject_bad_request U rdata A = respond_stateless U rdata 400 A"

definition reject_unsupported_method :: "'p pjsip_ua \<Rightarrow> rx_data \<Rightarrow> 'p admission \<Rightarrow> 'p admission" where
  "reject_unsupported_method U rdata A = respond_stateless U rdata 405 A"

definition reject_out_of_dialog_refer :: "'p pjsip_ua \<Rightarrow> rx_data \<Rightarrow> 'p admission \<Rightarrow> 'p admission" where
  "reject_out_of_dialog_refer U rdata A = respond_stateless U rdata 481 A"

subsection \<open>What admission answers\<close>

lemma stack_simps [simp]:
  "ad_sent (on_stack f A) = ad_sent A" "ad_pj (on_stack f A) = f (ad_pj A)"
  "mg_sessions (ad_manager (on_stack f A)) = mg_sessions (ad_manager A)"
  "mg_retired (ad_manager (on_stack f A)) = mg_retired (ad_manager A)"
  by (simp_all add: on_stack_def)

lemma ask_stackD:
  assumes "ask_stack f A = (r, A')"
  shows "f (ad_pj A) = (r, ad_pj A')" "ad_sent A' = ad_sent A" "mg_sessions (ad_manager A') = mg_sessions (ad_manager A)"
    "mg_retired (ad_manager A') = mg_retired (ad_manager A)"
  using assms by (auto simp: ask_stack_def Let_def split: prod.splits)

lemma find_on_stack [simp]: "find_by_call_id call_id (ad_manager (on_stack f A)) = find_by_call_id call_id (ad_manager A)"
  by (simp add: find_by_call_id_def)

lemma respond_simps [simp]:
  "ad_sent (respond_stateless U rdata code A) = ad_sent A @ [StatelessResponse rdata code]"
  "mg_sessions (ad_manager (respond_stateless U rdata code A)) = mg_sessions (ad_manager A)"
  "mg_retired (ad_manager (respond_stateless U rdata code A)) = mg_retired (ad_manager A)"
  "ad_pj (respond_stateless U rdata code A) = ua_respond_stateless U rdata code (ad_pj A)"
  by (simp_all add: respond_stateless_def on_stack_def)

text \<open>The code each refusal of a replacement is answered with, unless the verifier made the response.\<close>

fun refusal_code :: "replacement_error \<Rightarrow> int" where
  "refusal_code NotSingleDialogTags = 400"
| "refusal_code (VerificationFailed _) = 500"
| "refusal_code NoParsedHeader = 500"
| "refusal_code DestinationDisconnected = 603"
| "refusal_code (DestinationNotReplaceable _ code) = code"
| "refusal_code _ = 481"

text \<open>A dialog can be replaced: it rings towards the endpoint, or is answered and the request is not limited to early dialogs.\<close>

definition replaceable :: "'p pjsip \<Rightarrow> 'p pjsip_ua \<Rightarrow> inv \<Rightarrow> bool \<Rightarrow> 'p \<Rightarrow> bool" where
  "replaceable K U i early_only p \<longleftrightarrow>
     pj_state K i p = InvEarly \<and> \<not> ua_is_uac U i p \<or> pj_state K i p \<in> {InvConnecting, InvConfirmed} \<and> \<not> early_only"

lemma rejection_code:
  "replacement_rejection_code K U (Some i) early_only p = None \<longleftrightarrow> replaceable K U i early_only p"
  by (auto simp: replacement_rejection_code_def replaceable_def split: inv_state.splits if_splits)

definition same_table :: "'p admission \<Rightarrow> 'p admission \<Rightarrow> bool" where
  "same_table A A' \<longleftrightarrow> mg_sessions (ad_manager A') = mg_sessions (ad_manager A) \<and> mg_retired (ad_manager A') = mg_retired (ad_manager A)"

text \<open>What a target says of the dialog \<open>d\<close> it was made from.\<close>

definition target_of ::
  "'p pjsip \<Rightarrow> 'p pjsip_ua \<Rightarrow> 'p call \<Rightarrow> leg \<Rightarrow> dlg \<Rightarrow> bool \<Rightarrow> 'p \<Rightarrow> replacement_target \<Rightarrow> bool" where
  "target_of K U session which d early_only p t \<longleftrightarrow>
     lg_dialog (get_leg which session) = Some d \<and> \<not> lg_disconnected (get_leg which session) \<and>
     (\<exists>i. ua_dlg_inv U d p = Some i \<and> replaceable K U i early_only p) \<and>
     rp_replaced_session_id t = cs_call_id session \<and> ua_call_id U d p = Some (rp_call_id t) \<and>
     ua_local_tag U d p = Some (rp_from_tag t) \<and> ua_remote_tag U d p = Some (rp_to_tag t) \<and>
     ua_print_target U d p = Some (rp_target_uri t) \<and> rp_early_only t = early_only \<and>
     rp_call_id t \<noteq> [] \<and> rp_from_tag t \<noteq> [] \<and> rp_to_tag t \<noteq> []"

lemma snapshot_outcome:
  assumes "snapshot_destination K U rdata session (get_leg which session) d early uac A = (r, A')"
    and "lg_dialog (get_leg which session) = Some d"
  shows "same_table A A' \<and> (case r of
      Inl e \<Rightarrow> ad_sent A' = ad_sent A @ [StatelessResponse rdata (refusal_code e)]
    | Inr None \<Rightarrow> False
    | Inr (Some t) \<Rightarrow> ad_sent A' = ad_sent A \<and> target_of K U session which d early (ad_pj A) t \<and> rp_matched_dialog_is_uac t = uac)"
  using assms
  by (auto simp: snapshot_destination_def refuse_replacement_def same_table_def target_of_def rejection_code make_replacement_target_def
      Let_def split: option.splits if_splits bool.splits)

text \<open>The outcome of a request whose Replaces header matched \<open>dialog\<close>: the target is the other leg of that call.\<close>

definition replacement_found ::
  "'p pjsip \<Rightarrow> 'p pjsip_ua \<Rightarrow> bool \<Rightarrow> dlg \<Rightarrow> 'p call_manager \<Rightarrow> replacement_target \<Rightarrow> bool" where
  "replacement_found K U early_only dialog M t \<longleftrightarrow>
     (\<exists>session which d matched. dialog_session M dialog = Some session \<and> lg_dialog (get_leg which session) = Some dialog \<and>
        ua_dlg_inv U dialog (mg_pj M) = Some matched \<and> rp_matched_dialog_is_uac t = ua_is_uac U matched (mg_pj M) \<and>
        target_of K U session (other which) d early_only (ua_inc_lock U d (ua_dec_lock U dialog (mg_pj M))) t)"

lemma leg_of_dialog_eq: "leg_of_dialog d c = Some which \<Longrightarrow> lg_dialog (get_leg which c) = Some d"
  by (auto simp: leg_of_dialog_def get_leg_def split: if_splits)

lemma matched_outcome:
  assumes "resolve_matched K U rdata early dialog A = (r, A')"
  shows "same_table A A' \<and> (case r of
      Inl e \<Rightarrow> ad_sent A' = ad_sent A @ [StatelessResponse rdata (refusal_code e)]
    | Inr None \<Rightarrow> False
    | Inr (Some t) \<Rightarrow> ad_sent A' = ad_sent A \<and> replacement_found K U early dialog (ad_manager A) t)"
proof (cases "dialog_session (ad_manager A) dialog")
  case None
  with assms show ?thesis by (auto simp: resolve_matched_def refuse_replacement_def same_table_def)
next
  case (Some session)
  show ?thesis
  proof (cases "ua_dlg_inv U dialog (ad_pj A)")
    case None
    with Some assms show ?thesis by (auto simp: resolve_matched_def refuse_replacement_def same_table_def)
  next
    case matched: (Some matched)
    show ?thesis
    proof (cases "leg_of_dialog dialog session")
      case None
      with Some matched assms show ?thesis by (auto simp: resolve_matched_def refuse_replacement_def same_table_def Let_def)
    next
      case which: (Some which)
      show ?thesis
      proof (cases "lg_dialog (get_leg (other which) session)")
        case None
        with Some matched which assms show ?thesis by (auto simp: resolve_matched_def refuse_replacement_def same_table_def Let_def)
      next
        case d: (Some d)
        let ?A = "on_stack (ua_inc_lock U d) (on_stack (ua_dec_lock U dialog) A)"
        have "snapshot_destination K U rdata session (get_leg (other which) session) d early (ua_is_uac U matched (ad_pj A)) ?A = (r, A')"
          using Some matched which d assms by (simp add: resolve_matched_def Let_def)
        from snapshot_outcome [OF this d] Some matched leg_of_dialog_eq [OF which] show ?thesis
          by (auto simp: replacement_found_def same_table_def split: sum.splits option.splits)
      qed
    qed
  qed
qed

lemma replacement_outcome:
  assumes "resolve_replacement K U (Some rq) A = (r, A')"
  shows "same_table A A' \<and> (case r of
      Inl e \<Rightarrow> ad_sent A' = ad_sent A @ [StatelessResponse (sr_rdata rq) (refusal_code e)] \<or>
        (\<exists>response. ad_sent A' = ad_sent A @ [VerifierResponse (sr_rdata rq) response])
    | Inr None \<Rightarrow> ad_sent A' = ad_sent A
    | Inr (Some t) \<Rightarrow> ad_sent A' = ad_sent A \<and>
        (\<exists>replaces dialog A1. sr_replaces rq = Some replaces \<and> replaces_has_single_dialog_tags (sr_msg_buf rq) \<and>
           ask_stack (ua_replaces_verify U (sr_rdata rq) (sr_replaces rq)) A = (Inr (Some dialog), A1) \<and>
           replacement_found K U (rh_early_only replaces) dialog (ad_manager A1) t))"
proof (cases "sr_replaces rq \<noteq> None \<and> \<not> replaces_has_single_dialog_tags (sr_msg_buf rq)")
  case True
  with assms show ?thesis by (auto simp: resolve_replacement_def refuse_replacement_def same_table_def)
next
  case False
  obtain v A1 where v: "ask_stack (ua_replaces_verify U (sr_rdata rq) (sr_replaces rq)) A = (v, A1)" by fastforce
  note v' = ask_stackD [OF v]
  consider status t where "v = Inl (status, Some t)" | status where "v = Inl (status, None)" | "v = Inr None"
    | d where "v = Inr (Some d)" "sr_replaces rq = None" | d h where "v = Inr (Some d)" "sr_replaces rq = Some h"
    by (metis old.prod.exhaust option.exhaust sum.exhaust)
  then show ?thesis
  proof cases
    case 1
    obtain st A2 where 2: "ask_stack (ua_send_response U (sr_rdata rq) t) A1 = (st, A2)" by fastforce
    from ask_stackD [OF this] 1 2 False assms v v' show ?thesis by (auto simp: resolve_replacement_def same_table_def Let_def)
  next
    case 5
    then have "resolve_matched K U (sr_rdata rq) (rh_early_only h) d A1 = (r, A')"
      using False assms v by (auto simp: resolve_replacement_def Let_def)
    from matched_outcome [OF this] 5 False v v' show ?thesis by (auto simp: same_table_def split: sum.splits option.splits)
  qed (use False assms v v' in \<open>auto simp: resolve_replacement_def refuse_replacement_def same_table_def Let_def\<close>)
qed

text \<open>C9: An INVITE with a Replaces header is either refused, with exactly one response whose code the reason decides
  (or the response the verifier prepared), or it gets a target without any response; the table of calls is untouched. The target is the
  remote party of the other leg of the call whose dialog the header names: a leg that is up, with an invite session that rings towards
  its endpoint or is answered (the latter only without early-only), named by its Call-ID and its two tags seen from that endpoint, none of
  them empty.\<close>

theorem replacement_resolved:
  assumes "resolve_replacement K U (Some rq) A = (r, A')"
  shows "same_table A A' \<and> (case r of
      Inl e \<Rightarrow> ad_sent A' = ad_sent A @ [StatelessResponse (sr_rdata rq) (refusal_code e)] \<or>
        (\<exists>response. ad_sent A' = ad_sent A @ [VerifierResponse (sr_rdata rq) response])
    | Inr None \<Rightarrow> ad_sent A' = ad_sent A
    | Inr (Some t) \<Rightarrow> ad_sent A' = ad_sent A \<and>
        (\<exists>replaces dialog A1. sr_replaces rq = Some replaces \<and> replaces_has_single_dialog_tags (sr_msg_buf rq) \<and>
           ask_stack (ua_replaces_verify U (sr_rdata rq) (sr_replaces rq)) A = (Inr (Some dialog), A1) \<and>
           replacement_found K U (rh_early_only replaces) dialog (ad_manager A1) t))"
  by (rule replacement_outcome [OF assms])

definition sample_ua :: "unit pjsip_ua" where
  "sample_ua = \<lparr>ua_respond_stateless = (\<lambda>_ _ p. p), ua_send_response = (\<lambda>_ _ p. (0, p)),
     ua_replaces_verify = (\<lambda>_ h p. (Inr (case h of None \<Rightarrow> None | Some _ \<Rightarrow> Some 3), p)), ua_inc_lock = (\<lambda>_ p. p), ua_dec_lock = (\<lambda>_ p. p),
     ua_dlg_inv = (\<lambda>d _. Some d), ua_is_uac = (\<lambda>_ _. False), ua_call_id = (\<lambda>_ _. Some ''x''), ua_local_tag = (\<lambda>_ _. Some ''l''),
     ua_remote_tag = (\<lambda>_ _. Some ''r''), ua_has_target = (\<lambda>_ _. True), ua_print_target = (\<lambda>_ _. Some ''sip:b@h''),
     ua_inv_verify = (\<lambda>_ os p. (Some os, p)), ua_dlg_create_uas = (\<lambda>_ _ p. (Some 5, p)), ua_inv_create_uas = (\<lambda>d _ _ p. (Some d, p))\<rparr>"

definition sample_invite :: "unit sip_request" where
  "sample_invite = \<lparr>sr_rdata = sample_rdata\<lparr>rx_call_id := ''c9''\<rparr>, sr_dialog = None, sr_replaces = None, sr_msg_buf = None, sr_register = ()\<rparr>"

definition sample_admission :: "unit admission" where
  "sample_admission = \<lparr>ad_manager = sample_manager, ad_sent = []\<rparr>"

theorem replacement_resolved_witness:
  "\<exists>r A'. resolve_replacement sample_pjsip sample_ua (Some (sample_invite\<lparr>sr_replaces := Some \<lparr>rh_call_id = ''x'', rh_to_tag = ''t'',
      rh_from_tag = ''f'', rh_early_only = False\<rparr>\<rparr>)) sample_admission = (r, A') \<and> same_table sample_admission A' \<and>
     r = Inl NotSingleDialogTags \<and> ad_sent A' = [StatelessResponse (sr_rdata sample_invite) 400]"
proof -
  let ?rq = "sample_invite\<lparr>sr_replaces := Some \<lparr>rh_call_id = ''x'', rh_to_tag = ''t'', rh_from_tag = ''f'', rh_early_only = False\<rparr>\<rparr>"
  obtain r A' where r: "resolve_replacement sample_pjsip sample_ua (Some ?rq) sample_admission = (r, A')" by fastforce
  moreover have "\<not> replaces_has_single_dialog_tags None" by (simp add: replaces_has_single_dialog_tags_def raw_replaces_value_def)
  ultimately have "r = Inl NotSingleDialogTags" "ad_sent A' = [StatelessResponse (sr_rdata sample_invite) 400]"
    by (auto simp: resolve_replacement_def refuse_replacement_def sample_invite_def sample_admission_def)
  with r replacement_resolved [OF r] show ?thesis by blast
qed

subsection \<open>Locks\<close>

text \<open>What PJSIP documents of the dialog locks: how often the engine holds the lock of a dialog is changed by locking and
  unlocking it, by a verified Replaces header and by the creation of a dialog, both of which return it locked.\<close>

definition lock_laws :: "'p pjsip \<Rightarrow> 'p pjsip_ua \<Rightarrow> ('p \<Rightarrow> dlg \<Rightarrow> int) \<Rightarrow> bool" where
  "lock_laws K U depth \<longleftrightarrow>
     (\<forall>d p. depth (ua_inc_lock U d p) = (depth p)(d := depth p d + 1)) \<and> (\<forall>d p. depth (ua_dec_lock U d p) = (depth p)(d := depth p d - 1)) \<and>
     (\<forall>r code p. depth (ua_respond_stateless U r code p) = depth p) \<and> (\<forall>r t p. depth (snd (ua_send_response U r t p)) = depth p) \<and>
     (\<forall>r h p d p'. ua_replaces_verify U r h p = (Inr (Some d), p') \<longrightarrow> depth p' = (depth p)(d := depth p d + 1)) \<and>
     (\<forall>r h p p'. ua_replaces_verify U r h p = (Inr None, p') \<longrightarrow> depth p' = depth p) \<and>
     (\<forall>r h p e p'. ua_replaces_verify U r h p = (Inl e, p') \<longrightarrow> depth p' = depth p) \<and>
     (\<forall>r os p. depth (snd (ua_inv_verify U r os p)) = depth p) \<and>
     (\<forall>r contact p d p'. ua_dlg_create_uas U r contact p = (Some d, p') \<longrightarrow> depth p' = (depth p)(d := depth p d + 1)) \<and>
     (\<forall>r contact p p'. ua_dlg_create_uas U r contact p = (None, p') \<longrightarrow> depth p' = depth p) \<and>
     (\<forall>d r os p. depth (snd (ua_inv_create_uas U d r os p)) = depth p) \<and> (\<forall>d p. depth (snd (pj_dlg_add_usage K d p)) = depth p) \<and>
     (\<forall>i code p. depth (pj_inv_terminate K i code p) = depth p)"

lemma lock_simps:
  assumes "lock_laws K U depth"
  shows "depth (ua_inc_lock U d p) = (depth p)(d := depth p d + 1)" "depth (ua_dec_lock U d p) = (depth p)(d := depth p d - 1)"
    "depth (ua_respond_stateless U r code p) = depth p" "depth (pj_inv_terminate K i code p) = depth p"
    "ua_send_response U r t p = (st, p') \<Longrightarrow> depth p' = depth p" "ua_inv_verify U r os p = (os', p') \<Longrightarrow> depth p' = depth p"
    "ua_inv_create_uas U d r os p = (h, p') \<Longrightarrow> depth p' = depth p" "pj_dlg_add_usage K d p = (ok, p') \<Longrightarrow> depth p' = depth p"
  using assms unfolding lock_laws_def by (metis snd_conv)+

lemma lock_results:
  assumes "lock_laws K U depth"
  shows "ua_replaces_verify U r h p = (Inr (Some d), p') \<Longrightarrow> depth p' = (depth p)(d := depth p d + 1)"
    "ua_replaces_verify U r h p = (Inr None, p') \<Longrightarrow> depth p' = depth p" "ua_replaces_verify U r h p = (Inl e, p') \<Longrightarrow> depth p' = depth p"
    "ua_dlg_create_uas U r contact p = (Some d, p') \<Longrightarrow> depth p' = (depth p)(d := depth p d + 1)"
    "ua_dlg_create_uas U r contact p = (None, p') \<Longrightarrow> depth p' = depth p"
  using assms unfolding lock_laws_def by metis+

lemma refuse_locks:
  assumes "lock_laws K U depth"
  shows "depth (ad_pj (snd (refuse_replacement U rdata (Some d) code e A))) = (depth (ad_pj A))(d := depth (ad_pj A) d - 1)"
    "depth (ad_pj (snd (refuse_replacement U rdata None code e A))) = depth (ad_pj A)"
  using lock_simps [OF assms] by (simp_all add: refuse_replacement_def)

lemma snapshot_locks:
  assumes "lock_laws K U depth"
  shows "depth (ad_pj (snd (snapshot_destination K U rdata session destination d early uac A))) = (depth (ad_pj A))(d := depth (ad_pj A) d - 1)"
  using lock_simps [OF assms] refuse_locks [OF assms]
  by (auto simp: snapshot_destination_def Let_def split: option.split bool.split)

lemma matched_locks:
  assumes "lock_laws K U depth"
  shows "depth (ad_pj (snd (resolve_matched K U rdata early d A))) = (depth (ad_pj A))(d := depth (ad_pj A) d - 1)"
  using lock_simps [OF assms] refuse_locks [OF assms] snapshot_locks [OF assms]
  by (auto simp: resolve_matched_def Let_def split: option.split)

lemma resolve_locks:
  assumes L: "lock_laws K U depth"
  shows "depth (ad_pj (snd (resolve_replacement K U rq A))) = depth (ad_pj A)"
proof (cases rq)
  case (Some r)
  obtain v A1 where v: "ask_stack (ua_replaces_verify U (sr_rdata r) (sr_replaces r)) A = (v, A1)" by fastforce
  note v' = ask_stackD(1) [OF v]
  have sent: "depth (ad_pj A2) = depth (ad_pj A1)" if "ask_stack (ua_send_response U rd t) A1 = (st, A2)" for rd t st A2
    using lock_simps(5) [OF L ask_stackD(1) [OF that]] .
  show ?thesis
  proof (cases v)
    case (Inl e)
    with Some v lock_results(3) [OF L v' [unfolded Inl]] sent refuse_locks [OF L] show ?thesis
      by (auto simp: resolve_replacement_def Let_def split: option.split prod.split)
  next
    case (Inr d)
    with Some v v' lock_results(1,2) [OF L] refuse_locks [OF L] matched_locks [OF L] show ?thesis
      by (cases d) (auto simp: resolve_replacement_def Let_def split: option.split)
  qed
qed (simp add: resolve_replacement_def)

lemma caller_leg_locks:
  assumes "lock_laws (en_pjsip E) U depth"
  shows "depth (ad_pj (snd (create_caller_leg E U rdata options A))) = depth (ad_pj A)"
  using lock_simps [OF assms] lock_results(4,5) [OF assms]
  by (auto simp: create_caller_leg_def dest!: ask_stackD(1) split: prod.split option.split bool.split)

lemma create_session_pj [simp]: "mg_pj (create_session call_id rdata now M) = mg_pj M"
  by (simp add: create_session_def)

lemma enter_call_pj [simp]: "mg_pj (enter_call E call_id rdata replacement i M) = mg_pj M"
  by (simp add: enter_call_def Let_def split: option.split)

text \<open>C7: No path of the admission of an INVITE leaves a dialog locked or unlocks one it does not hold: whichever check refuses the
  request and whichever step of the stack fails, after the creation of the call every dialog is locked exactly as often as before.\<close>

theorem admission_releases_locks:
  assumes "lock_laws (en_pjsip E) U depth"
  shows "depth (ad_pj (snd (create_call E U rq A))) = depth (ad_pj A)"
proof -
  obtain r A1 where r: "resolve_replacement (en_pjsip E) U (Some rq) A = (r, A1)" by fastforce
  have 1: "depth (ad_pj A1) = depth (ad_pj A)" using resolve_locks [OF assms, of "Some rq" A] r by simp
  obtain os A2 where os: "ask_stack (ua_inv_verify U (sr_rdata rq) [InvSupportTimer, InvSupport100rel]) A1 = (os, A2)" by fastforce
  have 2: "depth (ad_pj A2) = depth (ad_pj A1)" using lock_simps(6) [OF assms ask_stackD(1) [OF os]] .
  have 3: "depth (ad_pj A3) = depth (ad_pj A2)" if "create_caller_leg E U (sr_rdata rq) options A2 = (i, A3)" for options i A3
    using caller_leg_locks [OF assms, of "sr_rdata rq" options A2] that by simp
  show ?thesis
    using r os 1 2 3 lock_simps(3) [OF assms]
    by (auto simp: create_call_def refuse_call_def Let_def split: sum.split option.split prod.split)
qed

definition counting_ua :: "(dlg \<Rightarrow> int) pjsip_ua" where
  "counting_ua = \<lparr>ua_respond_stateless = (\<lambda>_ _ p. p), ua_send_response = (\<lambda>_ _ p. (0, p)),
     ua_replaces_verify = (\<lambda>_ h p. case h of None \<Rightarrow> (Inr None, p) | Some _ \<Rightarrow> (Inr (Some 3), p(3 := p 3 + 1))),
     ua_inc_lock = (\<lambda>d p. p(d := p d + 1)), ua_dec_lock = (\<lambda>d p. p(d := p d - 1)),
     ua_dlg_inv = (\<lambda>d _. Some d), ua_is_uac = (\<lambda>_ _. False), ua_call_id = (\<lambda>_ _. Some ''x''), ua_local_tag = (\<lambda>_ _. Some ''l''),
     ua_remote_tag = (\<lambda>_ _. Some ''r''), ua_has_target = (\<lambda>_ _. True), ua_print_target = (\<lambda>_ _. Some ''sip:b@h''),
     ua_inv_verify = (\<lambda>_ os p. (Some os, p)), ua_dlg_create_uas = (\<lambda>_ _ p. (Some 5, p(5 := p 5 + 1))),
     ua_inv_create_uas = (\<lambda>d _ _ p. (Some d, p))\<rparr>"

definition counting_pjsip :: "(dlg \<Rightarrow> int) pjsip" where
  "counting_pjsip = \<lparr>pj_state = (\<lambda>_ _. InvConfirmed), pj_cause = (\<lambda>_ _. 200), pj_cause_text = (\<lambda>_ _. []),
     pj_dlg = (\<lambda>i _. Some i), pj_require_100rel = (\<lambda>_ _. False), pj_has_neg = (\<lambda>_ _. True),
     pj_active_local = (\<lambda>_ _. None), pj_active_remote = (\<lambda>_ _. None), pj_create_sdp_body = (\<lambda>_ _. True),
     pj_inv_answer = (\<lambda>_ _ _ p. (None, p)), pj_inv_initial_answer = (\<lambda>_ _ _ _ p. (None, p)),
     pj_inv_end_session = (\<lambda>_ _ p. (None, p)), pj_inv_invite = (\<lambda>_ p. (None, p)),
     pj_inv_send_msg = (\<lambda>_ _ p. (True, p)), pj_inv_set_sdp_answer = (\<lambda>_ _ p. (True, p)),
     pj_dlg_create_uac = (\<lambda>_ _ _ _ p. (None, p)), pj_inv_create_uac = (\<lambda>_ _ p. (None, p)),
     pj_dlg_add_usage = (\<lambda>_ p. (False, p)), pj_dlg_terminate = (\<lambda>_ p. p), pj_inv_terminate = (\<lambda>_ _ p. p)\<rparr>"

definition counting_env :: "((dlg \<Rightarrow> int), unit) engine_env" where
  "counting_env = \<lparr>en_pjsip = counting_pjsip, en_sdp = en_sdp sample_env, en_pjmedia = en_pjmedia sample_env,
     en_has_pjmedia_endpoint = True, en_config = en_config sample_env, en_stores = en_stores sample_env, en_has_event_sink = True,
     en_module_id = 1, en_now = 0, en_wall_clock = [], en_stream_ids = en_stream_ids sample_env, en_bind = (\<lambda>_. None)\<rparr>"

definition empty_admission :: "'p \<Rightarrow> 'p admission" where
  "empty_admission p = \<lparr>ad_manager = \<lparr>mg_sessions = [], mg_retired = [], mg_pending_replacements = [], mg_rtp_inactivity_timer = None,
     mg_module_id = 0, mg_pj = p\<rparr>, ad_sent = []\<rparr>"

theorem admission_releases_locks_witness:
  "ad_pj (snd (create_call counting_env counting_ua sample_invite (empty_admission (\<lambda>_. 0)))) = (\<lambda>_. 0)"
proof -
  have "lock_laws (en_pjsip counting_env) counting_ua (\<lambda>p. p)"
    by (auto simp: lock_laws_def counting_ua_def counting_env_def counting_pjsip_def split: option.splits)
  from admission_releases_locks [OF this, of sample_invite "empty_admission (\<lambda>_. 0)"] show ?thesis by (simp add: empty_admission_def)
qed

subsection \<open>Who is admitted\<close>

lemma ask_same: "ask_stack f A = (r, A') \<Longrightarrow> mg_sessions (ad_manager A') = mg_sessions (ad_manager A) \<and>
    mg_retired (ad_manager A') = mg_retired (ad_manager A) \<and> ad_sent A' = ad_sent A"
  using ask_stackD [of f A r A'] by simp

lemma caller_leg_outcome:
  assumes "create_caller_leg E U rdata options A = (h, A')"
  shows "same_table A A' \<and> ad_sent A' = ad_sent A @ (if h = None then [StatelessResponse rdata 500] else [])"
  using assms
  by (auto simp: create_caller_leg_def same_table_def dest!: ask_same split: prod.splits option.splits bool.splits)

lemma find_table: "same_table A A' \<Longrightarrow> find_by_call_id call_id (ad_manager A') = find_by_call_id call_id (ad_manager A)"
  by (simp add: same_table_def find_by_call_id_def)

lemma same_trans: "same_table A A1 \<Longrightarrow> same_table A1 A2 \<Longrightarrow> same_table A A2"
  by (simp add: same_table_def)

lemma same_respond [simp]: "same_table A (respond_stateless U rdata code A1) = same_table A A1"
  by (simp add: same_table_def)

lemma enter_call_sessions:
  assumes "find_by_call_id call_id M = None"
  shows "mg_sessions (enter_call E call_id rdata replacement i M) =
      mg_sessions M @ [(call_id, set_inv E Caller (Some i) ((new_call call_id rdata (en_now E) (mg_pj M))\<lparr>cs_replacement_target := replacement\<rparr>))]"
    "mg_retired (enter_call E call_id rdata replacement i M) = mg_retired M"
proof -
  let ?c = "new_call call_id rdata (en_now E) (mg_pj M)"
  have new: "map_of (mg_sessions M) call_id = None" using assms by (simp add: find_by_call_id_def)
  have c: "?c\<lparr>cs_pj := mg_pj M\<rparr> = ?c" by (simp add: new_call_def)
  have "map (\<lambda>(k, v). (k, if k = call_id then x else v)) (mg_sessions M) = mg_sessions M" for x
    using new by (intro map_idI) (auto simp: map_of_eq_None_iff rev_image_eqI)
  with new show "mg_sessions (enter_call E call_id rdata replacement i M) =
      mg_sessions M @ [(call_id, set_inv E Caller (Some i) (?c\<lparr>cs_replacement_target := replacement\<rparr>))]"
    by (simp add: enter_call_def create_session_def find_by_call_id_def c map_add_def)
  show "mg_retired (enter_call E call_id rdata replacement i M) = mg_retired M"
    by (simp add: enter_call_def create_session_def Let_def split: option.split)
qed

text \<open>The call as it is entered into the table.\<close>

definition admitted_call :: "('p, 'st) engine_env \<Rightarrow> rx_data \<Rightarrow> replacement_target option \<Rightarrow> inv \<Rightarrow> 'p \<Rightarrow> 'p call" where
  "admitted_call E rdata replacement i p =
     set_inv E Caller (Some i) ((new_call (rx_call_id rdata) rdata (en_now E) p)\<lparr>cs_replacement_target := replacement\<rparr>)"

lemma create_call_outcome:
  assumes "create_call E U rq A = (r, A')"
  shows "case r of
      Some call_id \<Rightarrow> call_id = rx_call_id (sr_rdata rq) \<and> call_id \<noteq> [] \<and> find_by_call_id call_id (ad_manager A) = None \<and>
        rx_max_fwd (sr_rdata rq) \<noteq> Some 0 \<and> rx_sdp (sr_rdata rq) \<noteq> [] \<and> ad_sent A' = ad_sent A \<and>
        mg_retired (ad_manager A') = mg_retired (ad_manager A) \<and>
        (\<exists>replacement i. mg_sessions (ad_manager A') =
           mg_sessions (ad_manager A) @ [(call_id, admitted_call E (sr_rdata rq) replacement i (ad_pj A'))])
    | None \<Rightarrow> same_table A A' \<and>
        (ad_sent A' = ad_sent A \<and> find_by_call_id (rx_call_id (sr_rdata rq)) (ad_manager A) \<noteq> None \<or>
         (\<exists>response. ad_sent A' = ad_sent A @ [response]))"
proof -
  obtain t A1 where t: "resolve_replacement (en_pjsip E) U (Some rq) A = (t, A1)" by fastforce
  obtain os A2 where os: "ask_stack (ua_inv_verify U (sr_rdata rq) [InvSupportTimer, InvSupport100rel]) A1 = (os, A2)" by fastforce
  obtain h A3 where h: "create_caller_leg E U (sr_rdata rq) (the os) A2 = (h, A3)" by fastforce
  have 1: "same_table A A1" "Inl e = t \<Longrightarrow> \<exists>response. ad_sent A1 = ad_sent A @ [response]" "Inr x = t \<Longrightarrow> ad_sent A1 = ad_sent A" for e x
    using replacement_outcome [OF t] by (auto split: sum.splits option.splits)
  have 2: "same_table A A2" "ad_sent A2 = ad_sent A1" using 1(1) ask_same [OF os] by (simp_all add: same_table_def)
  have 3: "same_table A A3" "ad_sent A3 = ad_sent A2 @ (if h = None then [StatelessResponse (sr_rdata rq) 500] else [])"
    using caller_leg_outcome [OF h] same_trans [OF 2(1)] by blast+
  show ?thesis
  proof (cases t)
    case (Inl e)
    with 1 t assms show ?thesis by (auto simp: create_call_def)
  next
    case (Inr x)
    note sent = 1(3) [OF Inr [symmetric]]
    show ?thesis
    proof (cases "rx_call_id (sr_rdata rq) = [] \<or> find_by_call_id (rx_call_id (sr_rdata rq)) (ad_manager A1) \<noteq> None \<or> os = None \<or>
        rx_max_fwd (sr_rdata rq) = Some 0 \<or> rx_sdp (sr_rdata rq) = [] \<or> h = None")
      case True
      with Inr t os h assms 1(1) 2 3 sent find_table [OF 1(1), of "rx_call_id (sr_rdata rq)"] show ?thesis
        by (auto simp: create_call_def refuse_call_def Let_def split: option.splits if_splits)
    next
      case False
      then obtain i where i: "h = Some i" by blast
      have free: "find_by_call_id (rx_call_id (sr_rdata rq)) (ad_manager A3) = None"
        using False find_table [OF 1(1)] find_table [OF 3(1)] by metis
      have A': "r = Some (rx_call_id (sr_rdata rq))" "A' = A3\<lparr>ad_manager := enter_call E (rx_call_id (sr_rdata rq)) (sr_rdata rq) x i (ad_manager A3)\<rparr>"
        using False Inr t os h i assms by (auto simp: create_call_def Let_def)
      note new = enter_call_sessions [OF free, of E "sr_rdata rq" x i]
      show ?thesis
        using False A' i sent 2(2) 3 new find_table [OF 1(1), of "rx_call_id (sr_rdata rq)"]
        by (auto simp: admitted_call_def same_table_def)
    qed
  qed
qed

text \<open>C8: The admission of an INVITE has exactly three outcomes. A new call is entered under its Call-ID, with nothing answered
  yet: then the Call-ID is not empty and was not in use, Max-Forwards is not exhausted and there is an offer. A request for a
  Call-ID in use, a retransmission, is dropped without a response. Every other request is answered with exactly one response, and the table of
  calls is untouched.\<close>

theorem call_admitted:
  assumes "create_call E U rq A = (r, A')"
  shows "case r of
      Some call_id \<Rightarrow> call_id = rx_call_id (sr_rdata rq) \<and> call_id \<noteq> [] \<and> find_by_call_id call_id (ad_manager A) = None \<and>
        rx_max_fwd (sr_rdata rq) \<noteq> Some 0 \<and> rx_sdp (sr_rdata rq) \<noteq> [] \<and> ad_sent A' = ad_sent A \<and>
        mg_retired (ad_manager A') = mg_retired (ad_manager A) \<and>
        (\<exists>replacement i. mg_sessions (ad_manager A') =
           mg_sessions (ad_manager A) @ [(call_id, admitted_call E (sr_rdata rq) replacement i (ad_pj A'))])
    | None \<Rightarrow> same_table A A' \<and>
        (ad_sent A' = ad_sent A \<and> find_by_call_id (rx_call_id (sr_rdata rq)) (ad_manager A) \<noteq> None \<or>
         (\<exists>response. ad_sent A' = ad_sent A @ [response]))"
  by (rule create_call_outcome [OF assms])

lemma sample_admitted:
  "fst (create_call sample_env sample_ua sample_invite sample_admission) = Some ''c9''"
  by (simp add: create_call_def resolve_replacement_def create_caller_leg_def ask_stack_def sample_ua_def sample_invite_def sample_rdata_def
      sample_admission_def sample_manager_def sample_env_def sample_pjsip_def find_by_call_id_def on_stack_def Let_def)

theorem call_admitted_witness:
  "\<exists>A'. create_call sample_env sample_ua sample_invite sample_admission = (Some ''c9'', A') \<and> ad_sent A' = [] \<and>
     map fst (mg_sessions (ad_manager A')) = [''c1'', ''c2'', ''c9'']"
proof -
  obtain A' where A': "create_call sample_env sample_ua sample_invite sample_admission = (Some ''c9'', A')"
    using sample_admitted by (metis prod.collapse)
  note admitted = call_admitted [OF A', unfolded option.case]
  then have sent: "ad_sent A' = ad_sent sample_admission" by (elim conjE)
  from admitted obtain r i where
    "mg_sessions (ad_manager A') = mg_sessions (ad_manager sample_admission) @ [(''c9'', admitted_call sample_env (sr_rdata sample_invite) r i (ad_pj A'))]"
    by blast
  then have "map fst (mg_sessions (ad_manager A')) = map fst (mg_sessions (ad_manager sample_admission)) @ [''c9'']"
    by (simp only: map_append list.map fst_conv)
  then have ids: "map fst (mg_sessions (ad_manager A')) = [''c1'', ''c2'', ''c9'']" by (simp add: sample_admission_def sample_manager_def)
  have "ad_sent A' = []" using sent by (simp add: sample_admission_def)
  show ?thesis by (intro exI conjI) fact+
qed

subsection \<open>Routing loops\<close>

text \<open>One hop: an INVITE is admitted, and the INVITE that setup sends for the call is the next request. Setup stamps the outbound INVITE
  from the request and the replacement target the call was entered with. \<open>Es\<close> are the environments of the engine over time.\<close>

inductive hop :: "('p, 'st) engine_env set \<Rightarrow> 'p pjsip_ua \<Rightarrow> rx_data \<Rightarrow> rx_data \<Rightarrow> bool" for Es U where
  "E \<in> Es \<Longrightarrow> create_call E U (rq :: unit sip_request) A = (Some call_id, A') \<Longrightarrow> find_by_call_id call_id (ad_manager A') = Some c \<Longrightarrow>
   rx_max_fwd onward = tx_max_fwd (stamp_invite (cs_current_rdata c) (cs_replacement_target c) t) \<Longrightarrow> hop Es U (sr_rdata rq) onward"

inductive_cases hopE: "hop Es U r onward"

definition hop_budget :: "rx_data \<Rightarrow> nat" where
  "hop_budget r = (case rx_max_fwd r of None \<Rightarrow> unat kDefaultMaxForwards | Some n \<Rightarrow> unat n)"

lemma stamp_max_fwd [simp]: "tx_max_fwd (stamp_invite rdata replacement t) = Some (outbound_max_fwd rdata)"
  by (simp add: stamp_invite_def require_replaces_def Let_def split: option.split)

lemma admitted_rdata [simp]: "cs_current_rdata (admitted_call E rdata replacement i p) = Some rdata"
  by (simp add: admitted_call_def set_inv_def update_leg_def new_call_def)

lemma hop_spends:
  assumes "hop Es U r onward"
  shows "rx_max_fwd onward = Some (outbound_max_fwd (Some r))" "hop_budget r = Suc (hop_budget onward)"
proof -
  from assms obtain E A A' call_id c t and rq :: "unit sip_request" where 1: "r = sr_rdata rq" "E \<in> Es" "create_call E U rq A = (Some call_id, A')"
      "find_by_call_id call_id (ad_manager A') = Some c" "rx_max_fwd onward = tx_max_fwd (stamp_invite (cs_current_rdata c) (cs_replacement_target c) t)"
    by (rule hopE)
  from create_call_outcome [OF 1(3)] have r: "rx_max_fwd r \<noteq> Some 0"
    and c: "cs_current_rdata c = Some r" using 1 by (auto simp: find_by_call_id_def map_add_def split: option.splits)
  have onward: "rx_max_fwd onward = Some (outbound_max_fwd (Some r))" using 1(5) c by simp
  have "n \<noteq> 0 \<Longrightarrow> unat n = Suc (unat (n - 1))" for n :: "32 word" by (simp add: unat_minus_one unat_gt_0)
  then have "hop_budget r = Suc (unat (outbound_max_fwd (Some r)))"
    using r by (auto simp: hop_budget_def outbound_max_fwd_def kDefaultMaxForwards_def word_neq_0_conv split: option.split)
  with onward show "rx_max_fwd onward = Some (outbound_max_fwd (Some r))" "hop_budget r = Suc (hop_budget onward)"
    by (simp_all add: hop_budget_def)
qed

text \<open>C6: A routing loop ends. However an INVITE comes back to the engine and whatever it is routed by, in a chain of INVITEs in which
  each is the one that the call admitted for the one before sends out, the Max-Forwards value of the first bounds the number of hops
  (70 when it has none), so no chain is infinite.\<close>

theorem routing_loop_ends:
  "((hop Es U ^^ n) r onward \<longrightarrow> n \<le> hop_budget r) \<and> wfP (\<lambda>onward r. hop Es U r onward)"
proof (intro conjI impI)
  have "n + hop_budget onward = hop_budget r" if "(hop Es U ^^ n) r onward" for n r onward
    using that
  proof (induction n arbitrary: onward)
    case (Suc n)
    then obtain m where "(hop Es U ^^ n) r m" "hop Es U m onward" by auto
    with Suc.IH hop_spends(2) show ?case by fastforce
  qed simp
  then show "n \<le> hop_budget r" if "(hop Es U ^^ n) r onward" using that by (metis le_add1)
  show "wfP (\<lambda>onward r. hop Es U r onward)"
    by (rule wfp_if_convertible_to_nat [where f = hop_budget]) (simp add: hop_spends(2))
qed

theorem routing_loop_ends_witness:
  "\<exists>onward. (hop {sample_env} sample_ua ^^ 1) (sr_rdata sample_invite) onward \<and> 1 \<le> hop_budget (sr_rdata sample_invite)"
proof -
  obtain A' where A': "create_call sample_env sample_ua sample_invite sample_admission = (Some ''c9'', A')"
    using sample_admitted by (metis prod.collapse)
  from create_call_outcome [OF A'] have "''c9'' \<in> fst ` set (mg_sessions (ad_manager A'))" by force
  then obtain c where c: "find_by_call_id ''c9'' (ad_manager A') = Some c"
    by (metis find_by_call_id_def map_of_eq_None_iff not_None_eq)
  let ?onward = "sample_rdata\<lparr>rx_max_fwd := tx_max_fwd (stamp_invite (cs_current_rdata c) (cs_replacement_target c) sample_tx)\<rparr>"
  have "hop {sample_env} sample_ua (sr_rdata sample_invite) ?onward" by (rule hop.intros [OF _ A' c]) simp_all
  then have "(hop {sample_env} sample_ua ^^ 1) (sr_rdata sample_invite) ?onward" by (auto simp: relcompp_apply)
  with routing_loop_ends [where n = 1 and Es = "{sample_env}" and U = sample_ua] show ?thesis by blast
qed

end
