(* ===== verification/Registrar.thy ===== *)
theory Registrar
  imports Binding_Store Config_Stores Extract_Utils "HOL-Library.Signed_Division"
begin

text \<open>
  The registrar, \<^verbatim>\<open>engine/src/sip/registrar/registrar_actions.cpp\<close>. A request is a record of the
  header fields the handler reads. What the SIP stack does (digest verification, building and addressing
  a response, printing and parsing URIs) is the argument \<open>K\<close> of the operations, and the steady clock is a
  sequence of readings. The operations return the state with the responses sent and the
  events mirrored to the control plane appended.
\<close>

subsection \<open>Requests, responses and the SIP stack\<close>

record 'u contact_hdr =
  ch_star :: bool
  ch_uri :: 'u
  ch_expires :: "32 word"

record 'u register_request =
  rq_to_is_sip :: bool
  rq_to_host :: string
  rq_to_user :: string
  rq_auth_username :: "string option"
  rq_expires :: "32 word option"
  rq_contacts :: "'u contact_hdr list"
  rq_call_id :: string
  rq_cseq :: int
  rq_src_name :: string
  rq_src_port :: int
  rq_user_agent :: "string option"

record reply =
  rp_status :: int
  rp_contacts :: "(string \<times> 32 word) list"
  rp_min_expires :: "32 word option"
  rp_challenge :: "string option"

record cred_info =
  ci_realm :: string
  ci_scheme :: string
  ci_username :: string
  ci_data :: string

datatype auth_status = AuthSuccess | EAuthNoAuth | EAuthAccNotFound | EAuthOther

record 'u sip_stack =
  create_response_ok :: "'u register_request \<Rightarrow> int \<Rightarrow> bool"
  response_addr_ok :: "'u register_request \<Rightarrow> bool"
  auth_srv_init_ok :: "string \<Rightarrow> bool"
  auth_srv_verify :: "(string \<Rightarrow> string \<Rightarrow> cred_info option) \<Rightarrow> string \<Rightarrow> 'u register_request \<Rightarrow> int \<Rightarrow> auth_status \<times> int"
  uri_print :: "'u \<Rightarrow> string option"
  parse_uri_ok :: "string \<Rightarrow> bool"

record registration_event =
  ev_aor :: string
  ev_contact_uri :: string
  ev_source_address :: string
  ev_source_port :: int
  ev_transport :: string
  ev_user_agent :: "string option"
  ev_expires_in_s :: int
  ev_removed :: bool

record registrar =
  rg_endpt :: bool
  rg_sink :: bool
  rg_users :: users_store
  rg_bindings :: binding_store
  rg_min_expires_s :: int
  rg_max_expires_s :: int
  rg_clock :: "nat \<Rightarrow> int"
  rg_ticks :: nat
  rg_sent :: "reply list"
  rg_mirrored :: "registration_event list"

definition read_clock :: "registrar \<Rightarrow> int \<times> registrar" where
  "read_clock st = (rg_clock st (rg_ticks st), st\<lparr>rg_ticks := rg_ticks st + 1\<rparr>)"

abbreviation kSecond :: int where
  "kSecond \<equiv> 1000000000"

definition kExpiresNotSpecified :: "32 word" where
  "kExpiresNotSpecified = 0xffffffff"

subsection \<open>Helpers\<close>

definition lookup_credential :: "users_store \<Rightarrow> string \<Rightarrow> string \<Rightarrow> cred_info option" where
  "lookup_credential users username realm =
     (case find_user users username realm of
        None \<Rightarrow> None
      | Some user \<Rightarrow> Some \<lparr>ci_realm = realm, ci_scheme = ''Digest'', ci_username = username, ci_data = us_ha1 user\<rparr>)"

definition print_contact_uri :: "'u sip_stack \<Rightarrow> 'u \<Rightarrow> string" where
  "print_contact_uri K uri = (case uri_print K uri of None \<Rightarrow> [] | Some s \<Rightarrow> s)"

definition raw_expires_for_contact :: "'u contact_hdr \<Rightarrow> int option \<Rightarrow> int \<Rightarrow> int" where
  "raw_expires_for_contact contact top_level_expires default_expires =
     (if ch_expires contact \<noteq> kExpiresNotSpecified then sint (ch_expires contact)
      else (case top_level_expires of Some e \<Rightarrow> e | None \<Rightarrow> default_expires))"

definition send_reply :: "'u sip_stack \<Rightarrow> 'u register_request \<Rightarrow> reply \<Rightarrow> registrar \<Rightarrow> registrar" where
  "send_reply K rq r st =
     (if \<not> response_addr_ok K rq then st else st\<lparr>rg_sent := rg_sent st @ [r]\<rparr>)"

definition respond :: "'u sip_stack \<Rightarrow> 'u register_request \<Rightarrow> int \<Rightarrow> registrar \<Rightarrow> registrar" where
  "respond K rq status_code st =
     (if \<not> rg_endpt st then st
      else if \<not> create_response_ok K rq status_code then st
      else send_reply K rq \<lparr>rp_status = status_code, rp_contacts = [], rp_min_expires = None, rp_challenge = None\<rparr> st)"

definition local_domain :: "registrar \<Rightarrow> 'u register_request \<Rightarrow> string option" where
  "local_domain st rq =
     (if \<not> rq_to_is_sip rq then None
      else if \<not> is_local_domain (rg_users st) (rq_to_host rq) then None
      else Some (rq_to_host rq))"

definition authenticated_username :: "'u register_request \<Rightarrow> string option" where
  "authenticated_username rq = rq_auth_username rq"

definition verify :: "'u sip_stack \<Rightarrow> registrar \<Rightarrow> 'u register_request \<Rightarrow> string \<Rightarrow> auth_status \<times> int" where
  "verify K st rq realm =
     (if \<not> auth_srv_init_ok K realm then (EAuthAccNotFound, 500)
      else auth_srv_verify K (lookup_credential (rg_users st)) realm rq 200)"

definition send_challenge :: "'u sip_stack \<Rightarrow> 'u register_request \<Rightarrow> string \<Rightarrow> registrar \<Rightarrow> registrar" where
  "send_challenge K rq realm st =
     (if \<not> rg_endpt st then st
      else if \<not> create_response_ok K rq 401 then st
      else if \<not> auth_srv_init_ok K realm then st
      else send_reply K rq \<lparr>rp_status = 401, rp_contacts = [], rp_min_expires = None, rp_challenge = Some realm\<rparr> st)"

definition send_ok :: "'u sip_stack \<Rightarrow> 'u register_request \<Rightarrow> string \<Rightarrow> registrar \<Rightarrow> registrar" where
  "send_ok K rq aor st =
     (if \<not> rg_endpt st then st
      else if \<not> create_response_ok K rq 200 then st
      else
        let (now, st1) = read_clock st;
            contacts = map (\<lambda>b. (bd_contact_uri b, word_of_int ((bd_expires_at b - now) sdiv kSecond)))
                         (filter (\<lambda>b. parse_uri_ok K (bd_contact_uri b)) (find_live (rg_bindings st1) aor now)) in
        send_reply K rq \<lparr>rp_status = 200, rp_contacts = contacts, rp_min_expires = None, rp_challenge = None\<rparr> st1)"

definition mirror_registration :: "string \<Rightarrow> binding \<Rightarrow> bool \<Rightarrow> string option \<Rightarrow> registrar \<Rightarrow> registrar" where
  "mirror_registration aor b removed user_agent st =
     (if \<not> rg_sink st then st
      else
        let (expires_in_s, st1) =
              (if removed then (0, st)
               else let (now, st1) = read_clock st in ((bd_expires_at b - now) sdiv kSecond, st1)) in
        st1\<lparr>rg_mirrored := rg_mirrored st1 @
              [\<lparr>ev_aor = aor, ev_contact_uri = bd_contact_uri b, ev_source_address = bd_source_address b,
                ev_source_port = bd_source_port b, ev_transport = bd_transport b, ev_user_agent = user_agent,
                ev_expires_in_s = expires_in_s, ev_removed = removed\<rparr>]\<rparr>)"

definition should_mirror :: "binding option \<Rightarrow> binding \<Rightarrow> bool \<Rightarrow> int \<Rightarrow> bool" where
  "should_mirror previous incoming removed now =
     (case previous of
        None \<Rightarrow> True
      | Some p \<Rightarrow>
          if removed then True
          else if bd_source_address p \<noteq> bd_source_address incoming \<or> bd_source_port p \<noteq> bd_source_port incoming \<or>
                  bd_transport p \<noteq> bd_transport incoming then True
          else now - bd_mirrored_at p \<ge> (bd_expires_at incoming - bd_refreshed_at incoming) sdiv 2)"

fun decide_mirrors :: "binding list \<Rightarrow> binding list \<Rightarrow> int \<Rightarrow> bool list \<times> binding list" where
  "decide_mirrors live [] now = ([], [])"
| "decide_mirrors live (b # new_bindings) now =
     (let removed = (bd_expires_at b \<le> bd_refreshed_at b);
          previous = find (\<lambda>p. bd_contact_uri p = bd_contact_uri b) live;
          mirror = should_mirror previous b removed now;
          b' = b\<lparr>bd_mirrored_at := (if mirror then now else bd_mirrored_at (the previous))\<rparr>;
          (decisions, bs') = decide_mirrors live new_bindings now in
      (mirror # decisions, b' # bs'))"

fun reject_if_too_brief ::
    "'u sip_stack \<Rightarrow> 'u register_request \<Rightarrow> 'u contact_hdr list \<Rightarrow> int option \<Rightarrow> registrar \<Rightarrow> bool \<times> registrar" where
  "reject_if_too_brief K rq [] top_level_expires st = (False, st)"
| "reject_if_too_brief K rq (contact # contacts) top_level_expires st =
     (let raw = raw_expires_for_contact contact top_level_expires (rg_max_expires_s st) in
      if raw = 0 \<or> raw \<ge> rg_min_expires_s st then reject_if_too_brief K rq contacts top_level_expires st
      else if \<not> create_response_ok K rq 423 then (True, st)
      else (True, send_reply K rq
              \<lparr>rp_status = 423, rp_contacts = [], rp_min_expires = Some (word_of_int (rg_min_expires_s st)),
               rp_challenge = None\<rparr> st))"

subsection \<open>Processing an authorised registration\<close>

definition new_binding ::
    "'u sip_stack \<Rightarrow> 'u register_request \<Rightarrow> int \<Rightarrow> int \<Rightarrow> int option \<Rightarrow> 'u contact_hdr \<Rightarrow> binding" where
  "new_binding K rq max_expires_s now top_level_expires contact =
     (let raw = raw_expires_for_contact contact top_level_expires max_expires_s;
          granted = (if raw = 0 then 0 else min raw max_expires_s) in
      \<lparr>bd_contact_uri = print_contact_uri K (ch_uri contact), bd_source_address = rq_src_name rq,
       bd_source_port = rq_src_port rq, bd_transport = ''udp'', bd_call_id = rq_call_id rq,
       bd_cseq = rq_cseq rq, bd_expires_at = now + granted * kSecond, bd_refreshed_at = now, bd_mirrored_at = 0\<rparr>)"

fun new_bindings ::
    "'u sip_stack \<Rightarrow> 'u register_request \<Rightarrow> int \<Rightarrow> int \<Rightarrow> int option \<Rightarrow> 'u contact_hdr list \<Rightarrow> binding list option" where
  "new_bindings K rq max_expires_s now top_level_expires [] = Some []"
| "new_bindings K rq max_expires_s now top_level_expires (contact # contacts) =
     (if print_contact_uri K (ch_uri contact) = [] then None
      else map_option ((#) (new_binding K rq max_expires_s now top_level_expires contact))
             (new_bindings K rq max_expires_s now top_level_expires contacts))"

fun mirror_all :: "string \<Rightarrow> bool list \<Rightarrow> binding list \<Rightarrow> string option \<Rightarrow> registrar \<Rightarrow> registrar" where
  "mirror_all aor (decision # decisions) (b # bs) user_agent st =
     mirror_all aor decisions bs user_agent
       (if \<not> decision then st
        else mirror_registration aor b (bd_expires_at b \<le> bd_refreshed_at b) user_agent st)"
| "mirror_all aor _ _ user_agent st = st"

definition unregister_all :: "'u sip_stack \<Rightarrow> 'u register_request \<Rightarrow> string \<Rightarrow> registrar \<Rightarrow> registrar" where
  "unregister_all K rq aor st =
     (let (now, st1) = read_clock st;
          st2 = foldl (\<lambda>s b. mirror_registration aor b True (rq_user_agent rq) s) st1
                  (find_live (rg_bindings st1) aor now);
          st3 = st2\<lparr>rg_bindings := remove_all (rg_bindings st2) aor\<rparr> in
      send_ok K rq aor st3)"

definition register_contacts ::
    "'u sip_stack \<Rightarrow> 'u register_request \<Rightarrow> string \<Rightarrow> int option \<Rightarrow> registrar \<Rightarrow> registrar" where
  "register_contacts K rq aor top_level_expires st =
     (let (now, st1) = read_clock st in
      case new_bindings K rq (rg_max_expires_s st1) now top_level_expires (rq_contacts rq) of
        None \<Rightarrow> respond K rq 400 st1
      | Some bindings \<Rightarrow>
          let (mirror_decisions, bindings') = decide_mirrors (find_live (rg_bindings st1) aor now) bindings now;
              (result, store) = apply_contacts (rg_bindings st1) aor bindings';
              st2 = st1\<lparr>rg_bindings := store\<rparr> in
          if result = kCallIdCseqConflict then respond K rq 400 st2
          else send_ok K rq aor (mirror_all aor mirror_decisions bindings' (rq_user_agent rq) st2))"

definition process_registration ::
    "'u sip_stack \<Rightarrow> 'u register_request \<Rightarrow> string \<Rightarrow> string \<Rightarrow> registrar \<Rightarrow> registrar" where
  "process_registration K rq realm to_user st =
     (let aor = make_aor to_user realm;
          top_level_expires = map_option sint (rq_expires rq);
          contacts = rq_contacts rq in
      if contacts = [] then send_ok K rq aor st
      else if list_ex ch_star contacts then
        if length contacts > 1 then respond K rq 400 st
        else if raw_expires_for_contact (hd contacts) top_level_expires (rg_max_expires_s st) \<noteq> 0
        then respond K rq 400 st
        else unregister_all K rq aor st
      else
        case reject_if_too_brief K rq contacts top_level_expires st of
          (True, st1) \<Rightarrow> st1
        | (False, st1) \<Rightarrow> register_contacts K rq aor top_level_expires st1)"

definition handle_register :: "'u sip_stack \<Rightarrow> 'u register_request \<Rightarrow> registrar \<Rightarrow> registrar" where
  "handle_register K rq st =
     (case local_domain st rq of
        None \<Rightarrow> respond K rq 404 st
      | Some realm \<Rightarrow>
          (case verify K st rq realm of
             (AuthSuccess, _) \<Rightarrow>
               (case authenticated_username rq of
                  None \<Rightarrow> respond K rq 403 st
                | Some user \<Rightarrow>
                    if user \<noteq> rq_to_user rq then respond K rq 403 st
                    else process_registration K rq realm (rq_to_user rq) st)
           | (EAuthNoAuth, _) \<Rightarrow> send_challenge K rq realm st
           | (_, status_code) \<Rightarrow> respond K rq (if status_code \<ge> 400 then status_code else 403) st))"

subsection \<open>What each step leaves alone\<close>

lemma read_clock_simps [simp]:
  "rg_bindings (snd (read_clock st)) = rg_bindings st" "rg_sent (snd (read_clock st)) = rg_sent st"
  "rg_endpt (snd (read_clock st)) = rg_endpt st"
  "rg_max_expires_s (snd (read_clock st)) = rg_max_expires_s st"
  "rg_min_expires_s (snd (read_clock st)) = rg_min_expires_s st"
  by (simp_all add: read_clock_def)

lemma send_reply_bindings [simp]: "rg_bindings (send_reply K rq r st) = rg_bindings st"
  by (simp add: send_reply_def)

lemma respond_bindings [simp]: "rg_bindings (respond K rq code st) = rg_bindings st"
  by (simp add: respond_def)

lemma send_challenge_bindings [simp]: "rg_bindings (send_challenge K rq realm st) = rg_bindings st"
  by (simp add: send_challenge_def)

lemma send_ok_bindings [simp]: "rg_bindings (send_ok K rq aor st) = rg_bindings st"
  by (simp add: send_ok_def case_prod_unfold Let_def)

lemma mirror_registration_simps [simp]:
  "rg_bindings (mirror_registration aor b removed ua st) = rg_bindings st"
  "rg_sent (mirror_registration aor b removed ua st) = rg_sent st"
  "rg_endpt (mirror_registration aor b removed ua st) = rg_endpt st"
  by (simp_all add: mirror_registration_def case_prod_unfold Let_def)

lemma mirror_all_simps [simp]:
  "rg_bindings (mirror_all aor ds bs ua st) = rg_bindings st"
  "rg_sent (mirror_all aor ds bs ua st) = rg_sent st"
  "rg_endpt (mirror_all aor ds bs ua st) = rg_endpt st"
  by (induction aor ds bs ua st rule: mirror_all.induct) simp_all

lemma mirror_foldl_simps [simp]:
  "rg_bindings (foldl (\<lambda>s b. mirror_registration aor b True ua s) st bs) = rg_bindings st"
  "rg_sent (foldl (\<lambda>s b. mirror_registration aor b True ua s) st bs) = rg_sent st"
  "rg_endpt (foldl (\<lambda>s b. mirror_registration aor b True ua s) st bs) = rg_endpt st"
  by (induction bs arbitrary: st) simp_all

lemma reject_bindings:
  "reject_if_too_brief K rq contacts e st = (r, st') \<Longrightarrow> rg_bindings st' = rg_bindings st"
  by (induction K rq contacts e st rule: reject_if_too_brief.induct) (auto simp: Let_def split: if_splits)

lemma reject_not_brief: "reject_if_too_brief K rq contacts e st = (False, st') \<Longrightarrow> st' = st"
  by (induction K rq contacts e st rule: reject_if_too_brief.induct) (auto simp: Let_def split: if_splits)

subsection \<open>Who may change which bindings\<close>

definition authorised :: "'u sip_stack \<Rightarrow> registrar \<Rightarrow> 'u register_request \<Rightarrow> bool" where
  "authorised K st rq \<longleftrightarrow> rq_to_is_sip rq \<and> is_local_domain (rg_users st) (rq_to_host rq) \<and>
     fst (verify K st rq (rq_to_host rq)) = AuthSuccess \<and> rq_auth_username rq = Some (rq_to_user rq)"

lemma apply_contacts_other:
  "apply_contacts store aor bs = (r, store') \<Longrightarrow> aor' \<noteq> aor \<Longrightarrow> store_abs store' aor' = store_abs store aor'"
  by (drule apply_contacts_refines) (auto simp: spec_apply_def split: if_splits dest: fun_cong [of _ _ aor'])

lemma register_contacts_store:
  "rg_bindings (register_contacts K rq aor e st) =
     (let now = rg_clock st (rg_ticks st) in
      case new_bindings K rq (rg_max_expires_s st) now e (rq_contacts rq) of
        None \<Rightarrow> rg_bindings st
      | Some bs \<Rightarrow>
          snd (apply_contacts (rg_bindings st) aor
            (snd (decide_mirrors (find_live (rg_bindings st) aor now) bs now))))"
  by (simp add: register_contacts_def read_clock_def case_prod_unfold Let_def split: option.split)

lemma register_contacts_other:
  assumes "aor' \<noteq> aor"
  shows "store_abs (rg_bindings (register_contacts K rq aor e st)) aor' = store_abs (rg_bindings st) aor'"
proof -
  have "store_abs (snd (apply_contacts (rg_bindings st) aor bs)) aor' = store_abs (rg_bindings st) aor'" for bs
    using apply_contacts_other [OF _ assms, of "rg_bindings st" bs] by (cases "apply_contacts (rg_bindings st) aor bs") simp
  then show ?thesis by (simp add: register_contacts_store Let_def split: option.split)
qed

lemma unregister_all_store [simp]:
  "rg_bindings (unregister_all K rq aor st) = remove_all (rg_bindings st) aor"
  by (simp add: unregister_all_def case_prod_unfold Let_def)

text \<open>The four things an authorised request can do to the bindings.\<close>

lemma process_registration_store:
  "rg_bindings (process_registration K rq realm to_user st) \<in>
     {rg_bindings st, remove_all (rg_bindings st) (make_aor to_user realm),
      rg_bindings (register_contacts K rq (make_aor to_user realm) (map_option sint (rq_expires rq)) st)}"
proof -
  obtain r st1 where rej: "reject_if_too_brief K rq (rq_contacts rq) (map_option sint (rq_expires rq)) st = (r, st1)"
    by (cases "reject_if_too_brief K rq (rq_contacts rq) (map_option sint (rq_expires rq)) st")
  have "st1 = st" if "\<not> r" using reject_not_brief [of K rq _ _ st st1] rej that by simp
  with reject_bindings [OF rej] rej show ?thesis
    by (cases r) (simp_all add: process_registration_def Let_def)
qed

lemma process_registration_other:
  assumes "aor' \<noteq> make_aor to_user realm"
  shows "store_abs (rg_bindings (process_registration K rq realm to_user st)) aor' = store_abs (rg_bindings st) aor'"
  using process_registration_store [of K rq realm to_user st]
    register_contacts_other [OF assms] assms
  by (auto simp: remove_all_refines)

lemma handle_register_authorised:
  "handle_register K rq st =
     (if authorised K st rq then process_registration K rq (rq_to_host rq) (rq_to_user rq) st
      else handle_register K rq st)"
  by (auto simp: handle_register_def authorised_def local_domain_def authenticated_username_def
      split: option.splits prod.splits auth_status.splits)

lemma handle_register_refused:
  "\<not> authorised K st rq \<Longrightarrow> rg_bindings (handle_register K rq st) = rg_bindings st"
  by (auto simp: handle_register_def authorised_def local_domain_def authenticated_username_def
      split: option.splits prod.splits auth_status.splits if_splits)


subsection \<open>Every request is answered once\<close>

text \<open>The SIP stack can build and address responses.\<close>

definition stack_ok :: "'u sip_stack \<Rightarrow> 'u register_request \<Rightarrow> bool" where
  "stack_ok K rq \<longleftrightarrow> response_addr_ok K rq \<and> (\<forall>code. create_response_ok K rq code) \<and> (\<forall>realm. auth_srv_init_ok K realm)"

definition answered :: "registrar \<Rightarrow> registrar \<Rightarrow> (int \<Rightarrow> bool) \<Rightarrow> bool" where
  "answered st st' P \<longleftrightarrow> (\<exists>r. rg_sent st' = rg_sent st @ [r] \<and> P (rp_status r))"

lemma answered_respond:
  "stack_ok K rq \<Longrightarrow> rg_endpt st \<Longrightarrow> answered st (respond K rq code st) (\<lambda>c. c = code)"
  by (simp add: answered_def respond_def send_reply_def stack_ok_def)

lemma answered_challenge:
  "stack_ok K rq \<Longrightarrow> rg_endpt st \<Longrightarrow> answered st (send_challenge K rq realm st) (\<lambda>c. c = 401)"
  by (simp add: answered_def send_challenge_def send_reply_def stack_ok_def)

lemma answered_ok:
  "stack_ok K rq \<Longrightarrow> rg_endpt st \<Longrightarrow> answered st (send_ok K rq aor st) (\<lambda>c. c = 200)"
  by (simp add: answered_def send_ok_def send_reply_def stack_ok_def case_prod_unfold Let_def)

lemma answered_too_brief:
  "stack_ok K rq \<Longrightarrow> reject_if_too_brief K rq contacts e st = (True, st') \<Longrightarrow> answered st st' (\<lambda>c. c = 423)"
  by (induction K rq contacts e st rule: reject_if_too_brief.induct)
    (auto simp: answered_def send_reply_def stack_ok_def Let_def split: if_splits)

lemma answered_mono: "answered st st' P \<Longrightarrow> (\<And>c. P c \<Longrightarrow> Q c) \<Longrightarrow> answered st st' Q"
  by (auto simp: answered_def)

lemma answered_from: "answered st1 st' P \<Longrightarrow> rg_sent st1 = rg_sent st \<Longrightarrow> answered st st' P"
  by (simp add: answered_def)

lemma answered_unregister:
  "stack_ok K rq \<Longrightarrow> rg_endpt st \<Longrightarrow> answered st (unregister_all K rq aor st) (\<lambda>c. c = 200)"
  unfolding unregister_all_def case_prod_unfold Let_def
  by (rule answered_from [OF answered_ok]) simp_all

lemma answered_register:
  assumes "stack_ok K rq" "rg_endpt st"
  shows "answered st (register_contacts K rq aor e st) (\<lambda>c. c = 200) \<or>
    answered st (register_contacts K rq aor e st) (\<lambda>c. c = 400) \<and>
    rg_bindings (register_contacts K rq aor e st) = rg_bindings st"
proof -
  let ?now = "rg_clock st (rg_ticks st)" and ?st1 = "snd (read_clock st)"
  show ?thesis
  proof (cases "new_bindings K rq (rg_max_expires_s st) ?now e (rq_contacts rq)")
    case None
    then have "register_contacts K rq aor e st = respond K rq 400 ?st1"
      by (simp add: register_contacts_def read_clock_def)
    with answered_from [OF answered_respond [of K rq ?st1 400], of st] assms show ?thesis by simp
  next
    case (Some bs)
    obtain ds bs' where dm: "decide_mirrors (find_live (rg_bindings st) aor ?now) bs ?now = (ds, bs')" by fastforce
    obtain result store where ap: "apply_contacts (rg_bindings st) aor bs' = (result, store)" by fastforce
    let ?st2 = "?st1\<lparr>rg_bindings := store\<rparr>"
    have eq: "register_contacts K rq aor e st =
        (if result = kCallIdCseqConflict then respond K rq 400 ?st2
         else send_ok K rq aor (mirror_all aor ds bs' (rq_user_agent rq) ?st2))"
      using Some dm ap by (simp add: register_contacts_def read_clock_def)
    show ?thesis
    proof (cases "result = kCallIdCseqConflict")
      case True
      then have "store = rg_bindings st" using ap by (auto simp: apply_contacts_def Let_def split: if_splits)
      with eq True answered_from [OF answered_respond [of K rq ?st2 400], of st] assms show ?thesis by simp
    next
      case False
      have "answered st (send_ok K rq aor (mirror_all aor ds bs' (rq_user_agent rq) ?st2)) (\<lambda>c. c = 200)"
        by (rule answered_from [OF answered_ok]) (simp_all add: assms)
      with eq False show ?thesis by simp
    qed
  qed
qed

lemma answered_process:
  assumes "stack_ok K rq" "rg_endpt st"
  shows "answered st (process_registration K rq realm to_user st) (\<lambda>c. c = 200) \<or>
    answered st (process_registration K rq realm to_user st) (\<lambda>c. c \<noteq> 200) \<and>
    rg_bindings (process_registration K rq realm to_user st) = rg_bindings st"
proof -
  obtain r st1 where rej: "reject_if_too_brief K rq (rq_contacts rq) (map_option sint (rq_expires rq)) st = (r, st1)"
    by fastforce
  have same: "st1 = st" if "\<not> r" using reject_not_brief [of K rq _ _ st st1] rej that by simp
  have brief: "answered st st1 (\<lambda>c. c \<noteq> 200)" if r
    using answered_mono [OF answered_too_brief [OF assms(1)]] rej that by auto
  have bad: "answered st (respond K rq 400 st) (\<lambda>c. c \<noteq> 200)"
    using answered_mono [OF answered_respond [OF assms, of 400]] by simp
  have reg: "answered st (register_contacts K rq aor e st) (\<lambda>c. c = 200) \<or>
      answered st (register_contacts K rq aor e st) (\<lambda>c. c \<noteq> 200) \<and>
      rg_bindings (register_contacts K rq aor e st) = rg_bindings st" for aor e
    using answered_register [OF assms, of aor e] answered_mono [of st _ "\<lambda>c. c = 400" "\<lambda>c. c \<noteq> 200"] by auto
  show ?thesis
    using answered_ok [OF assms] answered_unregister [OF assms] bad reg brief same reject_bindings [OF rej] rej
    by (cases r) (simp_all add: process_registration_def Let_def)
qed

lemma handle_register_answered:
  assumes "stack_ok K rq" "rg_endpt st"
  shows "\<exists>r. rg_sent (handle_register K rq st) = rg_sent st @ [r] \<and>
    (if rp_status r = 200 then authorised K st rq else rg_bindings (handle_register K rq st) = rg_bindings st)"
proof (cases "authorised K st rq")
  case True
  then have "handle_register K rq st = process_registration K rq (rq_to_host rq) (rq_to_user rq) st"
    by (subst handle_register_authorised) simp
  with True answered_process [OF assms, of "rq_to_host rq" "rq_to_user rq"] show ?thesis
    by (fastforce simp: answered_def)
next
  case False
  have "answered st (handle_register K rq st) (\<lambda>c. c \<noteq> 200)"
    using False answered_mono [OF answered_respond [OF assms]] answered_mono [OF answered_challenge [OF assms]]
    by (auto simp: handle_register_def authorised_def local_domain_def authenticated_username_def
        split: option.splits prod.splits auth_status.splits)
  with handle_register_refused [OF False] show ?thesis by (auto simp: answered_def)
qed

text \<open>When the SIP stack can build and address responses, every REGISTER request is answered exactly once.
  It is answered with 200 only if it was authorised, and a request answered with anything else has
  left every binding as it was.\<close>

theorem register_answered_once:
  assumes "stack_ok K rq" "rg_endpt st"
  shows "\<exists>r. rg_sent (handle_register K rq st) = rg_sent st @ [r] \<and>
    (if rp_status r = 200 then authorised K st rq else rg_bindings (handle_register K rq st) = rg_bindings st)"
  by (rule handle_register_answered [OF assms])

text \<open>A stack that always succeeds, and requests of the provisioned user alice.\<close>

definition sample_stack :: "string sip_stack" where
  "sample_stack = \<lparr>
     create_response_ok = (\<lambda>_ _. True), response_addr_ok = (\<lambda>_. True), auth_srv_init_ok = (\<lambda>_. True),
     auth_srv_verify = (\<lambda>lookup realm rq code.
        case rq_auth_username rq of
          None \<Rightarrow> (EAuthNoAuth, 401)
        | Some user \<Rightarrow> if lookup user realm = None then (EAuthAccNotFound, 403) else (AuthSuccess, code)),
     uri_print = Some, parse_uri_ok = (\<lambda>uri. uri \<noteq> [])\<rparr>"

definition sample_request :: "string option \<Rightarrow> 32 word \<Rightarrow> string register_request" where
  "sample_request user expires = \<lparr>
     rq_to_is_sip = True, rq_to_host = ''h'', rq_to_user = ''alice'', rq_auth_username = user, rq_expires = None,
     rq_contacts = [\<lparr>ch_star = False, ch_uri = ''sip:a'', ch_expires = expires\<rparr>],
     rq_call_id = ''c1'', rq_cseq = 1, rq_src_name = ''10.0.0.9'', rq_src_port = 5060, rq_user_agent = None\<rparr>"

definition sample_registrar :: registrar where
  "sample_registrar = \<lparr>
     rg_endpt = True, rg_sink = True,
     rg_users = [\<lparr>us_username = ''alice'', us_realm = ''h'', us_ha1 = ''x'', us_enabled = True\<rparr>],
     rg_bindings = [], rg_min_expires_s = 60, rg_max_expires_s = 3600, rg_clock = (\<lambda>n. int n), rg_ticks = 0,
     rg_sent = [], rg_mirrored = []\<rparr>"

lemma sample_ok: "stack_ok sample_stack rq" "rg_endpt sample_registrar"
  by (simp_all add: stack_ok_def sample_stack_def sample_registrar_def)

theorem register_answered_once_witness:
  "\<exists>r. rg_sent (handle_register sample_stack (sample_request (Some ''bob'') 600) sample_registrar) = [r] \<and>
     rp_status r \<noteq> 200 \<and>
     rg_bindings (handle_register sample_stack (sample_request (Some ''bob'') 600) sample_registrar) = []"
proof -
  have "\<not> authorised sample_stack sample_registrar (sample_request (Some ''bob'') 600)"
    by (simp add: authorised_def sample_request_def)
  moreover have "rg_sent sample_registrar = []" "rg_bindings sample_registrar = []"
    by (simp_all add: sample_registrar_def)
  ultimately show ?thesis
    using register_answered_once [OF sample_ok, of "sample_request (Some ''bob'') 600"] by (auto split: if_splits)
qed

subsection \<open>Granted lifetimes\<close>

lemma decide_mirrors_bindings:
  "decide_mirrors live bs now = (ds, bs') \<Longrightarrow> b' \<in> set bs' \<Longrightarrow> \<exists>b \<in> set bs. \<exists>m. b' = b\<lparr>bd_mirrored_at := m\<rparr>"
  by (induction bs arbitrary: ds bs') (fastforce simp: Let_def split: prod.splits)+

lemma should_mirror_new: "\<not> should_mirror previous b removed now \<Longrightarrow> \<exists>p. previous = Some p"
  by (cases previous) (simp_all add: should_mirror_def)

lemma new_bindings_mem:
  "new_bindings K rq m now e contacts = Some bs \<Longrightarrow> b \<in> set bs \<Longrightarrow> \<exists>c \<in> set contacts. b = new_binding K rq m now e c"
  by (induction contacts arbitrary: bs) (auto split: if_splits)

lemma not_too_brief:
  "reject_if_too_brief K rq contacts e st = (False, st') \<Longrightarrow> c \<in> set contacts \<Longrightarrow>
     raw_expires_for_contact c e (rg_max_expires_s st) = 0 \<or>
     rg_min_expires_s st \<le> raw_expires_for_contact c e (rg_max_expires_s st)"
  by (induction K rq contacts e st rule: reject_if_too_brief.induct) (auto simp: Let_def split: if_splits)

lemma foldl_put_contact_mem:
  "foldl put_contact m bs uri = Some b \<Longrightarrow> m uri = Some b \<or> (b \<in> set bs \<and> bd_refreshed_at b < bd_expires_at b)"
  by (induction bs arbitrary: m) (fastforce simp: put_contact_def split: if_splits)+

lemma apply_contacts_mem:
  assumes "store_abs (snd (apply_contacts store aor bs)) aor' uri = Some b"
  shows "store_abs store aor' uri = Some b \<or> (b \<in> set bs \<and> bd_refreshed_at b < bd_expires_at b)"
proof -
  have "store_abs (snd (apply_contacts store aor bs)) = snd (spec_apply (store_abs store) aor bs)"
    using apply_contacts_refines [of store aor bs] by (cases "apply_contacts store aor bs") simp
  with assms show ?thesis by (auto simp: spec_apply_def split: if_splits dest: foldl_put_contact_mem)
qed

definition granted_by :: "registrar \<Rightarrow> 'u register_request \<Rightarrow> binding \<Rightarrow> bool" where
  "granted_by st rq b \<longleftrightarrow>
     rg_min_expires_s st * kSecond \<le> bd_expires_at b - bd_refreshed_at b \<and>
     bd_expires_at b - bd_refreshed_at b \<le> rg_max_expires_s st * kSecond \<and>
     bd_source_address b = rq_src_name rq \<and> bd_source_port b = rq_src_port rq \<and>
     bd_call_id b = rq_call_id rq \<and> bd_cseq b = rq_cseq rq"

lemma register_contacts_granted:
  assumes brief: "reject_if_too_brief K rq (rq_contacts rq) e st = (False, st)"
    and limits: "rg_min_expires_s st \<le> rg_max_expires_s st"
    and new: "store_abs (rg_bindings (register_contacts K rq aor e st)) aor' uri = Some b"
  shows "store_abs (rg_bindings st) aor' uri = Some b \<or> granted_by st rq b"
proof -
  let ?now = "rg_clock st (rg_ticks st)"
  show ?thesis
  proof (cases "new_bindings K rq (rg_max_expires_s st) ?now e (rq_contacts rq)")
    case None
    with new show ?thesis by (simp add: register_contacts_store)
  next
    case (Some bs)
    obtain ds bs' where dm: "decide_mirrors (find_live (rg_bindings st) aor ?now) bs ?now = (ds, bs')" by fastforce
    from new Some dm have "store_abs (snd (apply_contacts (rg_bindings st) aor bs')) aor' uri = Some b"
      by (simp add: register_contacts_store)
    from apply_contacts_mem [OF this] show ?thesis
    proof
      assume b: "b \<in> set bs' \<and> bd_refreshed_at b < bd_expires_at b"
      with decide_mirrors_bindings [OF dm] new_bindings_mem [OF Some] obtain c m where
        c: "c \<in> set (rq_contacts rq)" "b = (new_binding K rq (rg_max_expires_s st) ?now e c)\<lparr>bd_mirrored_at := m\<rparr>"
        by metis
      with b not_too_brief [OF brief c(1)] limits show ?thesis
        by (auto simp: granted_by_def new_binding_def Let_def min_def split: if_splits)
    qed simp
  qed
qed

text \<open>C26: Whatever a REGISTER request asks for, a binding it creates or refreshes is granted a lifetime between
  the configured minimum and maximum and carries the address the request was observed to come from;
  every other binding is one that was there before.\<close>

theorem granted_lifetime_bounds:
  assumes "rg_min_expires_s st \<le> rg_max_expires_s st"
    and "store_abs (rg_bindings (handle_register K rq st)) aor uri = Some b"
  shows "store_abs (rg_bindings st) aor uri = Some b \<or> granted_by st rq b"
proof (cases "authorised K st rq")
  case False
  with assms(2) show ?thesis by (simp add: handle_register_refused)
next
  case True
  let ?e = "map_option sint (rq_expires rq)" and ?aor = "make_aor (rq_to_user rq) (rq_to_host rq)"
  have proc: "handle_register K rq st = process_registration K rq (rq_to_host rq) (rq_to_user rq) st"
    using True by (subst handle_register_authorised) simp
  obtain r st1 where rej: "reject_if_too_brief K rq (rq_contacts rq) ?e st = (r, st1)" by fastforce
  have same: "st1 = st" if "\<not> r" using reject_not_brief [of K rq _ _ st st1] rej that by simp
  have "rg_bindings (handle_register K rq st) \<in> {rg_bindings st, remove_all (rg_bindings st) ?aor} \<or>
      (\<not> r \<and> rg_bindings (handle_register K rq st) = rg_bindings (register_contacts K rq ?aor ?e st))"
    unfolding proc using rej same reject_bindings [OF rej]
    by (cases r) (simp_all add: process_registration_def Let_def)
  moreover have "store_abs (remove_all (rg_bindings st) ?aor) aor uri = Some b \<Longrightarrow> store_abs (rg_bindings st) aor uri = Some b"
    by (auto simp: remove_all_refines split: if_splits)
  ultimately show ?thesis
    using assms(2) register_contacts_granted [OF _ assms(1), of K rq ?e ?aor aor uri b] rej same by auto
qed

lemma sample_registered:
  "rg_bindings (handle_register sample_stack (sample_request (Some ''alice'') 7200) sample_registrar) =
     [(''alice@h'', [(''sip:a'', \<lparr>bd_contact_uri = ''sip:a'', bd_source_address = ''10.0.0.9'', bd_source_port = 5060,
        bd_transport = ''udp'', bd_call_id = ''c1'', bd_cseq = 1, bd_expires_at = 3600 * kSecond, bd_refreshed_at = 0,
        bd_mirrored_at = 0\<rparr>)])]"
  by code_simp

theorem granted_lifetime_bounds_witness:
  "case store_abs (rg_bindings (handle_register sample_stack (sample_request (Some ''alice'') 7200) sample_registrar))
       ''alice@h'' ''sip:a'' of
     None \<Rightarrow> False
   | Some b \<Rightarrow> bd_expires_at b - bd_refreshed_at b \<le> 3600 * kSecond"
  using granted_lifetime_bounds [of sample_registrar sample_stack "sample_request (Some ''alice'') 7200" "''alice@h''" "''sip:a''"]
  by (simp add: sample_registered store_abs_def granted_by_def)

text \<open>A request of an authorised user for a lifetime of two to the power thirty-one seconds or more, short of
  the reserved value, is refused as too brief and registers nothing, because the field is read as
  a signed number.\<close>

theorem huge_expires_refused:
  assumes "stack_ok K rq" "rg_endpt st" "authorised K st rq" "0 \<le> rg_min_expires_s st"
    and "rq_contacts rq = [c]" "\<not> ch_star c" "2 ^ 31 \<le> uint (ch_expires c)" "ch_expires c \<noteq> kExpiresNotSpecified"
  shows "answered st (handle_register K rq st) (\<lambda>code. code = 423) \<and>
    rg_bindings (handle_register K rq st) = rg_bindings st"
proof -
  have "uint (ch_expires c) div 2 ^ 31 = 1"
    using assms(7) uint_lt2p [of "ch_expires c"] by (intro int_div_pos_eq [of _ _ _ "uint (ch_expires c) - 2 ^ 31"]) simp_all
  then have "sint (ch_expires c) < 0"
    using assms(7) uint_lt2p [of "ch_expires c"] by (simp add: sint_uint signed_take_bit_eq_take_bit_minus take_bit_eq_mod bit_uint_iff bit_iff_odd)
  then have raw: "raw_expires_for_contact c e d < 0" for e d
    using assms(8) by (simp add: raw_expires_for_contact_def)
  obtain r st1 where rej: "reject_if_too_brief K rq [c] (map_option sint (rq_expires rq)) st = (r, st1)" by fastforce
  with raw [of "map_option sint (rq_expires rq)" "rg_max_expires_s st"] assms(4) have r
    by (auto simp: Let_def split: if_splits)
  with rej have "reject_if_too_brief K rq [c] (map_option sint (rq_expires rq)) st = (True, st1)" by simp
  from answered_too_brief [OF assms(1) this] reject_bindings [OF this] this show ?thesis
    by (subst handle_register_authorised, subst (2) handle_register_authorised)
      (simp add: assms(3,5,6) process_registration_def Let_def)
qed

theorem huge_expires_refused_witness:
  "rg_bindings (handle_register sample_stack (sample_request (Some ''alice'') 0x80000000) sample_registrar) = []"
proof -
  let ?rq = "sample_request (Some ''alice'') 0x80000000"
  have "authorised sample_stack sample_registrar ?rq"
    by (simp add: authorised_def sample_request_def sample_registrar_def sample_stack_def is_local_domain_def
        verify_def lookup_credential_def find_user_def)
  moreover have "0 \<le> rg_min_expires_s sample_registrar" "rg_bindings sample_registrar = []"
    by (simp_all add: sample_registrar_def)
  moreover have "rq_contacts ?rq = [\<lparr>ch_star = False, ch_uri = ''sip:a'', ch_expires = 0x80000000\<rparr>]"
    by (simp add: sample_request_def)
  ultimately show ?thesis
    using huge_expires_refused [OF sample_ok, of ?rq] by (simp add: kExpiresNotSpecified_def)
qed

subsection \<open>Where a binding comes from\<close>

text \<open>The registrar never changes the users it was given.\<close>

lemma users_simps [simp]:
  "rg_users (snd (read_clock st)) = rg_users st" "rg_users (send_reply K rq r st) = rg_users st"
  "rg_users (mirror_registration aor b rm ua st) = rg_users st"
  by (simp_all add: read_clock_def send_reply_def mirror_registration_def case_prod_unfold Let_def)

lemma users_replies [simp]:
  "rg_users (respond K rq code st) = rg_users st" "rg_users (send_challenge K rq realm st) = rg_users st"
  "rg_users (send_ok K rq aor st) = rg_users st"
  by (simp_all add: respond_def send_challenge_def send_ok_def case_prod_unfold Let_def)

lemma users_mirror_all [simp]: "rg_users (mirror_all aor ds bs ua st) = rg_users st"
  by (induction aor ds bs ua st rule: mirror_all.induct) simp_all

lemma users_mirrors [simp]: "rg_users (foldl (\<lambda>s b. mirror_registration aor b True ua s) st bs) = rg_users st"
  by (induction bs arbitrary: st) simp_all

lemma users_brief: "reject_if_too_brief K rq contacts e st = (r, st') \<Longrightarrow> rg_users st' = rg_users st"
  by (induction K rq contacts e st rule: reject_if_too_brief.induct) (auto simp: Let_def split: if_splits)

lemma handle_register_users [simp]: "rg_users (handle_register K rq st) = rg_users st"
proof -
  have "rg_users (register_contacts K rq aor e st) = rg_users st" for aor e st
    by (simp add: register_contacts_def case_prod_unfold Let_def split: option.split)
  moreover have "rg_users (unregister_all K rq aor st) = rg_users st" for aor
    by (simp add: unregister_all_def case_prod_unfold Let_def)
  ultimately have "rg_users (process_registration K rq realm user st) = rg_users st" for realm user
    by (auto simp: process_registration_def Let_def dest: users_brief split: prod.split bool.split)
  then show ?thesis by (simp add: handle_register_def split: option.split prod.split auth_status.split)
qed

lemma authorised_users: "rg_users st = rg_users st' \<Longrightarrow> authorised K st rq = authorised K st' rq"
  by (simp add: authorised_def verify_def)

lemma wf_handle_register:
  assumes "wf_store (rg_bindings st)"
  shows "wf_store (rg_bindings (handle_register K rq st))"
proof (cases "authorised K st rq")
  case True
  have "wf_store (rg_bindings (register_contacts K rq aor e st))" for aor e
    using assms wf_apply_contacts by (simp add: register_contacts_store Let_def split: option.split)
  with process_registration_store [of K rq "rq_to_host rq" "rq_to_user rq" st] wf_remove_all [OF assms] assms
  have "wf_store (rg_bindings (process_registration K rq (rq_to_host rq) (rq_to_user rq) st))" by auto
  then show ?thesis using True by (subst handle_register_authorised) simp
qed (simp add: handle_register_refused assms)

lemma register_contacts_source:
  assumes "store_abs (rg_bindings (register_contacts K rq aor e st)) aor' uri = Some b"
  shows "store_abs (rg_bindings st) aor' uri = Some b \<or> bd_source_address b = rq_src_name rq \<and> bd_source_port b = rq_src_port rq"
proof (cases "new_bindings K rq (rg_max_expires_s st) (rg_clock st (rg_ticks st)) e (rq_contacts rq)")
  case None
  with assms show ?thesis by (simp add: register_contacts_store)
next
  case (Some bs)
  let ?now = "rg_clock st (rg_ticks st)"
  obtain ds bs' where dm: "decide_mirrors (find_live (rg_bindings st) aor ?now) bs ?now = (ds, bs')" by fastforce
  from assms Some dm have "store_abs (snd (apply_contacts (rg_bindings st) aor bs')) aor' uri = Some b"
    by (simp add: register_contacts_store)
  from apply_contacts_mem [OF this] decide_mirrors_bindings [OF dm] new_bindings_mem [OF Some] show ?thesis
    by (fastforce simp: new_binding_def Let_def)
qed

text \<open>A binding that a request made was asked for by the authorised user of its address and holds the address the request came from.\<close>

lemma registered_source:
  assumes "store_abs (rg_bindings (handle_register K rq st)) aor uri = Some b"
  shows "store_abs (rg_bindings st) aor uri = Some b \<or> authorised K st rq \<and> aor = make_aor (rq_to_user rq) (rq_to_host rq) \<and>
    bd_source_address b = rq_src_name rq \<and> bd_source_port b = rq_src_port rq"
proof (cases "authorised K st rq")
  case True
  let ?aor = "make_aor (rq_to_user rq) (rq_to_host rq)"
  have p: "handle_register K rq st = process_registration K rq (rq_to_host rq) (rq_to_user rq) st"
    using True by (subst handle_register_authorised) simp
  show ?thesis
  proof (cases "aor = ?aor")
    case aor: True
    have "store_abs (remove_all (rg_bindings st) ?aor) aor uri = None" using aor by (simp add: remove_all_refines)
    with assms aor True process_registration_store [of K rq "rq_to_host rq" "rq_to_user rq" st] register_contacts_source show ?thesis
      unfolding p by fastforce
  next
    case False
    with assms process_registration_other [OF False, of K rq st] show ?thesis unfolding p by simp
  qed
qed (use assms in \<open>simp add: handle_register_refused\<close>)

end
