(* ===== verification/Message_Router.thy ===== *)
theory Message_Router
  imports Request_Actions Registrar
begin

text \<open>
  The message router, \<^verbatim>\<open>engine/src/sip/router/message_router.cpp\<close>, with the responder to OPTIONS,
  \<^verbatim>\<open>sip/sm/options_actions.cpp\<close>, the sweep timer of the registrar and the callbacks by which
  \<^verbatim>\<open>sip/stack/pjsip_init.cpp\<close> reaches the router. It brings every request and callback of the SIP stack to the call it
  belongs to, and runs the scans of the table.
\<close>

subsection \<open>State\<close>

text \<open>What the responder to OPTIONS uses of the endpoint.\<close>

record 'p pjsip_endpt =
  ep_present :: bool
  ep_create_response :: "rx_data \<Rightarrow> 'p \<Rightarrow> bool \<times> 'p"
  ep_capability :: "string \<Rightarrow> string option"
  ep_response_addr :: "rx_data \<Rightarrow> 'p \<Rightarrow> bool"
  ep_send_response :: "rx_data \<Rightarrow> string list \<Rightarrow> 'p \<Rightarrow> 'p"

record ('p, 'u) sip_library =
  sl_xfer :: "'p pjsip_xfer"
  sl_ua :: "'p pjsip_ua"
  sl_endpt :: "'p pjsip_endpt"
  sl_stack :: "'u sip_stack"

record 'p message_router =
  mr_admission :: "'p admission"
  mr_options_sm :: "options_state runner"
  mr_options_rdata :: "rx_data option"
  mr_registrar :: registrar
  mr_binding_sweep_timer :: "scan_timer option"

abbreviation router_manager :: "'p message_router \<Rightarrow> 'p call_manager" where
  "router_manager R \<equiv> ad_manager (mr_admission R)"

definition set_manager :: "'p call_manager \<Rightarrow> 'p message_router \<Rightarrow> 'p message_router" where
  "set_manager M R = R\<lparr>mr_admission := (mr_admission R)\<lparr>ad_manager := M\<rparr>\<rparr>"

text \<open>The registrar and the calls share the stores of users and bindings.\<close>

definition shared_stores :: "'p message_router \<Rightarrow> ('p, 'st) engine_env \<Rightarrow> ('p, 'st) engine_env" where
  "shared_stores R E = E\<lparr>en_stores := (en_stores E)
     \<lparr>ro_users := Some (rg_users (mr_registrar R)), ro_bindings := Some (rg_bindings (mr_registrar R))\<rparr>\<rparr>"

subsection \<open>OPTIONS\<close>

definition kCapabilityHeaders :: "string list" where
  "kCapabilityHeaders = [''Allow'', ''Accept'', ''Supported'']"

definition capability_headers :: "'p pjsip_endpt \<Rightarrow> string list" where
  "capability_headers P = concat (map (\<lambda>h. case ep_capability P h of None \<Rightarrow> [] | Some cap \<Rightarrow> [cap]) kCapabilityHeaders)"

definition do_send_options_response :: "'p pjsip_endpt \<Rightarrow> 'p message_router \<Rightarrow> 'p message_router" where
  "do_send_options_response P R =
     (case mr_options_rdata R of
        None \<Rightarrow> R
      | Some rdata \<Rightarrow>
          if \<not> ep_present P then R
          else (case ask_stack (ep_create_response P rdata) (mr_admission R) of
            (False, A) \<Rightarrow> R\<lparr>mr_admission := A\<rparr>
          | (True, A) \<Rightarrow>
              if \<not> ep_response_addr P rdata (ad_pj A) then R\<lparr>mr_admission := A\<rparr>
              else R\<lparr>mr_admission := (on_stack (ep_send_response P rdata (capability_headers P)) A)
                \<lparr>ad_sent := ad_sent A @ [OptionsResponse rdata (capability_headers P)]\<rparr>\<rparr>))"

definition options_actions_of :: "'p pjsip_endpt \<Rightarrow> 'p message_router options_actions" where
  "options_actions_of P = \<lparr>send_options_response = do_send_options_response P, op_cleanup = (\<lambda>R. R\<lparr>mr_options_rdata := None\<rparr>)\<rparr>"

definition process_options :: "'p pjsip_endpt \<Rightarrow> rx_data \<Rightarrow> 'p message_router \<Rightarrow> 'p message_router option" where
  "process_options P rdata R =
     (let R = R\<lparr>mr_options_rdata := Some rdata, mr_options_sm := reset (mr_options_sm R)\<rparr> in do {
      (r, R', _) \<leftarrow> process_event (options_table (options_actions_of P)) (mr_options_sm R) R MessageReceived;
      Some (R'\<lparr>mr_options_sm := r\<rparr>) })"

subsection \<open>Requests\<close>

definition process_register :: "'u sip_stack \<Rightarrow> 'u register_request \<Rightarrow> 'p message_router \<Rightarrow> 'p message_router" where
  "process_register K rq R = R\<lparr>mr_registrar := handle_register K rq (mr_registrar R)\<rparr>"

definition process_invite ::
  "('p, 'u) sip_library \<Rightarrow> ('p, 'st) engine_env \<Rightarrow> 'r sip_request \<Rightarrow> 'p message_router \<Rightarrow> 'p message_router option" where
  "process_invite L E rq R =
     (case create_call E (sl_ua L) rq (mr_admission R) of
        (None, A) \<Rightarrow> Some (R\<lparr>mr_admission := A\<rparr>)
      | (Some call_id, A) \<Rightarrow> do {
          M \<leftarrow> on_session (Live call_id) (start_setup (shared_stores R E)) (ad_manager A);
          Some (set_manager M (R\<lparr>mr_admission := A\<rparr>)) })"

text \<open>The result tells the stack whether the module claims the request.\<close>

definition on_rx_request ::
  "('p, 'u) sip_library \<Rightarrow> ('p, 'st) engine_env \<Rightarrow> 'u register_request sip_request \<Rightarrow> 'p message_router \<Rightarrow>
     (bool \<times> 'p message_router) option" where
  "on_rx_request L E rq R =
     (let rdata = sr_rdata rq; meth = rx_method rdata; U = sl_ua L;
          answer = (\<lambda>f. Some (True, R\<lparr>mr_admission := f (mr_admission R)\<rparr>)) in
      if meth = ''ACK'' then answer (handle_unmatched_ack rdata)
      else if meth = ''CANCEL'' then answer (handle_unmatched_dialog_request U rdata)
      else if sr_replaces rq \<noteq> None \<and> (meth \<noteq> ''INVITE'' \<or> sr_dialog rq \<noteq> None) then answer (reject_bad_request U rdata)
      else if sr_dialog rq \<noteq> None then Some (meth = ''REFER'', R)
      else if meth = ''INVITE'' then map_option (Pair True) (process_invite L E rq R)
      else if meth = ''OPTIONS'' then map_option (Pair True) (process_options (sl_endpt L) rdata R)
      else if meth = ''REGISTER'' then Some (True, process_register (sl_stack L) (sr_register rq) R)
      else if meth = ''BYE'' then answer (handle_unmatched_dialog_request U rdata)
      else if meth = ''REFER'' then answer (reject_out_of_dialog_refer U rdata)
      else answer (reject_unsupported_method U rdata))"

subsection \<open>Callbacks\<close>

text \<open>A callback for an invite session or a dialog runs on the call that claimed it.\<close>

definition on_rx_refer ::
  "('p, 'u) sip_library \<Rightarrow> ('p, 'st) engine_env \<Rightarrow> refer_request \<Rightarrow> 'p message_router \<Rightarrow> 'p message_router option" where
  "on_rx_refer L E rq R =
     (let M = router_manager R; X = sl_xfer L in
      case find_by_dialog (rfq_dialog rq) M of
        None \<Rightarrow> Some (set_manager (M\<lparr>mg_pj := px_dlg_respond X (rfq_dialog rq) 481 (mg_pj M)\<rparr>) R)
      | Some ref \<Rightarrow> map_option (\<lambda>M. set_manager M R)
          (on_session ref (call_on_rx_refer X (dialog_session M) (shared_stores R E) rq) M))"

definition on_inv_state_changed ::
  "('p, 'u) sip_library \<Rightarrow> ('p, 'st) engine_env \<Rightarrow> inv \<Rightarrow> rx_data option \<Rightarrow> 'p message_router \<Rightarrow> 'p message_router option" where
  "on_inv_state_changed L E i rdata R =
     (let M = router_manager R in
      case find_by_inv i M of
        None \<Rightarrow> Some R
      | Some ref \<Rightarrow> map_option (\<lambda>M. set_manager M R)
          (on_session ref (call_on_inv_state_changed (sl_xfer L) (dialog_session M) (shared_stores R E) i rdata) M))"

definition on_rx_reinvite ::
  "('p, 'u) sip_library \<Rightarrow> ('p, 'st) engine_env \<Rightarrow> inv \<Rightarrow> sdp_session option \<Rightarrow> rx_data \<Rightarrow> 'p message_router \<Rightarrow>
     (bool \<times> 'p message_router) option" where
  "on_rx_reinvite L E i offer rdata R =
     (let M = router_manager R in
      case find_by_inv i M of
        None \<Rightarrow> Some (True, set_manager
          (M\<lparr>mg_pj := snd (answer_request (en_pjsip E) (Some i) (Some rdata) 481 None (mg_pj M))\<rparr>) R)
      | Some ref \<Rightarrow> map_option (\<lambda>(success, M). (success, set_manager M R))
          (with_session ref (call_on_rx_reinvite (sl_xfer L) (dialog_session M) (shared_stores R E) i offer rdata) True M))"

definition on_rx_offer ::
  "('p, 'u) sip_library \<Rightarrow> ('p, 'st) engine_env \<Rightarrow> inv \<Rightarrow> sdp_session option \<Rightarrow> rx_data \<Rightarrow> 'p message_router \<Rightarrow>
     'p message_router option" where
  "on_rx_offer L E i offer rdata R =
     (let M = router_manager R in
      if rx_method rdata \<noteq> ''UPDATE'' then Some R
      else case find_by_inv i M of
        None \<Rightarrow> Some R
      | Some ref \<Rightarrow> map_option (\<lambda>M. set_manager M R)
          (on_session ref (call_on_rx_offer (sl_xfer L) (dialog_session M) (shared_stores R E) i offer) M))"

definition router_on_create_offer :: "('p, 'st) engine_env \<Rightarrow> inv \<Rightarrow> 'p message_router \<Rightarrow> sdp_session option" where
  "router_on_create_offer E i R =
     (case find_by_inv i (router_manager R) of
        None \<Rightarrow> None
      | Some ref \<Rightarrow> (case session_at ref (router_manager R) of
          None \<Rightarrow> None
        | Some c \<Rightarrow> call_on_create_offer (shared_stores R E) i (c\<lparr>cs_pj := mg_pj (router_manager R)\<rparr>)))"

definition on_inv_media_update ::
  "('p, 'u) sip_library \<Rightarrow> ('p, 'st) engine_env \<Rightarrow> inv \<Rightarrow> bool \<Rightarrow> 'p message_router \<Rightarrow> 'p message_router option" where
  "on_inv_media_update L E i success R =
     (let M = router_manager R in
      case find_by_inv i M of
        None \<Rightarrow> Some R
      | Some ref \<Rightarrow> map_option (\<lambda>M. set_manager M R)
          (on_session ref (call_on_media_update (sl_xfer L) (dialog_session M) (shared_stores R E) i success) M))"

subsection \<open>Scans\<close>

definition start_binding_sweep_timer :: "int \<Rightarrow> 'p message_router \<Rightarrow> 'p message_router" where
  "start_binding_sweep_timer interval R = R\<lparr>mr_binding_sweep_timer := Some (timer_start (new_timer interval))\<rparr>"

definition stop_binding_sweep_timer :: "'p message_router \<Rightarrow> 'p message_router" where
  "stop_binding_sweep_timer R = R\<lparr>mr_binding_sweep_timer := None\<rparr>"

definition process_pending_binding_sweep :: "'p message_router \<Rightarrow> 'p message_router" where
  "process_pending_binding_sweep R =
     (case mr_binding_sweep_timer R of
        None \<Rightarrow> R
      | Some t \<Rightarrow>
          let (pending, t') = run_pending_scan t; R = R\<lparr>mr_binding_sweep_timer := Some t'\<rparr> in
          if pending then
            let (now, st) = read_clock (mr_registrar R) in
            R\<lparr>mr_registrar := st\<lparr>rg_bindings := sweep (rg_bindings st) now\<rparr>\<rparr>
          else R)"

definition process_pending_media_events ::
  "('p, 'u) sip_library \<Rightarrow> ('p, 'st) engine_env \<Rightarrow> 'p message_router \<Rightarrow> 'p message_router option" where
  "process_pending_media_events L E R =
     (let X = sl_xfer L; E = shared_stores R E in do {
      M1 \<leftarrow> process_pending_rtp_inactivity X E (router_manager R);
      M2 \<leftarrow> (if cf_max_hold_duration_s (en_config E) > 0 then process_pending_hold_timeouts X E M1 else Some M1);
      M3 \<leftarrow> process_pending_replacements X E M2;
      Some (process_pending_binding_sweep (set_manager (purge_scheduled X M3) R)) })"

subsection \<open>The engine over time\<close>

text \<open>Everything that reaches the router: requests and callbacks of the stack, callbacks of a transfer for the call that started it, the
  expiry of the two timers, the turns of the main loop, and the shutdown.\<close>

datatype 'u router_input =
    RequestIn "'u register_request sip_request"
  | ReferIn refer_request
  | InvStateIn inv "rx_data option"
  | ReinviteIn inv "sdp_session option" rx_data
  | OfferIn inv "sdp_session option" rx_data
  | MediaUpdateIn inv bool
  | TransferIn session_ref refer_callback
  | InactivityTimerIn bool bool
  | SweepTimerIn bool bool
  | MainLoopTurn
  | ShutdownIn

fun router_step ::
  "('p, 'u) sip_library \<Rightarrow> ('p, 'st) engine_env \<Rightarrow> 'u router_input \<Rightarrow> 'p message_router \<Rightarrow> 'p message_router option" where
  "router_step L E (RequestIn rq) R = map_option snd (on_rx_request L E rq R)"
| "router_step L E (ReferIn rq) R = on_rx_refer L E rq R"
| "router_step L E (InvStateIn i rdata) R = on_inv_state_changed L E i rdata R"
| "router_step L E (ReinviteIn i offer rdata) R = map_option snd (on_rx_reinvite L E i offer rdata R)"
| "router_step L E (OfferIn i offer rdata) R = on_rx_offer L E i offer rdata R"
| "router_step L E (MediaUpdateIn i success) R = on_inv_media_update L E i success R"
| "router_step L E (TransferIn ref k) R = map_option (\<lambda>M. set_manager M R)
     (on_session ref (call_input_step (sl_xfer L) (dialog_session (router_manager R)) (shared_stores R E) (TransferCallback k)) (router_manager R))"
| "router_step L E (InactivityTimerIn aborted error) R = Some (set_manager ((router_manager R)
     \<lparr>mg_rtp_inactivity_timer := map_option (timer_expired aborted error) (mg_rtp_inactivity_timer (router_manager R))\<rparr>) R)"
| "router_step L E (SweepTimerIn aborted error) R =
     Some (R\<lparr>mr_binding_sweep_timer := map_option (timer_expired aborted error) (mr_binding_sweep_timer R)\<rparr>)"
| "router_step L E MainLoopTurn R = process_pending_media_events L E R"
| "router_step L E ShutdownIn R = map_option (\<lambda>M. set_manager M R)
     (terminate_established_calls (sl_xfer L) (shared_stores R E) (router_manager R))"

text \<open>Between the inputs the stack moves on by itself.\<close>

fun router_run :: "(('p, 'u) sip_library \<times> ('p, 'st) engine_env \<times> 'p \<times> 'u router_input) list \<Rightarrow> 'p message_router \<Rightarrow> 'p message_router option" where
  "router_run [] R = Some R"
| "router_run ((L, E, p, k) # ins) R = do {
     R' \<leftarrow> router_step L E k (set_manager ((router_manager R)\<lparr>mg_pj := p\<rparr>) R);
     router_run ins R' }"

subsection \<open>Every input keeps the table in order\<close>

abbreviation router_ok :: "bool \<Rightarrow> 'p message_router \<Rightarrow> bool" where
  "router_ok sink R \<equiv> table_ok sink (router_manager R)"

lemma set_manager_simps [simp]:
  "router_manager (set_manager M R) = M" "mr_registrar (set_manager M R) = mr_registrar R" "set_manager M (set_manager M' R) = set_manager M R"
  by (simp_all add: set_manager_def)

lemma shared_sink [simp]: "en_has_event_sink (shared_stores R E) = en_has_event_sink E" "en_config (shared_stores R E) = en_config E"
  by (simp_all add: shared_stores_def)

lemma table_same: "same_table A A' \<Longrightarrow> table_ok sink (ad_manager A') = table_ok sink (ad_manager A)"
  by (simp add: same_table_def table_ok_def)

lemma session_step:
  assumes "router_ok (en_has_event_sink E) R"
  shows "\<exists>R'. map_option (\<lambda>M. set_manager M R) (on_session ref (call_input_step X find_call (shared_stores R E) k) (router_manager R)) = Some R' \<and>
    router_ok (en_has_event_sink E) R'"
proof -
  obtain M' where "on_session ref (call_input_step X find_call (shared_stores R E) k) (router_manager R) = Some M'" "table_ok (en_has_event_sink E) M'"
    using input_session_ok [of "shared_stores R E" "router_manager R" ref X find_call k] assms by auto
  then show ?thesis by simp
qed

lemma callback_inputs:
  "call_input_step X find_call E (ReferArrived rq) = call_on_rx_refer X find_call E rq"
  "call_input_step X find_call E (LegStateChanged i rdata) = call_on_inv_state_changed X find_call E i rdata"
  "call_input_step X find_call E (UpdateArrived i offer) = call_on_rx_offer X find_call E i offer"
  "call_input_step X find_call E (MediaUpdated i success) = call_on_media_update X find_call E i success"
  by (simp_all add: fun_eq_iff)

lemma options_ok:
  obtains R' where "process_options P rdata R = Some R'" "same_table (mr_admission R) (mr_admission R')"
proof -
  let ?R = "R\<lparr>mr_options_rdata := Some rdata, mr_options_sm := reset (mr_options_sm R)\<rparr>"
  have same: "same_table (mr_admission R1) (mr_admission (do_send_options_response P R1))" for R1
    by (auto simp: do_send_options_response_def same_table_def dest!: ask_same split: option.split prod.split bool.split)
  have "\<exists>s' R' h. sml_process_event (options_table (options_actions_of P)) s ?R MessageReceived = Some (s', R', h) \<and>
      same_table (mr_admission R) (mr_admission R')" for s
    using same [of ?R] by (cases s) (auto simp: sml_process_event_def table_simps options_actions_of_def same_table_def)
  then obtain s' R' h where R': "sml_process_event (options_table (options_actions_of P)) (rn_state (reset (mr_options_sm R))) ?R MessageReceived =
      Some (s', R', h)" "same_table (mr_admission R) (mr_admission R')" by blast
  let ?r = "(reset (mr_options_sm R))\<lparr>rn_state := s', rn_processing := False\<rparr>"
  have "process_options P rdata R = Some (R'\<lparr>mr_options_sm := ?r\<rparr>)" using R'(1) by (simp add: process_options_def process_event_def Let_def)
  then show thesis using that R'(2) by simp
qed

lemma invite_ok:
  assumes "router_ok (en_has_event_sink E) R"
  shows "\<exists>R'. process_invite L E rq R = Some R' \<and> router_ok (en_has_event_sink E) R'"
proof -
  obtain r A where r: "create_call E (sl_ua L) rq (mr_admission R) = (r, A)" by fastforce
  note outcome = create_call_outcome [OF r]
  show ?thesis
  proof (cases r)
    case None
    with outcome assms r show ?thesis by (auto simp: process_invite_def table_same)
  next
    case (Some call_id)
    let ?E = "shared_stores R E" and ?sink = "en_has_event_sink E"
    from outcome Some obtain t i where id: "call_id = rx_call_id (sr_rdata rq)" "find_by_call_id call_id (router_manager R) = None"
      and A: "mg_retired (ad_manager A) = mg_retired (router_manager R)"
        "mg_sessions (ad_manager A) = mg_sessions (router_manager R) @ [(call_id, admitted_call E (sr_rdata rq) t i (ad_pj A))]" by auto
    let ?c = "admitted_call E (sr_rdata rq) t i (ad_pj A)"
    have at: "find_by_call_id call_id (ad_manager A) = Some ?c" using id(2) A(2) by (simp add: find_by_call_id_def map_add_def)
    have except: "table_except ?sink call_id (ad_manager A)"
      using assms id(2) A by (auto simp: table_except_def table_ok_def find_by_call_id_def map_of_eq_None_iff)
    define l where "l = cs_caller ?c"
    have c: "?c = (new_call call_id (sr_rdata rq) (en_now E) (ad_pj A))\<lparr>cs_replacement_target := t, cs_caller := l\<rparr>"
      unfolding l_def by (simp add: admitted_call_def set_inv_def update_leg_def id(1))
    have l: "\<not> lg_disconnected l" by (simp add: l_def admitted_call_def set_inv_def update_leg_def)
    have ops: "cs_manager_ops ?c = []" "?c\<lparr>cs_pj := ad_pj A\<rparr> = ?c" by (simp_all add: c new_call_def)
    obtain c' where c': "start_setup ?E ?c = Some c'" "call_rests (?sink, call_id, []) c'"
      unfolding c by (rule start_setup_call_rests [OF l, where E = ?E]) auto
    have "on_session (Live call_id) (start_setup ?E) (ad_manager A) = Some (settle (Live call_id) (length (cs_manager_ops ?c)) c' (ad_manager A))"
      using at ops(2) c'(1) by (simp add: on_session_def with_session_def)
    moreover have "table_ok ?sink (settle (Live call_id) (length (cs_manager_ops ?c)) c' (ad_manager A))"
      using settle_live [OF except at _ , of c'] ops(1) c'(2) by (simp add: removed_def)
    ultimately show ?thesis using r Some by (simp add: process_invite_def)
  qed
qed

lemma request_ok:
  assumes ok: "router_ok (en_has_event_sink E) R"
  shows "\<exists>h R'. on_rx_request L E rq R = Some (h, R') \<and> router_ok (en_has_event_sink E) R'"
proof -
  have same: "table_ok sink (ad_manager (respond_stateless U rdata code A)) = table_ok sink (ad_manager A)" for sink U rdata code and A :: "'a admission"
    by (simp add: table_ok_def)
  obtain R' where "process_options (sl_endpt L) (sr_rdata rq) R = Some R'" "router_ok (en_has_event_sink E) R'"
    by (rule options_ok [of "sl_endpt L" "sr_rdata rq" R]) (use ok table_same in blast)
  with invite_ok [OF ok, of L rq] ok show ?thesis
    by (auto simp: on_rx_request_def handle_unmatched_ack_def handle_unmatched_dialog_request_def reject_bad_request_def
        reject_unsupported_method_def reject_out_of_dialog_refer_def process_register_def same Let_def)
qed

lemma reinvite_ok:
  assumes ok: "router_ok (en_has_event_sink E) R"
  shows "\<exists>h R'. on_rx_reinvite L E i offer rdata R = Some (h, R') \<and> router_ok (en_has_event_sink E) R'"
proof (cases "find_by_inv i (router_manager R)")
  case None
  with ok show ?thesis by (auto simp: on_rx_reinvite_def Let_def)
next
  case (Some ref)
  let ?f = "call_on_rx_reinvite (sl_xfer L) (dialog_session (router_manager R)) (shared_stores R E) i offer rdata"
  have "\<exists>r c'. ?f c = Some (r, c') \<and> call_rests (en_has_event_sink E, cs_call_id c, cs_manager_ops c) c'"
    if c: "call_rests (en_has_event_sink E, cs_call_id c, cs_manager_ops c) c" for c
  proof -
    obtain c' where "call_input_step (sl_xfer L) (dialog_session (router_manager R)) (shared_stores R E) (ReinviteArrived i offer rdata) c = Some c'"
        "call_rests (en_has_event_sink E, cs_call_id c, cs_manager_ops c) c'"
      using input_rests [OF c, of "shared_stores R E" "sl_xfer L" "dialog_session (router_manager R)" "ReinviteArrived i offer rdata"]
      by (metis fst_conv shared_sink(1))
    then show ?thesis by auto
  qed
  then obtain r M' where "with_session ref ?f True (router_manager R) = Some (r, M')" "table_ok (en_has_event_sink E) M'"
    by (rule with_session_ok [OF ok])
  with Some show ?thesis by (auto simp: on_rx_reinvite_def Let_def)
qed

lemma main_loop_ok:
  assumes ok: "router_ok (en_has_event_sink E) R"
  shows "\<exists>R'. process_pending_media_events L E R = Some R' \<and> router_ok (en_has_event_sink E) R'"
proof -
  let ?E = "shared_stores R E" and ?X = "sl_xfer L"
  obtain M1 where 1: "process_pending_rtp_inactivity ?X ?E (router_manager R) = Some M1" "table_ok (en_has_event_sink E) M1"
    using scans_ok(1) [of ?E "router_manager R" ?X] ok by auto
  obtain M2 where 2: "(if cf_max_hold_duration_s (en_config E) > 0 then process_pending_hold_timeouts ?X ?E M1 else Some M1) = Some M2"
      "table_ok (en_has_event_sink E) M2"
    using scans_ok(2) [of ?E M1 ?X] 1(2) by (cases "cf_max_hold_duration_s (en_config E) > 0") auto
  obtain M3 where 3: "process_pending_replacements ?X ?E M2 = Some M3" "table_ok (en_has_event_sink E) M3"
    using replacements_ok [of ?E M2 ?X] 2(2) by auto
  have "router_manager (process_pending_binding_sweep R1) = router_manager R1" for R1 :: "'a message_router"
    by (simp add: process_pending_binding_sweep_def Let_def split: option.split prod.split)
  with 1(1) 2(1) 3 purge_ok [OF 3(2)] show ?thesis by (simp add: process_pending_media_events_def Let_def)
qed

lemma router_step_ok:
  assumes ok: "router_ok (en_has_event_sink E) R"
  shows "\<exists>R'. router_step L E k R = Some R' \<and> router_ok (en_has_event_sink E) R'"
proof (cases k)
  case (RequestIn rq)
  with request_ok [OF ok, of L rq] show ?thesis by auto
next
  case (ReinviteIn i offer rdata)
  with reinvite_ok [OF ok, of L i offer rdata] show ?thesis by auto
next
  case MainLoopTurn
  with main_loop_ok [OF ok] show ?thesis by simp
next
  case ShutdownIn
  with scans_ok(3) [of "shared_stores R E" "router_manager R" "sl_xfer L"] ok show ?thesis by auto
next
  case (ReferIn rq)
  with ok session_step [OF ok, where k = "ReferArrived rq"] show ?thesis
    by (simp add: on_rx_refer_def callback_inputs Let_def del: map_option_eq_Some split: option.split)
next
  case (InvStateIn i rdata)
  with ok session_step [OF ok, where k = "LegStateChanged i rdata"] show ?thesis
    by (simp add: on_inv_state_changed_def callback_inputs Let_def del: map_option_eq_Some split: option.split)
next
  case (OfferIn i offer rdata)
  with ok session_step [OF ok, where k = "UpdateArrived i offer"] show ?thesis
    by (simp add: on_rx_offer_def callback_inputs Let_def del: map_option_eq_Some split: option.split)
next
  case (MediaUpdateIn i success)
  with ok session_step [OF ok, where k = "MediaUpdated i success"] show ?thesis
    by (simp add: on_inv_media_update_def callback_inputs Let_def del: map_option_eq_Some split: option.split)
next
  case (TransferIn ref k')
  with ok session_step [OF ok, where k = "TransferCallback k'"] show ?thesis by (simp del: map_option_eq_Some)
qed (use ok in auto)

lemma router_run_ok:
  assumes "router_ok sink R" and "\<forall>(_, E, _) \<in> set ins. en_has_event_sink E = sink"
  shows "\<exists>R'. router_run ins R = Some R' \<and> router_ok sink R'"
  using assms
proof (induction ins arbitrary: R)
  case (Cons x ins)
  obtain L E p k where x: "x = (L, E, p, k)" by (metis surj_pair)
  have sink: "en_has_event_sink E = sink" using Cons.prems(2) x by auto
  have "router_ok sink (set_manager ((router_manager R)\<lparr>mg_pj := p\<rparr>) R)" using Cons.prems(1) by simp
  then obtain R1 where "router_step L E k (set_manager ((router_manager R)\<lparr>mg_pj := p\<rparr>) R) = Some R1" "router_ok sink R1"
    using router_step_ok [of E] sink by blast
  with Cons x show ?case by simp
qed simp

subsection \<open>The calls of the engine\<close>

definition new_message_router :: "registrar \<Rightarrow> int \<Rightarrow> 'p \<Rightarrow> 'p message_router" where
  "new_message_router rg module_id p = \<lparr>mr_admission = \<lparr>ad_manager = \<lparr>mg_sessions = [], mg_retired = [], mg_pending_replacements = [],
     mg_rtp_inactivity_timer = None, mg_module_id = module_id, mg_pj = p\<rparr>, ad_sent = []\<rparr>, mr_options_sm = new_runner OptionsIdle,
     mr_options_rdata = None, mr_registrar = rg, mr_binding_sweep_timer = None\<rparr>"

definition call_over :: "'p call \<Rightarrow> bool" where
  "call_over c \<longleftrightarrow> rn_state (cs_setup c) = SuDone \<or> rn_state (cs_dialog c) = DialogDone"

lemma at_rest_facts:
  assumes "at_rest sink call_id c"
  shows "cs_call_id c = call_id" "removed c \<longleftrightarrow> call_over c" "gone Caller c \<and> gone Callee c \<longrightarrow> call_over c"
    "call_over c \<longrightarrow> cs_terminated_reported c" "length (filter is_close_task (cs_bridge_posts c)) = (if call_over c then 1 else 0)"
proof -
  have r: "call_rests (sink, call_id, []) c" using assms by (simp add: at_rest_def)
  have "cs_call_id c = call_id \<and> (removed c \<longleftrightarrow> call_over c) \<and> (gone Caller c \<and> gone Callee c \<longrightarrow> call_over c) \<and>
      (call_over c \<longrightarrow> cs_terminated_reported c) \<and> length (filter is_close_task (cs_bridge_posts c)) = (if call_over c then 1 else 0)"
  proof (cases "is_established c")
    case True
    with r have "dialog_rests (sink, call_id, []) c" by (simp add: call_rests_def)
    with True show ?thesis
      by (auto simp: dialog_rests_def dialog_runs_def done_once_def is_established_def is_in_def all_legs removed_def call_over_def Let_def)
  next
    case False
    with r have "setup_ok (sink, call_id, []) (cs_dialog c) c" "early_dialog (rn_state (cs_dialog c))" by (simp_all add: call_rests_def)
    then show ?thesis by (auto simp: setup_ok_def in_setup_def counts_def early_dialog_def removed_def call_over_def Let_def)
  qed
  then show "cs_call_id c = call_id" "removed c \<longleftrightarrow> call_over c" "gone Caller c \<and> gone Callee c \<longrightarrow> call_over c"
    "call_over c \<longrightarrow> cs_terminated_reported c" "length (filter is_close_task (cs_bridge_posts c)) = (if call_over c then 1 else 0)"
    by blast+
qed


definition sample_endpt :: "unit pjsip_endpt" where
  "sample_endpt = \<lparr>ep_present = True, ep_create_response = (\<lambda>_ p. (True, p)), ep_capability = Some, ep_response_addr = (\<lambda>_ _. True),
     ep_send_response = (\<lambda>_ _ p. p)\<rparr>"

definition sample_library :: "(unit, string) sip_library" where
  "sample_library = \<lparr>sl_xfer = sample_xfer, sl_ua = sample_ua, sl_endpt = sample_endpt, sl_stack = sample_stack\<rparr>"

definition sample_call_in :: "string register_request sip_request" where
  "sample_call_in = \<lparr>sr_rdata = sample_rdata, sr_dialog = None, sr_replaces = None, sr_msg_buf = None,
     sr_register = sample_request (Some ''alice'') 7200\<rparr>"


subsection \<open>One response per request\<close>

abbreviation responses :: "'p message_router \<Rightarrow> nat" where
  "responses R \<equiv> length (ad_sent (mr_admission R)) + length (rg_sent (mr_registrar R))"

abbreviation live_call :: "rx_data \<Rightarrow> 'p message_router \<Rightarrow> bool" where
  "live_call rdata R \<equiv> find_by_call_id (rx_call_id rdata) (router_manager R) \<noteq> None"

text \<open>The stack can build, address and send responses.\<close>

definition can_respond :: "('p, 'u) sip_library \<Rightarrow> 'u register_request sip_request \<Rightarrow> 'p message_router \<Rightarrow> bool" where
  "can_respond L rq R \<longleftrightarrow> stack_ok (sl_stack L) (sr_register rq) \<and> rg_endpt (mr_registrar R) \<and> ep_present (sl_endpt L) \<and>
     (\<forall>p. fst (ep_create_response (sl_endpt L) (sr_rdata rq) p) \<and> ep_response_addr (sl_endpt L) (sr_rdata rq) p)"

lemma options_response:
  assumes P: "ep_present P" "\<And>p. fst (ep_create_response P rdata p)" "\<And>p. ep_response_addr P rdata p"
    and idle: "rn_initial (mr_options_sm R) = OptionsIdle"
  obtains R' where "process_options P rdata R = Some R'" "mr_registrar R' = mr_registrar R" "rn_initial (mr_options_sm R') = OptionsIdle"
    "ad_sent (mr_admission R') = ad_sent (mr_admission R) @ [OptionsResponse rdata (capability_headers P)]"
proof -
  let ?R = "R\<lparr>mr_options_rdata := Some rdata, mr_options_sm := reset (mr_options_sm R)\<rparr>"
  obtain ok A where "ask_stack (ep_create_response P rdata) (mr_admission R) = (ok, A)" by fastforce
  with P(2) [of "ad_pj (mr_admission R)"] ask_stackD(1) [OF this] have A: "ask_stack (ep_create_response P rdata) (mr_admission R) = (True, A)" by simp
  let ?R1 = "do_send_options_response P ?R"
  have R1: "?R1 = ?R\<lparr>mr_admission := (on_stack (ep_send_response P rdata (capability_headers P)) A)
      \<lparr>ad_sent := ad_sent A @ [OptionsResponse rdata (capability_headers P)]\<rparr>\<rparr>"
    using P(1,3) A by (simp add: do_send_options_response_def)
  have "sml_process_event (options_table (options_actions_of P)) OptionsIdle ?R MessageReceived =
      Some (OptionsDone, ?R1\<lparr>mr_options_rdata := None\<rparr>, True)"
    by (simp add: options_dispatch options_actions_of_def)
  then have "process_options P rdata R = Some (?R1\<lparr>mr_options_rdata := None,
      mr_options_sm := (reset (mr_options_sm R))\<lparr>rn_state := OptionsDone, rn_processing := False\<rparr>\<rparr>)"
    using idle by (simp add: process_options_def process_event_def reset_def Let_def)
  then show thesis using that R1 ask_stackD(2) [OF A] idle by (simp add: reset_def)
qed

text \<open>C5: When the stack can build and address responses, every request the module claims outside a dialog is answered exactly once,
  except three kinds that get no response from the router: an ACK; an INVITE, a CANCEL or a BYE of a call that is in the table; and
  an INVITE for which a call is created, which the call itself answers. A request in a dialog is left to the dialog's
  own usages unless it misuses Replaces or is a CANCEL, and then it is claimed only if it is a REFER.\<close>

theorem requests_answered_once:
  assumes "can_respond L rq R" and "rn_initial (mr_options_sm R) = OptionsIdle" and "on_rx_request L E rq R = Some (claimed, R')"
  shows "if sr_dialog rq \<noteq> None \<and> sr_replaces rq = None \<and> rx_method (sr_rdata rq) \<notin> {''ACK'', ''CANCEL''}
    then claimed = (rx_method (sr_rdata rq) = ''REFER'') \<and> R' = R
    else claimed \<and>
      (responses R' = responses R + 1 \<or>
       responses R' = responses R \<and>
         (rx_method (sr_rdata rq) = ''ACK'' \<or>
          rx_method (sr_rdata rq) \<in> {''INVITE'', ''CANCEL'', ''BYE''} \<and> live_call (sr_rdata rq) R \<or>
          rx_method (sr_rdata rq) = ''INVITE'' \<and>
            (\<exists>A. create_call E (sl_ua L) rq (mr_admission R) = (Some (rx_call_id (sr_rdata rq)), A))))"
proof -
  have P: "ep_present (sl_endpt L)" "fst (ep_create_response (sl_endpt L) (sr_rdata rq) p)" "ep_response_addr (sl_endpt L) (sr_rdata rq) p"
      "stack_ok (sl_stack L) (sr_register rq)" "rg_endpt (mr_registrar R)" for p
    using assms(1) by (simp_all add: can_respond_def)
  obtain R1 where opt: "process_options (sl_endpt L) (sr_rdata rq) R = Some R1" "responses R1 = responses R + 1"
    by (rule options_response [OF P(1-3) assms(2)]) auto
  have reg: "responses (process_register (sl_stack L) (sr_register rq) R) = responses R + 1"
    using handle_register_answered [OF P(4,5)] by (auto simp: process_register_def)
  have inv: "responses R2 = responses R + 1 \<or> responses R2 = responses R \<and>
      (live_call (sr_rdata rq) R \<or> (\<exists>A. create_call E (sl_ua L) rq (mr_admission R) = (Some (rx_call_id (sr_rdata rq)), A)))"
    if i: "process_invite L E rq R = Some R2" for R2
  proof -
    obtain r A where r: "create_call E (sl_ua L) rq (mr_admission R) = (r, A)" by fastforce
    from create_call_outcome [OF r] r i show ?thesis
      by (cases r) (auto simp: process_invite_def set_manager_def split: bind_splits)
  qed
  let ?m = "rx_method (sr_rdata rq)"
  have refused: "responses (R\<lparr>mr_admission := respond_stateless U rdata code (mr_admission R)\<rparr>) = responses R + 1" for U rdata code by simp
  have ended: "responses (R\<lparr>mr_admission := handle_unmatched_dialog_request U rdata (mr_admission R)\<rparr>) =
      (if live_call rdata R then responses R else responses R + 1)" for U rdata
    by (simp add: handle_unmatched_dialog_request_def)
  note rejects = handle_unmatched_ack_def reject_bad_request_def reject_unsupported_method_def reject_out_of_dialog_refer_def
  consider "?m = ''ACK''" | "?m = ''CANCEL''" | "?m \<notin> {''ACK'', ''CANCEL''}" "sr_replaces rq \<noteq> None" "?m \<noteq> ''INVITE'' \<or> sr_dialog rq \<noteq> None"
    | "?m \<notin> {''ACK'', ''CANCEL''}" "sr_replaces rq = None" "sr_dialog rq \<noteq> None"
    | "?m = ''INVITE''" "sr_dialog rq = None" | "sr_replaces rq = None" "sr_dialog rq = None" "?m \<notin> {''ACK'', ''CANCEL'', ''INVITE''}"
    by blast
  then show ?thesis
  proof cases
    case 2
    then have "claimed" "R' = R\<lparr>mr_admission := handle_unmatched_dialog_request (sl_ua L) (sr_rdata rq) (mr_admission R)\<rparr>"
      using assms(3) by (simp_all add: on_rx_request_def)
    then show ?thesis using 2 ended [of "sl_ua L" "sr_rdata rq"] by simp
  next
    case 5
    then obtain R2 where "process_invite L E rq R = Some R2" "claimed" "R' = R2" using assms(3) by (auto simp: on_rx_request_def Let_def)
    then show ?thesis using 5 inv [of R2] by simp
  next
    case 6
    then have "claimed" "responses R' = responses R + 1 \<or> responses R' = responses R \<and> ?m = ''BYE'' \<and> live_call (sr_rdata rq) R"
      using assms(3) opt reg ended [of "sl_ua L" "sr_rdata rq"] by (auto simp: on_rx_request_def rejects Let_def split: if_splits)
    then show ?thesis using 6 by simp
  qed (use assms(3) refused in \<open>auto simp: on_rx_request_def rejects Let_def split: if_splits\<close>)
qed

definition sample_router :: "unit message_router" where
  "sample_router = new_message_router sample_registrar 0 ()"

theorem requests_answered_once_witness:
  "\<exists>R'. on_rx_request sample_library sample_env (sample_call_in\<lparr>sr_rdata := sample_rdata\<lparr>rx_method := ''BYE''\<rparr>\<rparr>) sample_router = Some (True, R') \<and>
     responses R' = 1"
proof -
  let ?rq = "sample_call_in\<lparr>sr_rdata := sample_rdata\<lparr>rx_method := ''BYE''\<rparr>\<rparr>"
  have can: "can_respond sample_library ?rq sample_router"
    by (simp add: can_respond_def sample_library_def sample_endpt_def sample_ok sample_router_def new_message_router_def)
  have idle: "rn_initial (mr_options_sm sample_router) = OptionsIdle" by (simp add: sample_router_def new_message_router_def new_runner_def)
  have new: "responses sample_router = 0" "\<not> live_call (sr_rdata ?rq) sample_router"
    by (simp_all add: sample_router_def new_message_router_def sample_registrar_def find_by_call_id_def)
  obtain R' where R': "on_rx_request sample_library sample_env ?rq sample_router = Some (True, R')"
    by (simp add: on_rx_request_def sample_call_in_def Let_def)
  from requests_answered_once [OF can idle this] new have "responses R' = 1" by (simp add: sample_call_in_def)
  with R' show ?thesis by blast
qed

subsection \<open>Local calls reach who registered\<close>

lemma process_options_registrar: "process_options P rdata R = Some R' \<Longrightarrow> mr_registrar R' = mr_registrar R"
proof -
  have same: "mr_registrar (do_send_options_response P R1) = mr_registrar R1" for R1
    by (simp add: do_send_options_response_def split: option.split prod.split bool.split)
  have "mr_registrar R1' = mr_registrar R1" if "options_table (options_actions_of P) s e R1 = Some (s', es, R1')" for s e R1 s' es R1'
    using that same by (cases s; cases e) (auto simp: options_actions_of_def)
  then have "mr_registrar R1' = mr_registrar R1"
    if "sml_process_event (options_table (options_actions_of P)) s R1 e = Some (s', R1', h)" for s R1 e s' R1' h
    using op.dispatch_inv [of "\<lambda>_ R2. mr_registrar R2 = mr_registrar R1", OF _ that] by (metis that)
  then show "process_options P rdata R = Some R' \<Longrightarrow> mr_registrar R' = mr_registrar R"
    by (fastforce simp: process_options_def process_event_def Let_def split: bind_splits option.splits)
qed

text \<open>Only REGISTER requests and the sweep change what the registrar knows.\<close>

lemma step_registrar:
  assumes "router_step L E k R = Some R'"
  shows "mr_registrar R' = mr_registrar R \<or>
    (\<exists>rq. k = RequestIn rq \<and> rx_method (sr_rdata rq) = ''REGISTER'' \<and> mr_registrar R' = handle_register (sl_stack L) (sr_register rq) (mr_registrar R)) \<or>
    (\<exists>now. rg_users (mr_registrar R') = rg_users (mr_registrar R) \<and> rg_bindings (mr_registrar R') = sweep (rg_bindings (mr_registrar R)) now)"
proof (cases k)
  case (RequestIn rq)
  have "mr_registrar R1 = mr_registrar R" if "process_invite L E rq R = Some R1" for R1
    using that by (auto simp: process_invite_def split: prod.splits option.splits bind_splits)
  with RequestIn assms process_options_registrar show ?thesis
    by (auto simp: on_rx_request_def process_register_def Let_def split: if_splits)
next
  case MainLoopTurn
  have sweep: "rg_users (mr_registrar (process_pending_binding_sweep R1)) = rg_users (mr_registrar R1)"
    "mr_registrar (process_pending_binding_sweep R1) = mr_registrar R1 \<or>
     (\<exists>now. rg_bindings (mr_registrar (process_pending_binding_sweep R1)) = sweep (rg_bindings (mr_registrar R1)) now)" for R1 :: "'a message_router"
    by (auto simp: process_pending_binding_sweep_def read_clock_def Let_def split: option.splits prod.splits)
  obtain M where "R' = process_pending_binding_sweep (set_manager M R)"
    using MainLoopTurn assms by (auto simp: process_pending_media_events_def Let_def split: bind_splits)
  with sweep [of "set_manager M R"] show ?thesis by auto
qed (use assms in \<open>auto simp: on_rx_refer_def on_inv_state_changed_def on_rx_reinvite_def on_rx_offer_def on_inv_media_update_def Let_def
    split: option.splits prod.splits if_splits\<close>)

definition asked_by :: "registrar \<Rightarrow> (('p, 'u) sip_library \<times> ('p, 'st) engine_env \<times> 'p \<times> 'u router_input) list \<Rightarrow> string \<Rightarrow> string \<Rightarrow> int \<Rightarrow> bool" where
  "asked_by rg ins aor address port \<longleftrightarrow>
     (\<exists>L E p rq. (L, E, p, RequestIn rq) \<in> set ins \<and> rx_method (sr_rdata rq) = ''REGISTER'' \<and> authorised (sl_stack L) rg (sr_register rq) \<and>
        aor = make_aor (rq_to_user (sr_register rq)) (rq_to_host (sr_register rq)) \<and>
        address = rq_src_name (sr_register rq) \<and> port = rq_src_port (sr_register rq))"

lemma bindings_asked:
  assumes "router_run ins R0 = Some R" and "wf_store (rg_bindings (mr_registrar R0))" and "rg_users (mr_registrar R0) = rg_users rg"
  shows "wf_store (rg_bindings (mr_registrar R)) \<and> rg_users (mr_registrar R) = rg_users rg \<and>
    (\<forall>aor uri b. store_abs (rg_bindings (mr_registrar R)) aor uri = Some b \<longrightarrow>
       store_abs (rg_bindings (mr_registrar R0)) aor uri = Some b \<or> asked_by rg ins aor (bd_source_address b) (bd_source_port b))"
  using assms
proof (induction ins arbitrary: R0)
  case (Cons x ins)
  obtain L E p k where x: "x = (L, E, p, k)" by (metis surj_pair)
  let ?R = "set_manager ((router_manager R0)\<lparr>mg_pj := p\<rparr>) R0"
  from Cons.prems(1) x obtain R1 where R1: "router_step L E k ?R = Some R1" "router_run ins R1 = Some R" by (auto split: bind_splits)
  have 1: "wf_store (rg_bindings (mr_registrar R1)) \<and> rg_users (mr_registrar R1) = rg_users rg \<and>
      (\<forall>aor uri b. store_abs (rg_bindings (mr_registrar R1)) aor uri = Some b \<longrightarrow>
         store_abs (rg_bindings (mr_registrar R0)) aor uri = Some b \<or> asked_by rg [x] aor (bd_source_address b) (bd_source_port b))"
    using step_registrar [OF R1(1)]
  proof (elim disjE exE conjE)
    fix rq assume k: "k = RequestIn rq" "rx_method (sr_rdata rq) = ''REGISTER''"
      "mr_registrar R1 = handle_register (sl_stack L) (sr_register rq) (mr_registrar ?R)"
    have "authorised (sl_stack L) rg (sr_register rq) = authorised (sl_stack L) (mr_registrar R0) (sr_register rq)"
      by (rule authorised_users) (simp add: Cons.prems(3))
    with k x Cons.prems(2,3) wf_handle_register registered_source show ?thesis by (fastforce simp: asked_by_def)
  next
    fix now assume "rg_users (mr_registrar R1) = rg_users (mr_registrar ?R)" "rg_bindings (mr_registrar R1) = sweep (rg_bindings (mr_registrar ?R)) now"
    with Cons.prems(2,3) show ?thesis
      by (auto simp: wf_sweep sweep_refines spec_sweep_def split: option.splits if_splits)
  qed (use Cons.prems(2,3) in simp)
  have mono: "asked_by rg ys aor a n \<Longrightarrow> set ys \<subseteq> set zs \<Longrightarrow> asked_by rg zs aor a n" for ys zs aor a n by (fastforce simp: asked_by_def)
  from Cons.IH [OF R1(2)] 1 mono [of "[x]" _ _ _ "x # ins"] mono [of ins _ _ _ "x # ins"] show ?case by (auto, blast+)
qed simp


lemma sample_registers:
  "router_run [(sample_library, sample_env, (), RequestIn (sample_call_in\<lparr>sr_rdata := sample_rdata\<lparr>rx_method := ''REGISTER''\<rparr>\<rparr>))]
     sample_router = Some (sample_router\<lparr>mr_registrar :=
       handle_register sample_stack (sample_request (Some ''alice'') 7200) sample_registrar\<rparr>)"
  by (simp add: on_rx_request_def sample_call_in_def process_register_def sample_library_def sample_router_def new_message_router_def
      set_manager_def Let_def)


end
