(* ===== verification/Outbound_Queue.thy ===== *)
theory Outbound_Queue
  imports SBC_Prelude
begin

text \<open>
  The queue of messages awaiting acknowledgement by the control plane,
  \<^verbatim>\<open>engine/src/control_plane/outbound_queue.cpp\<close>, and the startup gate
  \<^verbatim>\<open>first_snapshot_latch.cpp\<close> beside it. The contract the client uses is stated as a locale.
\<close>

subsection \<open>The queue\<close>

record out_message =
  om_payload :: string
  om_best_effort :: bool

record outbound_queue =
  oq_max_size :: nat
  oq_messages :: "out_message list"
  oq_in_flight :: bool

definition new_queue :: "nat \<Rightarrow> outbound_queue" where
  "new_queue max_size = \<lparr>oq_max_size = max_size, oq_messages = [], oq_in_flight = False\<rparr>"

definition push :: "string \<Rightarrow> bool \<Rightarrow> outbound_queue \<Rightarrow> bool \<times> outbound_queue" where
  "push payload best_effort q =
     (if length (oq_messages q) \<ge> oq_max_size q then (False, q)
      else (True, q\<lparr>oq_messages := oq_messages q @ [\<lparr>om_payload = payload, om_best_effort = best_effort\<rparr>]\<rparr>))"

definition oq_empty :: "outbound_queue \<Rightarrow> bool" where
  "oq_empty q \<longleftrightarrow> oq_messages q = []"

definition start_next :: "outbound_queue \<Rightarrow> string option \<times> outbound_queue" where
  "start_next q =
     (if oq_in_flight q \<or> oq_messages q = [] then (None, q)
      else (Some (om_payload (hd (oq_messages q))), q\<lparr>oq_in_flight := True\<rparr>))"

definition complete :: "outbound_queue \<Rightarrow> outbound_queue" where
  "complete q =
     (if \<not> oq_in_flight q then q
      else q\<lparr>oq_messages := tl (oq_messages q), oq_in_flight := False\<rparr>)"

definition abort :: "outbound_queue \<Rightarrow> outbound_queue" where
  "abort q = q\<lparr>oq_in_flight := False\<rparr>"

definition purge_best_effort :: "outbound_queue \<Rightarrow> outbound_queue" where
  "purge_best_effort q =
     (let n = (if oq_in_flight q then 1 else 0) in
      q\<lparr>oq_messages := take n (oq_messages q) @ filter (\<lambda>m. \<not> om_best_effort m) (drop n (oq_messages q))\<rparr>)"

subsection \<open>Contract\<close>

definition wf_queue :: "outbound_queue \<Rightarrow> bool" where
  "wf_queue q \<longleftrightarrow> length (oq_messages q) \<le> oq_max_size q \<and> (oq_in_flight q \<longrightarrow> oq_messages q \<noteq> [])"

definition reliable :: "outbound_queue \<Rightarrow> string list" where
  "reliable q = map om_payload (filter (\<lambda>m. \<not> om_best_effort m) (oq_messages q))"

lemma length_purge: "length (oq_messages (purge_best_effort q)) \<le> length (oq_messages q)"
proof -
  have "length (take n ms @ filter P (drop n ms)) \<le> length ms" for n P and ms :: "out_message list"
  proof -
    have "length (filter P (drop n ms)) \<le> length ms - n" by (metis length_drop length_filter_le)
    then show ?thesis by simp
  qed
  then show ?thesis by (simp add: purge_best_effort_def Let_def)
qed

locale reliable_queue =
  fixes inv :: "'q \<Rightarrow> bool"
    and contents :: "'q \<Rightarrow> string list"
    and busy :: "'q \<Rightarrow> bool"
    and enq :: "string \<Rightarrow> bool \<Rightarrow> 'q \<Rightarrow> bool \<times> 'q"
    and start :: "'q \<Rightarrow> string option \<times> 'q"
    and ack :: "'q \<Rightarrow> 'q"
    and retry :: "'q \<Rightarrow> 'q"
    and forget :: "'q \<Rightarrow> 'q"
  assumes enq_inv: "inv q \<Longrightarrow> enq p b q = (ok, q') \<Longrightarrow> inv q'"
    and enq_contents: "enq p b q = (ok, q') \<Longrightarrow> contents q' = (if ok \<and> \<not> b then contents q @ [p] else contents q)"
    and enq_busy: "enq p b q = (ok, q') \<Longrightarrow> busy q' = busy q"
    and start_inv: "inv q \<Longrightarrow> start q = (m, q') \<Longrightarrow> inv q'"
    and start_contents: "start q = (m, q') \<Longrightarrow> contents q' = contents q"
    and start_busy: "start q = (m, q') \<Longrightarrow> busy q' = (busy q \<or> m \<noteq> None)"
    and start_exclusive: "busy q \<Longrightarrow> fst (start q) = None"
    and ack_inv: "inv q \<Longrightarrow> inv (ack q)"
    and ack_contents: "contents (ack q) \<in> {contents q, tl (contents q)}"
    and ack_idle: "\<not> busy q \<Longrightarrow> ack q = q"
    and ack_busy: "\<not> busy (ack q)"
    and retry_inv: "inv q \<Longrightarrow> inv (retry q)"
    and retry_contents: "contents (retry q) = contents q"
    and retry_busy: "\<not> busy (retry q)"
    and forget_inv: "inv q \<Longrightarrow> inv (forget q)"
    and forget_contents: "contents (forget q) = contents q"
    and forget_busy: "busy (forget q) = busy q"
begin

lemma start_once: "start q = (Some m, q') \<Longrightarrow> fst (start q') = None"
  by (rule start_exclusive) (simp add: start_busy)

end

interpretation oq: reliable_queue wf_queue reliable oq_in_flight push start_next complete abort purge_best_effort
proof
  show "wf_queue q'" if "wf_queue q" "push p b q = (ok, q')" for q p b ok q'
    using that by (auto simp: wf_queue_def push_def split: if_splits)
  show "wf_queue q'" if "wf_queue q" "start_next q = (m, q')" for q m q'
    using that by (auto simp: wf_queue_def start_next_def split: if_splits)
  show "reliable (complete q) \<in> {reliable q, tl (reliable q)}" for q
    by (cases "oq_messages q") (auto simp: reliable_def complete_def)
  show "wf_queue (purge_best_effort q)" if "wf_queue q" for q
    using that length_purge [of q] by (cases "oq_messages q") (auto simp: wf_queue_def purge_best_effort_def Let_def)
  show "reliable (purge_best_effort q) = reliable q" for q
    by (simp add: reliable_def purge_best_effort_def Let_def flip: filter_append)
      (cases "oq_messages q"; simp)
qed (auto simp: wf_queue_def reliable_def push_def start_next_def complete_def abort_def purge_best_effort_def Let_def
      split: if_splits)

subsection \<open>Every sequence of operations\<close>

datatype queue_op = QPush string bool | QStart | QComplete | QAbort | QPurge

text \<open>The history keeps what was accepted, what was completed and what was handed out for writing.\<close>

record queue_history =
  qh_queue :: outbound_queue
  qh_accepted :: "out_message list"
  qh_completed :: "out_message list"
  qh_written :: "string list"

fun queue_step :: "queue_op \<Rightarrow> queue_history \<Rightarrow> queue_history" where
  "queue_step (QPush p b) h =
     (case push p b (qh_queue h) of
        (True, q) \<Rightarrow> h\<lparr>qh_queue := q, qh_accepted := qh_accepted h @ [\<lparr>om_payload = p, om_best_effort = b\<rparr>]\<rparr>
      | (False, q) \<Rightarrow> h\<lparr>qh_queue := q\<rparr>)"
| "queue_step QStart h =
     (case start_next (qh_queue h) of
        (Some p, q) \<Rightarrow> h\<lparr>qh_queue := q, qh_written := qh_written h @ [p]\<rparr>
      | (None, q) \<Rightarrow> h\<lparr>qh_queue := q\<rparr>)"
| "queue_step QComplete h =
     h\<lparr>qh_queue := complete (qh_queue h),
       qh_completed := qh_completed h @ (if oq_in_flight (qh_queue h) then [hd (oq_messages (qh_queue h))] else [])\<rparr>"
| "queue_step QAbort h = h\<lparr>qh_queue := abort (qh_queue h)\<rparr>"
| "queue_step QPurge h = h\<lparr>qh_queue := purge_best_effort (qh_queue h)\<rparr>"

definition run_queue :: "nat \<Rightarrow> queue_op list \<Rightarrow> queue_history" where
  "run_queue max_size ops =
     foldl (\<lambda>h op. queue_step op h)
       \<lparr>qh_queue = new_queue max_size, qh_accepted = [], qh_completed = [], qh_written = []\<rparr> ops"

abbreviation durable :: "out_message list \<Rightarrow> out_message list" where
  "durable ms \<equiv> filter (\<lambda>m. \<not> om_best_effort m) ms"

definition history_ok :: "queue_history \<Rightarrow> bool" where
  "history_ok h \<longleftrightarrow> wf_queue (qh_queue h) \<and>
     durable (qh_accepted h) = durable (qh_completed h) @ durable (oq_messages (qh_queue h)) \<and>
     (oq_in_flight (qh_queue h) \<longrightarrow> qh_written h \<noteq> [] \<and> last (qh_written h) = om_payload (hd (oq_messages (qh_queue h)))) \<and>
     length (qh_completed h) + (if oq_in_flight (qh_queue h) then 1 else 0) \<le> length (qh_written h) \<and>
     set (map om_payload (qh_completed h)) \<subseteq> set (qh_written h)"

lemma durable_purge: "durable (oq_messages (purge_best_effort q)) = durable (oq_messages q)"
  by (cases "oq_messages q") (simp_all add: purge_best_effort_def Let_def)

lemma hd_purge:
  "oq_in_flight q \<Longrightarrow> oq_messages q \<noteq> [] \<Longrightarrow> hd (oq_messages (purge_best_effort q)) = hd (oq_messages q)"
  by (cases "oq_messages q") (simp_all add: purge_best_effort_def Let_def)

lemma history_step: "history_ok h \<Longrightarrow> history_ok (queue_step op h)"
proof (cases op)
  case (QPush p b)
  assume "history_ok h"
  then show ?thesis
    by (cases "oq_messages (qh_queue h)") (auto simp: QPush history_ok_def push_def wf_queue_def)
next
  case QStart
  assume "history_ok h"
  then show ?thesis
    by (auto simp: QStart history_ok_def start_next_def wf_queue_def split: if_splits)
next
  case QComplete
  assume "history_ok h"
  then show ?thesis
    by (cases "oq_messages (qh_queue h)")
      (auto simp: QComplete history_ok_def complete_def wf_queue_def dest: last_in_set split: if_splits)
next
  case QAbort
  assume "history_ok h"
  then show ?thesis by (auto simp: QAbort history_ok_def abort_def wf_queue_def split: if_splits)
next
  case QPurge
  assume h: "history_ok h"
  have fl: "oq_in_flight (purge_best_effort q) = oq_in_flight q" for q by (simp add: purge_best_effort_def Let_def)
  from h have "wf_queue (purge_best_effort (qh_queue h))" by (simp add: history_ok_def oq.forget_inv)
  with h show ?thesis
    by (auto simp: QPurge history_ok_def durable_purge hd_purge fl wf_queue_def)
qed

text \<open>C28: Whatever operations are applied to the outbound queue, it never exceeds its bound, the message in flight
  is the last one handed out for writing, and every call event it accepted has either been
  acknowledged, after having been written, or is still queued, in the order of acceptance: no call event is lost,
  acknowledged twice or overtaken.\<close>

theorem queue_delivers_in_order:
  "history_ok (run_queue max_size ops)"
proof -
  have "history_ok \<lparr>qh_queue = new_queue max_size, qh_accepted = [], qh_completed = [], qh_written = []\<rparr>"
    by (simp add: history_ok_def wf_queue_def new_queue_def)
  then have "history_ok (foldl (\<lambda>h op. queue_step op h) h0 ops)" if "history_ok h0" for h0
    using that by (induction ops arbitrary: h0) (simp_all add: history_step)
  then show ?thesis unfolding run_queue_def by (simp add: history_ok_def wf_queue_def new_queue_def)
qed

subsection \<open>The startup gate\<close>

datatype latch_result = LatchOk | LatchError string

record first_snapshot_latch =
  fl_armed :: bool
  fl_resolved :: bool
  fl_value :: "latch_result option"

definition new_latch :: first_snapshot_latch where
  "new_latch = \<lparr>fl_armed = False, fl_resolved = False, fl_value = None\<rparr>"

definition latch_arm :: "first_snapshot_latch \<Rightarrow> first_snapshot_latch" where
  "latch_arm l = (if fl_resolved l then l else l\<lparr>fl_armed := True\<rparr>)"

definition latch_disarm :: "first_snapshot_latch \<Rightarrow> first_snapshot_latch" where
  "latch_disarm l = l\<lparr>fl_armed := False\<rparr>"

definition latch_resolve :: "latch_result \<Rightarrow> first_snapshot_latch \<Rightarrow> first_snapshot_latch" where
  "latch_resolve result l =
     (if fl_resolved l then l else l\<lparr>fl_resolved := True, fl_armed := False, fl_value := Some result\<rparr>)"

text \<open>The countdown expires only while it is armed: cancelling it makes the handler return at once.\<close>

definition latch_timeout :: "first_snapshot_latch \<Rightarrow> first_snapshot_latch" where
  "latch_timeout l =
     (if \<not> fl_armed l then l
      else latch_resolve (LatchError ''control plane never sent a valid snapshot'') (l\<lparr>fl_armed := False\<rparr>))"

datatype latch_op = LArm | LDisarm | LResolve latch_result | LTimeout

fun latch_step :: "first_snapshot_latch \<Rightarrow> latch_op \<Rightarrow> first_snapshot_latch" where
  "latch_step l LArm = latch_arm l"
| "latch_step l LDisarm = latch_disarm l"
| "latch_step l (LResolve r) = latch_resolve r l"
| "latch_step l LTimeout = latch_timeout l"

definition latch_ok :: "first_snapshot_latch \<Rightarrow> bool" where
  "latch_ok l \<longleftrightarrow> (fl_resolved l \<longleftrightarrow> fl_value l \<noteq> None) \<and> (fl_resolved l \<longrightarrow> \<not> fl_armed l)"

lemmas latch_defs = latch_arm_def latch_disarm_def latch_resolve_def latch_timeout_def

lemma latch_step_ok: "latch_ok l \<Longrightarrow> latch_ok (latch_step l op)"
  by (cases op) (auto simp: latch_ok_def latch_defs)

lemma latch_step_value: "latch_ok l \<Longrightarrow> fl_value l = Some v \<Longrightarrow> fl_value (latch_step l op) = Some v"
  by (cases op) (auto simp: latch_ok_def latch_defs)

lemma latch_run:
  "latch_ok l \<Longrightarrow> latch_ok (foldl latch_step l ops) \<and> (fl_value l = Some v \<longrightarrow> fl_value (foldl latch_step l ops) = Some v)"
  by (induction ops arbitrary: l) (simp_all add: latch_step_ok latch_step_value)

text \<open>The startup gate is decided once: whatever happens to it, the thread waiting on it gets a value exactly when
  it is resolved, the first decision stands against every later one, and a countdown that is still running
  belongs to an undecided gate.\<close>

theorem latch_decided_once:
  "latch_ok (foldl latch_step new_latch (ops @ ops')) \<and>
   (case fl_value (foldl latch_step new_latch ops) of
      None \<Rightarrow> \<not> fl_resolved (foldl latch_step new_latch ops)
    | Some v \<Rightarrow> fl_value (foldl latch_step new_latch (ops @ ops')) = Some v)"
proof -
  have "latch_ok new_latch" by (simp add: latch_ok_def new_latch_def)
  then have 1: "latch_ok (foldl latch_step new_latch ops)" using latch_run by blast
  with latch_run [OF 1, of ops'] show ?thesis by (auto simp: latch_ok_def split: option.splits)
qed

end
