(* ===== verification/Control_Plane.thy ===== *)
theory Control_Plane
  imports Outbound_Queue Config_Stores Extract_Utils
begin

text \<open>
  The control-plane client: \<^verbatim>\<open>ws_utils.cpp\<close>, \<^verbatim>\<open>ws_connection.cpp\<close> and
  \<^verbatim>\<open>control_plane_client.cpp\<close> under \<^verbatim>\<open>engine/src/control_plane/\<close>. Everything but the calls that
  post work runs on one executor, so the client is a state and one step for each callback that can run
  on it: the socket's callbacks, the timers, the tasks it posts to itself (kept in \<open>cl_posted\<close>, first in first out)
  and the tasks other threads post. Reading and writing JSON is the serializer's, given by the events: a received
  message comes parsed (\<open>None\<close> when parsing fails), an outgoing one serialized.
\<close>

subsection \<open>The address of the control plane\<close>

record ws_url_parts =
  wu_host :: string
  wu_port :: string
  wu_target :: string

datatype url_error = BadScheme | MissingPort

definition parse_ws_url :: "string \<Rightarrow> url_error + ws_url_parts" where
  "parse_ws_url url =
     (if take 5 url \<noteq> ''ws://'' then Inl BadScheme
      else
        let rest = drop 5 url;
            slash_pos = find_pos (\<lambda>c. c = CHR ''/'') rest;
            authority = (case slash_pos of None \<Rightarrow> rest | Some i \<Rightarrow> take i rest);
            target = (case slash_pos of None \<Rightarrow> ''/'' | Some i \<Rightarrow> drop i rest) in
        case find_pos (\<lambda>c. c = CHR '':'') authority of
          None \<Rightarrow> Inl MissingPort
        | Some colon_pos \<Rightarrow>
            Inr \<lparr>wu_host = take colon_pos authority, wu_port = drop (colon_pos + 1) authority, wu_target = target\<rparr>)"

definition connect_url :: "ws_url_parts \<Rightarrow> string" where
  "connect_url p = ''ws://'' @ wu_host p @ '':'' @ wu_port p @ wu_target p"

text \<open>The address a client connects to is the one it was configured with: printing the parts of a parsed
  address gives it back, with the root target added when it had none, and parsing what is printed
  for a host, a port and a target gives those parts.\<close>

theorem ws_url_roundtrip:
  assumes "CHR '':'' \<notin> set host" "CHR ''/'' \<notin> set host" "CHR ''/'' \<notin> set port"
    and "target = [] \<or> hd target = CHR ''/''"
  shows "parse_ws_url (''ws://'' @ host @ '':'' @ port @ target) =
      Inr \<lparr>wu_host = host, wu_port = port, wu_target = (if target = [] then ''/'' else target)\<rparr> \<and>
    (\<forall>p. parse_ws_url (''ws://'' @ host @ '':'' @ port @ target) = Inr p \<longrightarrow>
       connect_url p = ''ws://'' @ host @ '':'' @ port @ (if target = [] then ''/'' else target))"
proof -
  let ?auth = "host @ CHR '':'' # port"
  have colon: "find_pos (\<lambda>c. c = CHR '':'') ?auth = Some (length host)"
    using assms(1) by (intro find_pos_prefix) auto
  have no_slash: "\<forall>c \<in> set ?auth. \<not> c = CHR ''/''" using assms(2,3) by auto
  have slash: "find_pos (\<lambda>c. c = CHR ''/'') (?auth @ target) = (if target = [] then None else Some (length ?auth))"
  proof (cases target)
    case Nil
    then show ?thesis using no_slash find_pos_None by simp
  next
    case (Cons c cs)
    with assms(4) have "c = CHR ''/''" by simp
    with Cons find_pos_prefix [OF no_slash, of c cs] show ?thesis by simp
  qed
  have "parse_ws_url (''ws://'' @ host @ '':'' @ port @ target) =
      Inr \<lparr>wu_host = host, wu_port = port, wu_target = (if target = [] then ''/'' else target)\<rparr>"
    using slash colon by (cases "target = []") (simp_all add: parse_ws_url_def Let_def)
  then show ?thesis by (simp add: connect_url_def)
qed

theorem ws_url_roundtrip_witness:
  "parse_ws_url ''ws://cp:8080/ws'' = Inr \<lparr>wu_host = ''cp'', wu_port = ''8080'', wu_target = ''/ws''\<rparr>"
  using ws_url_roundtrip [of "''cp''" "''8080''" "''/ws''"] by simp

subsection \<open>Messages and state\<close>

record ws_snapshot =
  ws_is_snapshot :: bool
  ws_routes :: "sip_route_snapshot option"
  ws_users :: "sip_user list option"
  ws_seq :: "int option"

datatype ws_incoming = WsAck bool | WsEnvelope ws_snapshot

datatype ws_stage = WsConnect | WsSession

datatype ws_error = ConnectionRefused | TimedOut | ConnectionReset | OtherError

record ws_connection =
  wc_open :: bool
  wc_closed :: bool

datatype posted_task = FailureTask ws_stage ws_error

record cp_client =
  cl_connection :: "ws_connection option"
  cl_queue :: outbound_queue
  cl_latch :: first_snapshot_latch
  cl_last_seq :: int
  cl_ack_generation :: "64 word"
  cl_ack_timer :: "64 word option"
  cl_retry_timer :: bool
  cl_flush_waiter :: bool
  cl_stopped :: bool
  cl_routes :: sip_route_snapshot
  cl_users :: users_store
  cl_written :: "string list"
  cl_posted :: "posted_task list"

definition kMaxOutboundQueueSize :: nat where
  "kMaxOutboundQueueSize = 1024"

definition new_client :: "sip_route_snapshot \<Rightarrow> users_store \<Rightarrow> cp_client" where
  "new_client routes users = \<lparr>
     cl_connection = None, cl_queue = new_queue kMaxOutboundQueueSize, cl_latch = new_latch, cl_last_seq = 0,
     cl_ack_generation = 0, cl_ack_timer = None, cl_retry_timer = False, cl_flush_waiter = False,
     cl_stopped = False, cl_routes = routes, cl_users = users, cl_written = [], cl_posted = []\<rparr>"

definition connected :: "cp_client \<Rightarrow> bool" where
  "connected cl = (case cl_connection cl of None \<Rightarrow> False | Some c \<Rightarrow> wc_open c)"

subsection \<open>The client\<close>

definition do_connect :: "cp_client \<Rightarrow> cp_client" where
  "do_connect cl =
     (if cl_stopped cl then cl
      else cl\<lparr>cl_queue := purge_best_effort (cl_queue cl), cl_last_seq := 0,
              cl_connection := Some \<lparr>wc_open = False, wc_closed = False\<rparr>\<rparr>)"

definition resolve_flush_waiter :: "cp_client \<Rightarrow> cp_client" where
  "resolve_flush_waiter cl = (if cl_flush_waiter cl then cl\<lparr>cl_flush_waiter := False\<rparr> else cl)"

definition write_next :: "cp_client \<Rightarrow> cp_client" where
  "write_next cl =
     (let cl1 = cl\<lparr>cl_ack_generation := cl_ack_generation cl + 1\<rparr> in
      if \<not> connected cl1 then cl1
      else
        case start_next (cl_queue cl1) of
          (None, q) \<Rightarrow> cl1\<lparr>cl_queue := q\<rparr>
        | (Some payload, q) \<Rightarrow>
            cl1\<lparr>cl_queue := q, cl_written := cl_written cl1 @ [payload],
                cl_ack_timer := Some (cl_ack_generation cl1)\<rparr>)"

definition cp_on_open :: "cp_client \<Rightarrow> cp_client" where
  "cp_on_open cl = write_next (cl\<lparr>cl_latch := latch_arm (cl_latch cl)\<rparr>)"

definition on_write_complete :: "cp_client \<Rightarrow> cp_client" where
  "on_write_complete cl =
     (let cl1 = cl\<lparr>cl_ack_timer := None, cl_queue := complete (cl_queue cl)\<rparr>;
          cl2 = (if oq_empty (cl_queue cl1) then resolve_flush_waiter cl1 else cl1) in
      write_next cl2)"

definition apply_envelope :: "ws_snapshot \<Rightarrow> cp_client \<Rightarrow> cp_client" where
  "apply_envelope env cl =
     (case ws_seq env of
        Some n \<Rightarrow> if n \<le> cl_last_seq cl then cl else
          (let cl1 = cl\<lparr>cl_last_seq := n\<rparr> in
           if \<not> ws_is_snapshot env then cl1
           else cl1\<lparr>cl_routes := (case ws_routes env of Some r \<Rightarrow> routes_set_snapshot (cl_routes cl1) r | None \<Rightarrow> cl_routes cl1),
                    cl_users := (case ws_users env of Some u \<Rightarrow> users_set_snapshot (cl_users cl1) u | None \<Rightarrow> cl_users cl1),
                    cl_latch := latch_resolve LatchOk (cl_latch cl1)\<rparr>)
      | None \<Rightarrow>
          if \<not> ws_is_snapshot env then cl
          else cl\<lparr>cl_routes := (case ws_routes env of Some r \<Rightarrow> routes_set_snapshot (cl_routes cl) r | None \<Rightarrow> cl_routes cl),
                  cl_users := (case ws_users env of Some u \<Rightarrow> users_set_snapshot (cl_users cl) u | None \<Rightarrow> cl_users cl),
                  cl_latch := latch_resolve LatchOk (cl_latch cl)\<rparr>)"

definition cp_on_message :: "ws_incoming option \<Rightarrow> cp_client \<Rightarrow> cp_client" where
  "cp_on_message message cl =
     (case message of
        None \<Rightarrow> cl
      | Some (WsAck success) \<Rightarrow> on_write_complete cl
      | Some (WsEnvelope env) \<Rightarrow> apply_envelope env cl)"

definition schedule_reconnect :: "cp_client \<Rightarrow> cp_client" where
  "schedule_reconnect cl = (if cl_stopped cl then cl else cl\<lparr>cl_retry_timer := True\<rparr>)"

definition handle_setup_failure :: "ws_error \<Rightarrow> cp_client \<Rightarrow> cp_client" where
  "handle_setup_failure err cl =
     (if fl_resolved (cl_latch cl) \<or> err = ConnectionRefused then schedule_reconnect cl
      else cl\<lparr>cl_latch := latch_resolve (LatchError ''control-plane websocket connect failed'') (cl_latch cl)\<rparr>)"

definition cp_on_failure :: "ws_stage \<Rightarrow> ws_error \<Rightarrow> cp_client \<Rightarrow> cp_client" where
  "cp_on_failure stage err cl = cl\<lparr>cl_posted := cl_posted cl @ [FailureTask stage err]\<rparr>"

definition failure_task :: "ws_stage \<Rightarrow> ws_error \<Rightarrow> cp_client \<Rightarrow> cp_client" where
  "failure_task stage err cl =
     (let cl1 = cl\<lparr>cl_ack_timer := None, cl_connection := None, cl_queue := abort (cl_queue cl),
                   cl_latch := latch_disarm (cl_latch cl)\<rparr>;
          cl2 = (if oq_empty (cl_queue cl1) then resolve_flush_waiter cl1 else cl1) in
      if stage \<noteq> WsSession then handle_setup_failure err cl2
      else if cl_stopped cl2 then cl2
      else schedule_reconnect cl2)"

definition do_enqueue :: "string option \<Rightarrow> bool \<Rightarrow> cp_client \<Rightarrow> cp_client" where
  "do_enqueue payload best_effort cl =
     (if best_effort \<and> \<not> connected cl then cl
      else
        case payload of
          None \<Rightarrow> cl
        | Some p \<Rightarrow>
            (case push p best_effort (cl_queue cl) of
               (False, q) \<Rightarrow> cl\<lparr>cl_queue := q\<rparr>
             | (True, q) \<Rightarrow> write_next (cl\<lparr>cl_queue := q\<rparr>)))"

subsection \<open>The connection\<close>

definition conn_cancel :: "cp_client \<Rightarrow> cp_client" where
  "conn_cancel cl = cl\<lparr>cl_connection := map_option (\<lambda>c. c\<lparr>wc_closed := True, wc_open := False\<rparr>) (cl_connection cl)\<rparr>"

definition conn_fail :: "ws_stage \<Rightarrow> ws_error \<Rightarrow> cp_client \<Rightarrow> cp_client" where
  "conn_fail stage err cl =
     (case cl_connection cl of
        None \<Rightarrow> cl
      | Some c \<Rightarrow> if wc_closed c then cl else cp_on_failure stage err (conn_cancel cl))"

definition conn_on_open :: "cp_client \<Rightarrow> cp_client" where
  "conn_on_open cl =
     (case cl_connection cl of
        None \<Rightarrow> cl
      | Some c \<Rightarrow> if wc_closed c then cl else cp_on_open (cl\<lparr>cl_connection := Some (c\<lparr>wc_open := True\<rparr>)\<rparr>))"

definition conn_on_message :: "bool \<Rightarrow> ws_incoming option \<Rightarrow> cp_client \<Rightarrow> cp_client" where
  "conn_on_message is_text message cl =
     (case cl_connection cl of
        None \<Rightarrow> cl
      | Some c \<Rightarrow> if wc_closed c \<or> \<not> is_text then cl else cp_on_message message cl)"

definition conn_on_close :: "cp_client \<Rightarrow> cp_client" where
  "conn_on_close cl = conn_fail WsSession ConnectionReset cl"

definition conn_on_error :: "ws_error \<Rightarrow> cp_client \<Rightarrow> cp_client" where
  "conn_on_error err cl = conn_fail (if connected cl then WsSession else WsConnect) err cl"

definition on_ack_timeout :: "64 word \<Rightarrow> cp_client \<Rightarrow> cp_client" where
  "on_ack_timeout generation cl =
     (if generation \<noteq> cl_ack_generation cl \<or> \<not> connected cl then cl
      else cp_on_failure WsSession TimedOut (conn_cancel cl))"

subsection \<open>What can run on the executor\<close>

datatype cp_event =
    EvStart
  | EvOpen
  | EvMessage bool "ws_incoming option"
  | EvClose
  | EvError ws_error
  | EvConnectTimer
  | EvAckTimer
  | EvRetryTimer
  | EvSnapshotTimer
  | EvPosted
  | EvEnqueue "string option" bool
  | EvFlush
  | EvStop

fun cp_step :: "cp_client \<Rightarrow> cp_event \<Rightarrow> cp_client" where
  "cp_step cl EvStart = do_connect cl"
| "cp_step cl EvOpen = conn_on_open cl"
| "cp_step cl (EvMessage is_text message) = conn_on_message is_text message cl"
| "cp_step cl EvClose = conn_on_close cl"
| "cp_step cl (EvError err) = conn_on_error err cl"
| "cp_step cl EvConnectTimer = (if connected cl then cl else conn_fail WsConnect TimedOut cl)"
| "cp_step cl EvAckTimer =
     (case cl_ack_timer cl of
        None \<Rightarrow> cl
      | Some generation \<Rightarrow> on_ack_timeout generation (cl\<lparr>cl_ack_timer := None\<rparr>))"
| "cp_step cl EvRetryTimer = (if cl_retry_timer cl then do_connect (cl\<lparr>cl_retry_timer := False\<rparr>) else cl)"
| "cp_step cl EvSnapshotTimer = cl\<lparr>cl_latch := latch_timeout (cl_latch cl)\<rparr>"
| "cp_step cl EvPosted =
     (case cl_posted cl of
        [] \<Rightarrow> cl
      | FailureTask stage err # tasks \<Rightarrow> failure_task stage err (cl\<lparr>cl_posted := tasks\<rparr>))"
| "cp_step cl (EvEnqueue payload best_effort) = do_enqueue payload best_effort cl"
| "cp_step cl EvFlush =
     (let cl1 = cl\<lparr>cl_flush_waiter := True\<rparr> in
      if oq_empty (cl_queue cl1) then resolve_flush_waiter cl1 else cl1)"
| "cp_step cl EvStop =
     (if cl_stopped cl then cl
      else conn_cancel (cl\<lparr>cl_stopped := True, cl_retry_timer := False, cl_ack_timer := None,
                          cl_latch := latch_disarm (cl_latch cl)\<rparr>))"

subsection \<open>Call events leave the queue only when acknowledged\<close>

lemma write_next_queue [simp]: "reliable (cl_queue (write_next cl)) = reliable (cl_queue cl)"
  by (auto simp: write_next_def Let_def split: prod.splits option.splits dest: oq.start_contents)

lemma resolve_flush_waiter_simps [simp]:
  "cl_queue (resolve_flush_waiter cl) = cl_queue cl" "cl_stopped (resolve_flush_waiter cl) = cl_stopped cl"
  "cl_latch (resolve_flush_waiter cl) = cl_latch cl" "cl_routes (resolve_flush_waiter cl) = cl_routes cl"
  "cl_users (resolve_flush_waiter cl) = cl_users cl" "cl_connection (resolve_flush_waiter cl) = cl_connection cl"
  "cl_last_seq (resolve_flush_waiter cl) = cl_last_seq cl" "cl_retry_timer (resolve_flush_waiter cl) = cl_retry_timer cl"
  "cl_posted (resolve_flush_waiter cl) = cl_posted cl"
  by (simp_all add: resolve_flush_waiter_def)

lemma write_next_simps [simp]:
  "cl_stopped (write_next cl) = cl_stopped cl" "cl_latch (write_next cl) = cl_latch cl"
  "cl_routes (write_next cl) = cl_routes cl" "cl_users (write_next cl) = cl_users cl"
  "cl_connection (write_next cl) = cl_connection cl" "cl_last_seq (write_next cl) = cl_last_seq cl"
  "cl_retry_timer (write_next cl) = cl_retry_timer cl" "cl_posted (write_next cl) = cl_posted cl"
  by (simp_all add: write_next_def Let_def split: prod.split option.split)

lemma apply_envelope_simps [simp]:
  "cl_queue (apply_envelope env cl) = cl_queue cl" "cl_connection (apply_envelope env cl) = cl_connection cl"
  "cl_stopped (apply_envelope env cl) = cl_stopped cl" "cl_retry_timer (apply_envelope env cl) = cl_retry_timer cl"
  "cl_posted (apply_envelope env cl) = cl_posted cl"
  by (simp_all add: apply_envelope_def Let_def split: option.split)

lemma reconnect_simps [simp]:
  "cl_queue (schedule_reconnect cl) = cl_queue cl" "cl_queue (handle_setup_failure err cl) = cl_queue cl"
  "cl_routes (schedule_reconnect cl) = cl_routes cl" "cl_routes (handle_setup_failure err cl) = cl_routes cl"
  "cl_users (schedule_reconnect cl) = cl_users cl" "cl_users (handle_setup_failure err cl) = cl_users cl"
  by (simp_all add: schedule_reconnect_def handle_setup_failure_def)

lemma conn_simps [simp]:
  "cl_queue (conn_cancel cl) = cl_queue cl" "cl_queue (conn_fail stage err cl) = cl_queue cl"
  "cl_routes (conn_cancel cl) = cl_routes cl" "cl_routes (conn_fail stage err cl) = cl_routes cl"
  "cl_users (conn_cancel cl) = cl_users cl" "cl_users (conn_fail stage err cl) = cl_users cl"
  "cl_queue (on_ack_timeout g cl) = cl_queue cl" "cl_routes (on_ack_timeout g cl) = cl_routes cl"
  "cl_users (on_ack_timeout g cl) = cl_users cl"
  by (simp_all add: conn_cancel_def conn_fail_def cp_on_failure_def on_ack_timeout_def split: option.split)

lemma reliable_snoc:
  "reliable (q\<lparr>oq_messages := oq_messages q @ [\<lparr>om_payload = p, om_best_effort = b\<rparr>]\<rparr>) =
     (if b then reliable q else reliable q @ [p])"
  by (simp add: reliable_def)

lemma enqueue_queue:
  "reliable (cl_queue (do_enqueue payload b cl)) =
     (case payload of
        Some p \<Rightarrow> if \<not> b \<and> length (oq_messages (cl_queue cl)) < oq_max_size (cl_queue cl)
                  then reliable (cl_queue cl) @ [p] else reliable (cl_queue cl)
      | None \<Rightarrow> reliable (cl_queue cl))"
  by (simp add: do_enqueue_def push_def reliable_snoc split: option.split)

text \<open>C29: A call event that the outbound queue has accepted stays queued, in order, through disconnects,
  reconnects, timeouts and shutdown; only an acknowledgement from the control plane removes one, the oldest. A new
  call event is appended unless the queue is full.\<close>

theorem call_events_retained:
  "case e of
     EvMessage t m \<Rightarrow> reliable (cl_queue (cp_step cl e)) \<in>
       (case m of Some (WsAck _) \<Rightarrow> {reliable (cl_queue cl), tl (reliable (cl_queue cl))} | _ \<Rightarrow> {reliable (cl_queue cl)})
   | EvEnqueue (Some p) False \<Rightarrow> reliable (cl_queue (cp_step cl e)) =
       (if length (oq_messages (cl_queue cl)) < oq_max_size (cl_queue cl)
        then reliable (cl_queue cl) @ [p] else reliable (cl_queue cl))
   | _ \<Rightarrow> reliable (cl_queue (cp_step cl e)) = reliable (cl_queue cl)"
proof (cases e)
  case (EvMessage t m)
  have "reliable (cl_queue (on_write_complete cl)) \<in> {reliable (cl_queue cl), tl (reliable (cl_queue cl))}"
    using oq.ack_contents [of "cl_queue cl"] by (simp add: on_write_complete_def Let_def)
  then show ?thesis
    by (auto simp: EvMessage conn_on_message_def cp_on_message_def split: option.splits ws_incoming.splits)
next
  case (EvEnqueue payload b)
  then show ?thesis by (cases payload; cases b) (simp_all add: enqueue_queue)
qed (auto simp: do_connect_def conn_on_open_def cp_on_open_def conn_on_close_def conn_on_error_def failure_task_def
      oq.forget_contents oq.retry_contents Let_def split: option.splits list.splits posted_task.splits)

subsection \<open>Snapshots are applied in order\<close>

text \<open>The routing table and the users change only when a snapshot message arrives that is unsequenced or
  carries a number above every one seen on this connection, which then becomes the highest; a snapshot
  that arrives out of order changes nothing.\<close>

theorem snapshots_in_order:
  "(cl_routes (cp_step cl e) = cl_routes cl \<and> cl_users (cp_step cl e) = cl_users cl) \<or>
   (\<exists>env. e = EvMessage True (Some (WsEnvelope env)) \<and> ws_is_snapshot env \<and>
      (case ws_seq env of
         None \<Rightarrow> cl_last_seq (cp_step cl e) = cl_last_seq cl
       | Some n \<Rightarrow> cl_last_seq cl < n \<and> cl_last_seq (cp_step cl e) = n))"
proof (cases e)
  case (EvMessage t m)
  have "cl_routes (on_write_complete cl) = cl_routes cl \<and> cl_users (on_write_complete cl) = cl_users cl"
    by (simp add: on_write_complete_def Let_def)
  then show ?thesis
    by (auto simp: EvMessage conn_on_message_def cp_on_message_def apply_envelope_def Let_def
        split: option.splits ws_incoming.splits)
qed (auto simp: do_connect_def conn_on_open_def cp_on_open_def conn_on_close_def conn_on_error_def failure_task_def
      do_enqueue_def resolve_flush_waiter_def Let_def split: option.splits list.splits posted_task.splits prod.splits bool.splits)

subsection \<open>The client keeps trying\<close>

definition startup_failed :: "cp_client \<Rightarrow> bool" where
  "startup_failed cl \<longleftrightarrow> (case fl_value (cl_latch cl) of Some (LatchError _) \<Rightarrow> True | _ \<Rightarrow> False)"

definition usable_connection :: "cp_client \<Rightarrow> bool" where
  "usable_connection cl \<longleftrightarrow> cl_connection cl \<noteq> None \<and> (wc_closed (the (cl_connection cl)) \<longrightarrow> cl_posted cl \<noteq> [])"

definition client_ok :: "cp_client \<Rightarrow> bool" where
  "client_ok cl \<longleftrightarrow> wf_queue (cl_queue cl) \<and> latch_ok (cl_latch cl) \<and>
     (cl_stopped cl \<or> startup_failed cl \<or> cl_retry_timer cl \<or> usable_connection cl)"

lemma client_ok_cong:
  assumes "client_ok cl" "wf_queue (cl_queue cl')" "cl_latch cl' = cl_latch cl" "cl_stopped cl' = cl_stopped cl"
    "cl_retry_timer cl' = cl_retry_timer cl" "cl_connection cl' = cl_connection cl" "cl_posted cl' = cl_posted cl"
  shows "client_ok cl'"
  using assms by (simp add: client_ok_def usable_connection_def startup_failed_def)

lemma latch_ops_ok [simp]:
  "latch_ok l \<Longrightarrow> latch_ok (latch_arm l)" "latch_ok l \<Longrightarrow> latch_ok (latch_disarm l)"
  "latch_ok l \<Longrightarrow> latch_ok (latch_resolve r l)" "latch_ok l \<Longrightarrow> latch_ok (latch_timeout l)"
  using latch_step_ok [of l LArm] latch_step_ok [of l LDisarm] latch_step_ok [of l "LResolve r"]
    latch_step_ok [of l LTimeout] by simp_all

lemma latch_ops_value:
  "fl_value (latch_arm l) = fl_value l" "fl_value (latch_disarm l) = fl_value l"
  "latch_ok l \<Longrightarrow> fl_value l = Some v \<Longrightarrow> fl_value (latch_resolve r l) = Some v"
  "latch_ok l \<Longrightarrow> fl_value l = Some v \<Longrightarrow> fl_value (latch_timeout l) = Some v"
  using latch_step_value [of l v "LResolve r"] latch_step_value [of l v LTimeout]
  by (simp_all add: latch_arm_def latch_disarm_def)

lemma wf_write_next: "wf_queue (cl_queue cl) \<Longrightarrow> wf_queue (cl_queue (write_next cl))"
  by (auto simp: write_next_def Let_def split: prod.splits option.splits dest: oq.start_inv)

lemma failed_stays:
  assumes "latch_ok (cl_latch cl)" "startup_failed cl" "cl_latch cl' \<in>
     {cl_latch cl, latch_arm (cl_latch cl), latch_disarm (cl_latch cl), latch_resolve r (cl_latch cl), latch_timeout (cl_latch cl),
      latch_resolve r (latch_disarm (cl_latch cl))}"
  shows "startup_failed cl'"
proof -
  from assms(2) obtain m where v: "fl_value (cl_latch cl) = Some (LatchError m)"
    by (auto simp: startup_failed_def split: option.splits latch_result.splits)
  have "fl_value (latch_disarm (cl_latch cl)) = Some (LatchError m)" using v by (simp add: latch_ops_value)
  with assms(1,3) v have "fl_value (cl_latch cl') = Some (LatchError m)"
    using latch_ops_value(3) [of "latch_disarm (cl_latch cl)" "LatchError m" r] by (auto simp: latch_ops_value)
  then show ?thesis by (simp add: startup_failed_def)
qed

lemma client_ok_connect:
  assumes "client_ok cl"
  shows "client_ok (do_connect (cl\<lparr>cl_retry_timer := b\<rparr>))"
  using assms by (auto simp: client_ok_def do_connect_def usable_connection_def oq.forget_inv)

lemma client_ok_fail:
  assumes "client_ok cl"
  shows "client_ok (conn_fail stage err cl)" "client_ok (on_ack_timeout g (cl\<lparr>cl_ack_timer := t\<rparr>))"
  using assms
  by (auto simp: client_ok_def conn_fail_def cp_on_failure_def conn_cancel_def on_ack_timeout_def startup_failed_def
      usable_connection_def split: option.splits)

lemma client_ok_failure_task:
  assumes "wf_queue (cl_queue cl)" "latch_ok (cl_latch cl)"
  shows "client_ok (failure_task stage err cl)"
proof -
  have latch: "startup_failed (cl'\<lparr>cl_latch := latch_resolve (LatchError m) l\<rparr>)" if "\<not> fl_resolved l" for cl' :: cp_client and m l
    using that by (simp add: startup_failed_def latch_resolve_def)
  have resolved: "latch_disarm l = l" if "latch_ok l" "fl_resolved l" for l
    using that by (simp add: latch_ok_def latch_disarm_def)
  show ?thesis
    using assms latch
    by (auto simp: failure_task_def client_ok_def handle_setup_failure_def schedule_reconnect_def oq.retry_inv Let_def)
qed

lemma client_ok_message: "client_ok cl \<Longrightarrow> client_ok (cp_on_message m cl)"
proof -
  assume ok: "client_ok cl"
  then have l: "latch_ok (cl_latch cl)" and q: "wf_queue (cl_queue cl)" by (simp_all add: client_ok_def)
  have 1: "client_ok (on_write_complete cl)"
    using oq.ack_inv [OF q]
    by (intro client_ok_cong [OF ok]) (simp_all add: on_write_complete_def Let_def wf_write_next)
  have 2: "client_ok (apply_envelope env cl)" for env
  proof -
    have "cl_latch (apply_envelope env cl) \<in> {cl_latch cl, latch_resolve LatchOk (cl_latch cl)}"
      by (auto simp: apply_envelope_def Let_def split: option.splits)
    with l failed_stays [OF l, of "apply_envelope env cl" LatchOk] have
      "latch_ok (cl_latch (apply_envelope env cl))" "startup_failed cl \<Longrightarrow> startup_failed (apply_envelope env cl)" by auto
    with ok show ?thesis by (auto simp: client_ok_def usable_connection_def)
  qed
  from ok 1 2 show ?thesis by (simp add: cp_on_message_def split: option.split ws_incoming.split)
qed

lemma client_ok_open: "client_ok cl \<Longrightarrow> client_ok (conn_on_open cl)"
  by (auto simp: conn_on_open_def cp_on_open_def client_ok_def usable_connection_def startup_failed_def latch_ops_value
      intro!: wf_write_next split: option.splits cong: option.case_cong)

lemma client_ok_enqueue:
  assumes "client_ok cl"
  shows "client_ok (do_enqueue payload b cl)"
proof -
  have "client_ok (write_next (cl\<lparr>cl_queue := q\<rparr>))" "client_ok (cl\<lparr>cl_queue := q\<rparr>)" if "wf_queue q" for q
    using that by (intro client_ok_cong [OF assms]; simp add: wf_write_next)+
  with assms show ?thesis
    by (auto simp: do_enqueue_def split: option.split prod.split bool.split dest: oq.enq_inv simp: client_ok_def)
qed

lemma client_ok_step: "client_ok cl \<Longrightarrow> client_ok (cp_step cl e)"
proof (cases e)
  case EvStart
  assume "client_ok cl"
  from client_ok_connect [OF this, of "cl_retry_timer cl"] show ?thesis by (simp add: EvStart)
next
  case EvPosted
  assume "client_ok cl"
  then show ?thesis
    by (auto simp: EvPosted client_ok_def [of cl] intro!: client_ok_failure_task split: list.split posted_task.split)
next
  case EvSnapshotTimer
  assume ok: "client_ok cl"
  then have "latch_ok (cl_latch cl)" by (simp add: client_ok_def)
  from failed_stays [OF this, of "cl\<lparr>cl_latch := latch_timeout (cl_latch cl)\<rparr>"] ok show ?thesis
    by (auto simp: EvSnapshotTimer client_ok_def usable_connection_def)
next
  case EvStop
  assume "client_ok cl"
  then show ?thesis by (simp add: EvStop client_ok_def conn_cancel_def)
next
  case EvFlush
  assume ok: "client_ok cl"
  then have "wf_queue (cl_queue cl)" by (simp add: client_ok_def)
  then show ?thesis by (intro client_ok_cong [OF ok]) (simp_all add: EvFlush Let_def)
next
  case (EvMessage t m)
  assume "client_ok cl"
  then show ?thesis by (simp add: EvMessage conn_on_message_def client_ok_message split: option.split)
next
  case EvRetryTimer
  assume "client_ok cl"
  then show ?thesis by (simp add: EvRetryTimer client_ok_connect)
next
  case EvAckTimer
  assume "client_ok cl"
  then show ?thesis by (simp add: EvAckTimer client_ok_fail split: option.split)
qed (simp_all add: conn_on_close_def conn_on_error_def client_ok_open client_ok_fail client_ok_enqueue)

text \<open>C30: Once started, the client always has a way forward, whatever its socket, timers and callers do: it is stopped,
  its start has been reported as failed, a reconnect is scheduled, or it has a connection, and if that one is
  closed the task that schedules the reconnect is pending. The queue stays within its bound throughout.\<close>

theorem client_keeps_trying:
  "client_ok (foldl cp_step (new_client routes users) (EvStart # es))"
proof -
  have "client_ok (do_connect (new_client routes users))"
    by (simp add: client_ok_def do_connect_def new_client_def usable_connection_def wf_queue_def new_queue_def
        purge_best_effort_def latch_ok_def new_latch_def)
  then have "client_ok (foldl cp_step cl es)" if "client_ok cl" for cl
    using that by (induction es arbitrary: cl) (simp_all add: client_ok_step)
  with \<open>client_ok (do_connect (new_client routes users))\<close> show ?thesis by simp
qed

subsection \<open>Acknowledgement timeouts\<close>

text \<open>When the control plane does not acknowledge the message in flight and nothing else has happened, the timeout
  closes the connection and the client reconnects, keeping the message for the next connection.\<close>

theorem ack_timeout_reconnects:
  assumes "connected cl" "\<not> cl_stopped cl" "cl_posted cl = []" "cl_ack_timer cl = Some (cl_ack_generation cl)"
  shows "let cl' = cp_step (cp_step cl EvAckTimer) EvPosted in
    cl_connection cl' = None \<and> cl_retry_timer cl' \<and> \<not> oq_in_flight (cl_queue cl') \<and>
    oq_messages (cl_queue cl') = oq_messages (cl_queue cl)"
  using assms by (simp add: on_ack_timeout_def cp_on_failure_def conn_cancel_def failure_task_def schedule_reconnect_def
      connected_def abort_def Let_def resolve_flush_waiter_def)

definition waiting_client :: cp_client where
  "waiting_client = foldl cp_step
     (new_client \<lparr>sn_table_id = [], sn_version = 0, sn_routes = []\<rparr> []) [EvStart, EvOpen, EvEnqueue (Some ''a'') False]"

lemma waiting_client_state:
  "connected waiting_client" "\<not> cl_stopped waiting_client" "cl_posted waiting_client = []"
  "cl_ack_timer waiting_client = Some (cl_ack_generation waiting_client)"
  "oq_in_flight (cl_queue waiting_client)" "map om_payload (oq_messages (cl_queue waiting_client)) = [''a'']"
  "oq_max_size (cl_queue waiting_client) = 1024" "cl_written waiting_client = [''a'']"
  by (simp_all add: waiting_client_def new_client_def do_connect_def conn_on_open_def cp_on_open_def write_next_def
      start_next_def do_enqueue_def push_def connected_def new_queue_def purge_best_effort_def kMaxOutboundQueueSize_def
      latch_arm_def new_latch_def Let_def)

theorem ack_timeout_reconnects_witness:
  "cl_retry_timer (cp_step (cp_step waiting_client EvAckTimer) EvPosted)"
  using ack_timeout_reconnects [OF waiting_client_state(1-4)] by (simp add: Let_def del: cp_step.simps)

definition enqueue_call_events :: "string list \<Rightarrow> cp_event list" where
  "enqueue_call_events payloads = map (\<lambda>p. EvEnqueue (Some p) False) payloads"

lemma enqueue_in_flight:
  assumes "connected cl" "oq_in_flight (cl_queue cl)"
  shows "let cl' = cp_step cl (EvEnqueue (Some p) False) in
    connected cl' \<and> oq_in_flight (cl_queue cl') \<and> cl_connection cl' = cl_connection cl \<and> cl_ack_timer cl' = cl_ack_timer cl \<and>
    cl_posted cl' = cl_posted cl \<and> cl_written cl' = cl_written cl \<and> cl_retry_timer cl' = cl_retry_timer cl"
  using assms by (simp add: do_enqueue_def push_def write_next_def start_next_def connected_def Let_def)

lemma enqueues_in_flight:
  assumes "connected cl" "oq_in_flight (cl_queue cl)"
  shows "let cl' = foldl cp_step cl (enqueue_call_events ps) in
    oq_in_flight (cl_queue cl') \<and> cl_connection cl' = cl_connection cl \<and> cl_ack_timer cl' = cl_ack_timer cl \<and>
    cl_posted cl' = cl_posted cl \<and> cl_written cl' = cl_written cl \<and> cl_retry_timer cl' = cl_retry_timer cl"
  using assms
proof (induction ps arbitrary: cl)
  case (Cons p ps)
  from enqueue_in_flight [OF Cons.prems, of p]
    Cons.IH [of "cp_step cl (EvEnqueue (Some p) False)"] show ?case
    by (simp add: enqueue_call_events_def Let_def del: cp_step.simps)
qed (simp add: enqueue_call_events_def)

text \<open>If another event is queued while a message is in flight, the timeout of that message no longer does anything:
  queueing advances the generation that the running timer is compared with although nothing is written.
  The client then stays connected with the message in flight, no acknowledgement timer and no reconnect, and
  whatever is queued afterwards is not written either.\<close>

theorem ack_timeout_lost_when_enqueued:
  assumes "connected cl" "oq_in_flight (cl_queue cl)" "cl_ack_timer cl = Some (cl_ack_generation cl)"
    and "length (oq_messages (cl_queue cl)) < oq_max_size (cl_queue cl)"
  shows "let cl' = foldl cp_step cl ([EvEnqueue (Some p) False, EvAckTimer] @ enqueue_call_events ps) in
    cl_connection cl' = cl_connection cl \<and> oq_in_flight (cl_queue cl') \<and> cl_ack_timer cl' = None \<and>
    cl_posted cl' = cl_posted cl \<and> cl_retry_timer cl' = cl_retry_timer cl \<and> cl_written cl' = cl_written cl"
proof -
  let ?cl1 = "cp_step cl (EvEnqueue (Some p) False)" and ?cl2 = "cp_step (cp_step cl (EvEnqueue (Some p) False)) EvAckTimer"
  note one = enqueue_in_flight [OF assms(1,2), of p, unfolded Let_def]
  have gen: "cl_ack_generation ?cl1 = cl_ack_generation cl + 1"
    using assms by (simp add: do_enqueue_def push_def write_next_def start_next_def connected_def)
  have "cl_ack_generation cl \<noteq> cl_ack_generation cl + 1" by simp
  with one gen assms(3) have two: "?cl2 = ?cl1\<lparr>cl_ack_timer := None\<rparr>"
    by (simp add: on_ack_timeout_def)
  have "connected ?cl2" "oq_in_flight (cl_queue ?cl2)" using one by (simp_all only: two, simp_all add: connected_def)
  from enqueues_in_flight [OF this, of ps] one two show ?thesis by (simp add: Let_def del: cp_step.simps)
qed

theorem ack_timeout_lost_when_enqueued_witness:
  "let cl' = foldl cp_step waiting_client ([EvEnqueue (Some ''b'') False, EvAckTimer] @ enqueue_call_events [''c'']) in
     oq_in_flight (cl_queue cl') \<and> cl_ack_timer cl' = None \<and> cl_posted cl' = [] \<and> cl_written cl' = [''a'']"
proof -
  have "length (oq_messages (cl_queue waiting_client)) < oq_max_size (cl_queue waiting_client)"
    using arg_cong [OF waiting_client_state(6), of length] waiting_client_state(7) by simp
  from ack_timeout_lost_when_enqueued [OF waiting_client_state(1,5,4) this, of "''b''" "[''c'']"] waiting_client_state
  show ?thesis by (simp add: Let_def del: cp_step.simps)
qed

subsection \<open>A flush ends when the control plane acknowledges\<close>

text \<open>With an open connection, a queue that is not empty has its first message in flight, and only an open connection is usable.\<close>

definition sending :: "cp_client \<Rightarrow> bool" where
  "sending cl \<longleftrightarrow> (connected cl \<longrightarrow> (oq_messages (cl_queue cl) \<noteq> [] \<longrightarrow> oq_in_flight (cl_queue cl)) \<and> \<not> wc_closed (the (cl_connection cl)))"

lemma sending_disconnected: "\<not> connected cl \<Longrightarrow> sending cl"
  by (simp add: sending_def)

lemma connected_simps [simp]:
  "connected (cl\<lparr>cl_queue := q\<rparr>) = connected cl" "connected (cl\<lparr>cl_latch := l\<rparr>) = connected cl" "connected (cl\<lparr>cl_ack_timer := t\<rparr>) = connected cl"
  "connected (cl\<lparr>cl_flush_waiter := b\<rparr>) = connected cl" "connected (cl\<lparr>cl_posted := ts\<rparr>) = connected cl" "connected (cl\<lparr>cl_ack_generation := g\<rparr>) = connected cl"
  "connected (cl\<lparr>cl_last_seq := n\<rparr>) = connected cl" "connected (cl\<lparr>cl_routes := r\<rparr>) = connected cl" "connected (cl\<lparr>cl_users := u\<rparr>) = connected cl"
  "connected (cl\<lparr>cl_retry_timer := b\<rparr>) = connected cl" "connected (cl\<lparr>cl_written := w\<rparr>) = connected cl" "connected (cl\<lparr>cl_stopped := b\<rparr>) = connected cl"
  by (simp_all add: connected_def)

lemma connected_write [simp]: "connected (write_next cl) = connected cl" "cl_connection (write_next cl) = cl_connection cl"
    "connected (resolve_flush_waiter cl) = connected cl"
  by (simp_all add: write_next_def resolve_flush_waiter_def Let_def split: prod.split option.split)

lemma sending_write:
  "(connected cl \<longrightarrow> \<not> wc_closed (the (cl_connection cl))) \<Longrightarrow> sending (write_next cl)"
  by (auto simp: sending_def write_next_def start_next_def Let_def split: prod.splits option.splits if_splits)

lemma not_connected_cancel [simp]: "\<not> connected (conn_cancel cl)"
  by (simp add: conn_cancel_def connected_def split: option.split)

lemma sending_cong:
  assumes "sending cl" and "cl_connection cl' = cl_connection cl" and "cl_queue cl' = cl_queue cl"
  shows "sending cl'"
  using assms by (simp add: sending_def connected_def)

lemma sending_simps [simp]:
  "sending (cl\<lparr>cl_ack_timer := t\<rparr>) = sending cl" "sending (cl\<lparr>cl_retry_timer := b\<rparr>) = sending cl" "sending (cl\<lparr>cl_latch := l\<rparr>) = sending cl"
  "sending (cl\<lparr>cl_flush_waiter := b\<rparr>) = sending cl" "sending (resolve_flush_waiter cl) = sending cl" "sending (conn_cancel cl)"
  "sending (cl\<lparr>cl_posted := ts\<rparr>) = sending cl"
  by (simp_all add: sending_def resolve_flush_waiter_def)

lemma sending_connect: "sending cl \<Longrightarrow> sending (do_connect cl)"
  by (simp add: do_connect_def sending_def connected_def)

lemma sending_fail: "sending cl \<Longrightarrow> sending (conn_fail stage err cl)"
  by (simp add: conn_fail_def cp_on_failure_def split: option.split)

lemma sending_ack: "sending cl \<Longrightarrow> sending (on_write_complete cl)"
  unfolding on_write_complete_def Let_def
  by (rule sending_write) (auto simp: sending_def resolve_flush_waiter_def)

lemma sending_step: "sending cl \<Longrightarrow> sending (cp_step cl e)"
proof (cases e)
  case EvOpen
  assume "sending cl"
  then show ?thesis unfolding EvOpen cp_step.simps conn_on_open_def cp_on_open_def
    by (auto intro!: sending_write split: option.split)
next
  case (EvMessage t m)
  assume ok: "sending cl"
  have "sending (apply_envelope env cl)" for env
    by (rule sending_cong [OF ok]) (simp_all add: apply_envelope_def Let_def split: option.split)
  with ok sending_ack [OF ok] show ?thesis
    by (simp add: EvMessage conn_on_message_def cp_on_message_def split: option.split ws_incoming.split)
next
  case (EvEnqueue payload b)
  assume ok: "sending cl"
  then have "sending (write_next (cl\<lparr>cl_queue := q\<rparr>))" for q by (intro sending_write) (simp add: sending_def)
  with ok show ?thesis by (auto simp: EvEnqueue do_enqueue_def push_def split: option.split prod.split bool.split if_splits)
next
  case EvPosted
  assume "sending cl"
  moreover have "sending (failure_task stage err cl')" for stage err cl'
    by (rule sending_disconnected) (simp add: failure_task_def handle_setup_failure_def schedule_reconnect_def resolve_flush_waiter_def connected_def Let_def)
  ultimately show ?thesis by (simp add: EvPosted split: list.split posted_task.split)
qed (simp_all add: sending_connect sending_fail conn_on_close_def conn_on_error_def on_ack_timeout_def cp_on_failure_def Let_def split: option.split)

lemma sending_reachable: "sending (foldl cp_step (new_client routes users) es)"
proof -
  have "sending (foldl cp_step cl es)" if "sending cl" for cl using that by (induction es arbitrary: cl) (simp_all add: sending_step del: cp_step.simps)
  moreover have "sending (new_client routes users)" by (simp add: sending_def connected_def new_client_def)
  ultimately show ?thesis by blast
qed

lemma ack_step:
  assumes "connected cl" and "sending cl" and "oq_messages (cl_queue cl) = m # ms"
  shows "let cl' = cp_step cl (EvMessage True (Some (WsAck ok))) in connected cl' \<and> sending cl' \<and> oq_messages (cl_queue cl') = ms \<and>
    cl_flush_waiter cl' = (cl_flush_waiter cl \<and> ms \<noteq> []) \<and> cl_written cl' = cl_written cl @ map om_payload (take 1 ms)"
proof -
  obtain c where c: "cl_connection cl = Some c" "wc_open c" "\<not> wc_closed c" using assms(1,2) by (auto simp: sending_def connected_def split: option.splits)
  have "cp_step cl (EvMessage True (Some (WsAck ok))) = on_write_complete cl" using c by (simp add: conn_on_message_def cp_on_message_def)
  moreover have "connected (on_write_complete cl)" using assms(1) by (simp add: on_write_complete_def Let_def)
  moreover have "oq_in_flight (cl_queue cl)" using assms by (simp add: sending_def)
  ultimately show ?thesis using assms c sending_ack [OF assms(2)]
    by (cases ms) (auto simp: on_write_complete_def write_next_def start_next_def complete_def oq_empty_def resolve_flush_waiter_def Let_def simp del: cp_step.simps)
qed

lemma ack_steps:
  assumes "connected cl" and "sending cl" and "cl_flush_waiter cl \<longrightarrow> oq_messages (cl_queue cl) \<noteq> []"
  shows "let ms = oq_messages (cl_queue cl); cl' = foldl cp_step cl (replicate (length ms) (EvMessage True (Some (WsAck ok)))) in
    oq_messages (cl_queue cl') = [] \<and> \<not> cl_flush_waiter cl' \<and> cl_written cl' = cl_written cl @ map om_payload (tl ms)"
  using assms
proof (induction "oq_messages (cl_queue cl)" arbitrary: cl)
  case Nil
  then show ?case by simp
next
  case (Cons m ms)
  let ?cl = "cp_step cl (EvMessage True (Some (WsAck ok)))"
  have one: "connected ?cl" "sending ?cl" "oq_messages (cl_queue ?cl) = ms" "cl_flush_waiter ?cl = (cl_flush_waiter cl \<and> ms \<noteq> [])"
      "cl_written ?cl = cl_written cl @ map om_payload (take 1 ms)"
    using ack_step [OF Cons.prems(1,2) Cons.hyps(2) [symmetric], of ok] by (simp_all only: Let_def)
  have "take 1 ms @ tl ms = ms" by (cases ms) simp_all
  with Cons.hyps(1) [of ?cl] one show ?case
    by (simp add: Cons.hyps(2) [symmetric] Let_def del: cp_step.simps flip: map_append)
qed

text \<open>C22: A flush succeeds when the control plane answers. From every state the client can reach, with its connection open, after as many
  acknowledgements as messages are queued the queue is empty, the caller of the flush has been released, and every message that was waiting has been
  written, once and in the order of the queue. In particular an idle queue releases the caller at once.\<close>

theorem flush_delivers:
  assumes "cl = foldl cp_step (new_client routes users) es" and "connected cl"
  shows "let ms = oq_messages (cl_queue cl); cl' = foldl cp_step cl (EvFlush # replicate (length ms) (EvMessage True (Some (WsAck ok)))) in
    oq_messages (cl_queue cl') = [] \<and> \<not> cl_flush_waiter cl' \<and> cl_written cl' = cl_written cl @ map om_payload (tl ms)"
proof -
  have "sending cl" using assms(1) sending_reachable by simp
  then have flush: "connected (cp_step cl EvFlush)" "sending (cp_step cl EvFlush)" "cl_queue (cp_step cl EvFlush) = cl_queue cl"
      "cl_written (cp_step cl EvFlush) = cl_written cl" "cl_flush_waiter (cp_step cl EvFlush) \<longrightarrow> oq_messages (cl_queue cl) \<noteq> []"
    using assms(2) by (auto simp: Let_def oq_empty_def resolve_flush_waiter_def)
  from ack_steps [OF flush(1,2), of ok] flush(3-5) show ?thesis by (simp add: Let_def del: cp_step.simps)
qed

definition busy_client :: cp_client where
  "busy_client = foldl cp_step (new_client \<lparr>sn_table_id = [], sn_version = 0, sn_routes = []\<rparr> [])
     [EvStart, EvOpen, EvEnqueue (Some ''a'') False, EvEnqueue (Some ''b'') False]"

theorem flush_delivers_witness:
  "let cl' = foldl cp_step busy_client (EvFlush # replicate 2 (EvMessage True (Some (WsAck True)))) in
     \<not> cl_flush_waiter cl' \<and> cl_written cl' = [''a'', ''b'']"
proof -
  have b: "connected busy_client" "map om_payload (oq_messages (cl_queue busy_client)) = [''a'', ''b'']" "cl_written busy_client = [''a'']"
    by (simp_all add: busy_client_def new_client_def do_connect_def conn_on_open_def cp_on_open_def do_enqueue_def write_next_def connected_def start_next_def push_def
        new_queue_def purge_best_effort_def new_latch_def latch_defs kMaxOutboundQueueSize_def Let_def)
  have "length (oq_messages (cl_queue busy_client)) = 2" using arg_cong [OF b(2), of length] by simp
  moreover have "map om_payload (tl (oq_messages (cl_queue busy_client))) = [''b'']" using b(2) by (simp add: map_tl)
  ultimately show ?thesis using flush_delivers [OF busy_client_def b(1), of True] b(3) by (simp add: Let_def del: foldl_Cons)
qed

end
