(* ===== verification/Core_Utils.thy ===== *)
theory Core_Utils
  imports SBC_Prelude
begin

text \<open>
  The utilities every part of the engine leans on: the bounded error messages of
  \<^verbatim>\<open>engine/src/core/utils/error.hpp\<close>, the settings of \<^verbatim>\<open>core/settings.cpp\<close> with their defaults, and the log
  levels of \<^verbatim>\<open>core/utils/log.hpp\<close>. What a format string renders is given as the text it renders to; reading TOML and
  spdlog's names of levels belong to libraries and are parameters.
\<close>

subsection \<open>Errors\<close>

definition kMAX_ERROR_SIZE :: nat where
  "kMAX_ERROR_SIZE = 128"

abbreviation NUL :: char where "NUL \<equiv> CHR 0x00"

text \<open>The buffer is the array with all its characters; a string in it ends at the first NUL.\<close>

record error =
  er_code :: int
  er_buffer :: string
  er_file :: string
  er_line :: nat

definition c_str :: "string \<Rightarrow> string" where
  "c_str buf = takeWhile (\<lambda>ch. ch \<noteq> NUL) buf"

definition empty_buffer :: string where
  "empty_buffer = replicate kMAX_ERROR_SIZE NUL"

text \<open>\<^verbatim>\<open>std::format_to_n\<close> writes at most \<open>n\<close> characters from a position on; it returns the position after the last one and the size of the whole text.\<close>

definition format_to_n :: "nat \<Rightarrow> nat \<Rightarrow> string \<Rightarrow> string \<Rightarrow> string \<times> nat \<times> nat" where
  "format_to_n pos n text buf =
     (let out = take n text in (take pos buf @ out @ drop (pos + length out) buf, pos + length out, length text))"

definition format_buffer :: "string \<Rightarrow> string" where
  "format_buffer text = (case format_to_n 0 (kMAX_ERROR_SIZE - 1) text empty_buffer of (buf, out, _) \<Rightarrow> buf[out := NUL])"

definition text_error :: "string \<Rightarrow> string \<Rightarrow> nat \<Rightarrow> error" where
  "text_error text file line = \<lparr>er_code = 0, er_buffer = format_buffer text, er_file = file, er_line = line\<rparr>"

definition code_error :: "int \<Rightarrow> string \<Rightarrow> nat \<Rightarrow> error" where
  "code_error errc file line = \<lparr>er_code = errc, er_buffer = empty_buffer, er_file = file, er_line = line\<rparr>"

definition code_text_error :: "int \<Rightarrow> string \<Rightarrow> string \<Rightarrow> nat \<Rightarrow> error" where
  "code_text_error errc text file line = \<lparr>er_code = errc, er_buffer = format_buffer text, er_file = file, er_line = line\<rparr>"

definition error_clear :: "error \<Rightarrow> error" where
  "error_clear e = e\<lparr>er_code := 0, er_buffer := (er_buffer e)[0 := NUL]\<rparr>"

definition error_message :: "error \<Rightarrow> string" where
  "error_message e = c_str (er_buffer e)"

definition enrich :: "string \<Rightarrow> error \<Rightarrow> error" where
  "enrich text e =
     (let (temp, out1, res1_size) = format_to_n 0 (kMAX_ERROR_SIZE - 1) text empty_buffer;
          written = (if res1_size > kMAX_ERROR_SIZE - 1 then kMAX_ERROR_SIZE - 1 else res1_size);
          remaining = (kMAX_ERROR_SIZE - 1) - written in
      e\<lparr>er_buffer :=
        (if remaining > 0 then
           (case format_to_n written remaining ('' -> '' @ c_str (er_buffer e)) temp of (temp, out2, _) \<Rightarrow> temp[out2 := NUL])
         else temp[out1 := NUL])\<rparr>)"

definition basename :: "string \<Rightarrow> string" where
  "basename path = rev (takeWhile (\<lambda>ch. ch \<noteq> CHR ''/'' \<and> ch \<noteq> CHR 0x5C) (rev path))"

definition format_error :: "(int \<Rightarrow> string) \<Rightarrow> error \<Rightarrow> string" where
  "format_error code_message e =
     error_message e @ (if er_code e \<noteq> 0 then '' ('' @ code_message (er_code e) @ '')'' else []) @
     '' ['' @ basename (er_file e) @ '':'' @ utoa (er_line e) @ '']''"

text \<open>\<^verbatim>\<open>pj_error\<close> of \<^verbatim>\<open>net/pj_status_error.cpp\<close>.\<close>

definition pj_error :: "(int \<Rightarrow> string) \<Rightarrow> string \<Rightarrow> int \<Rightarrow> error" where
  "pj_error pj_strerror what status = text_error (what @ '': '' @ pj_strerror status) ''pj_status_error.cpp'' 14"

subsection \<open>Settings\<close>

record logging_settings =
  ls_level :: string
  ls_pjsip_level :: string
  ls_categories :: "(string \<times> string) list"

record sip_settings =
  ss_address :: string
  ss_advertised_address :: string
  ss_port :: "16 word"
  ss_identity_user :: string
  ss_invite_timeout_ms :: int
  ss_rtp_inactivity_timeout_s :: int
  ss_max_hold_duration_s :: int

record control_plane_settings =
  cps_ws_url :: string
  cps_connect_timeout_s :: int
  cps_retry_interval_s :: int

record registrar_settings =
  rs_min_expires_s :: int
  rs_max_expires_s :: int
  rs_binding_sweep_interval_s :: int

record settings =
  st_logging :: logging_settings
  st_sip :: sip_settings
  st_control_plane :: control_plane_settings
  st_registrar :: registrar_settings

definition default_settings :: settings where
  "default_settings = \<lparr>
     st_logging = \<lparr>ls_level = ''info'', ls_pjsip_level = ''disabled'', ls_categories = []\<rparr>,
     st_sip = \<lparr>ss_address = ''127.0.0.1'', ss_advertised_address = [], ss_port = 5060, ss_identity_user = ''sbc'',
       ss_invite_timeout_ms = 32000, ss_rtp_inactivity_timeout_s = 60, ss_max_hold_duration_s = 0\<rparr>,
     st_control_plane = \<lparr>cps_ws_url = ''ws://127.0.0.1:3001/ws/engine'', cps_connect_timeout_s = 5, cps_retry_interval_s = 5\<rparr>,
     st_registrar = \<lparr>rs_min_expires_s = 60, rs_max_expires_s = 120, rs_binding_sweep_interval_s = 60\<rparr>\<rparr>"

text \<open>\<^verbatim>\<open>std::from_chars\<close> for an \<^verbatim>\<open>int\<close>: an optional minus sign and decimal digits; the rest of the input is returned. No digits, and a value that does not fit,
  are errors.\<close>

definition is_dec_digit :: "char \<Rightarrow> bool" where
  "is_dec_digit ch \<longleftrightarrow> 48 \<le> (of_char ch :: nat) \<and> (of_char ch :: nat) \<le> 57"

definition digits_value :: "string \<Rightarrow> int" where
  "digits_value ds = foldl (\<lambda>v ch. v * 10 + (of_char ch - 48)) 0 ds"

definition from_chars_int :: "string \<Rightarrow> (int \<times> string) option" where
  "from_chars_int text =
     (let neg = (case text of ch # _ \<Rightarrow> ch = CHR ''-'' | [] \<Rightarrow> False);
          body = (if neg then tl text else text);
          ds = takeWhile is_dec_digit body;
          v = (if neg then - digits_value ds else digits_value ds) in
      if ds = [] \<or> v < - (2 ^ 31) \<or> v \<ge> 2 ^ 31 then None else Some (v, dropWhile is_dec_digit body))"

definition kMaxPjLogLevel :: int where
  "kMaxPjLogLevel = 6"

definition resolve_pjsip_log_level :: "string \<Rightarrow> int" where
  "resolve_pjsip_log_level level =
     (if level = [] \<or> level = ''disabled'' then 0
      else case from_chars_int level of
        None \<Rightarrow> 0
      | Some (v, rest) \<Rightarrow> if rest \<noteq> [] \<or> v < 0 \<or> v > kMaxPjLogLevel then 0 else v)"

text \<open>What the TOML reader made of the file: the settings over their defaults, a file it could not open, or another error with its text.\<close>

datatype toml_result = TomlOk settings | TomlOpenFailure | TomlError string

definition load_settings :: "(string \<Rightarrow> toml_result) \<Rightarrow> string \<Rightarrow> error + settings" where
  "load_settings read_file_toml path =
     (case read_file_toml path of
        TomlOk s \<Rightarrow> Inr s
      | TomlOpenFailure \<Rightarrow> Inl (text_error (''failed to load settings: could not open '' @ path) ''settings.cpp'' 39)
      | TomlError text \<Rightarrow> Inl (text_error (''failed to load settings from '' @ path @ '': '' @ text) ''settings.cpp'' 41))"

subsection \<open>Log levels\<close>

datatype log_level = LvTrace | LvDebug | LvInfo | LvWarn | LvErr | LvCritical | LvOff

text \<open>The default logger, and the loggers of the categories that exist: one is cloned from the default logger when it is first used.\<close>

record log_state =
  lo_default :: log_level
  lo_sub :: "string \<rightharpoonup> log_level"

definition init_logging :: "log_state \<Rightarrow> log_state" where
  "init_logging st = st\<lparr>lo_default := LvInfo\<rparr>"

definition set_log_level :: "(string \<Rightarrow> log_level) \<Rightarrow> string \<Rightarrow> log_state \<Rightarrow> log_state" where
  "set_log_level from_str level st =
     (let l = from_str level in if l = LvOff then st\<lparr>lo_default := LvInfo\<rparr> else st\<lparr>lo_default := l\<rparr>)"

definition sub_logger :: "string \<Rightarrow> log_state \<Rightarrow> log_state" where
  "sub_logger name st = (if lo_sub st name = None then st\<lparr>lo_sub := (lo_sub st)(name \<mapsto> lo_default st)\<rparr> else st)"

definition log_categories :: "string list" where
  "log_categories = [''app'', ''sip'', ''pjsip'', ''sm'', ''rtp'', ''call'']"

definition by_category :: "string \<Rightarrow> log_state \<Rightarrow> bool \<times> log_state" where
  "by_category name st = (if name \<in> set log_categories then (True, sub_logger name st) else (False, st))"

definition set_category_level :: "(string \<Rightarrow> log_level) \<Rightarrow> string \<Rightarrow> string \<Rightarrow> log_state \<Rightarrow> log_state" where
  "set_category_level from_str name level st =
     (case by_category name st of
        (False, st) \<Rightarrow> sub_logger ''app'' st
      | (True, st) \<Rightarrow>
          let l = from_str level in
          if l = LvOff \<and> level \<noteq> ''off'' then sub_logger ''app'' st
          else st\<lparr>lo_sub := (lo_sub st)(name \<mapsto> l)\<rparr>)"

text \<open>The level a category logs at: its logger's, or that of the default logger it will be cloned from.\<close>

definition category_level :: "log_state \<Rightarrow> string \<Rightarrow> log_level" where
  "category_level st name = (case lo_sub st name of Some l \<Rightarrow> l | None \<Rightarrow> lo_default st)"

text \<open>The part of \<^verbatim>\<open>SbcApp::init_settings\<close> that sets the levels, ending with the line that logs the settings.\<close>

definition apply_log_settings :: "(string \<Rightarrow> log_level) \<Rightarrow> logging_settings \<Rightarrow> log_state \<Rightarrow> log_state" where
  "apply_log_settings from_str ls st =
     sub_logger ''app'' (fold (\<lambda>(category, level). set_category_level from_str category level) (ls_categories ls)
       (set_log_level from_str (ls_level ls) st))"

subsection \<open>Error messages stay in their buffer\<close>

lemma kMAX_simps [simp]: "kMAX_ERROR_SIZE - Suc 0 = 127" "kMAX_ERROR_SIZE = 128"
  by (simp_all add: kMAX_ERROR_SIZE_def)

lemma c_str_NUL: "NUL \<notin> set s \<Longrightarrow> c_str (s @ NUL # r) = s"
  by (induction s) (auto simp: c_str_def)

lemma NUL_notin_c_str [simp]: "NUL \<notin> set (c_str b)"
  by (auto simp: c_str_def dest: set_takeWhileD)

lemma NUL_notin_take: "NUL \<notin> set s \<Longrightarrow> NUL \<notin> set (take n s)"
  by (auto dest: in_set_takeD)

lemma take_append_take: "take n (xs @ take n ys) = take n (xs @ ys)"
  by (simp add: min_def)

text \<open>A buffer that holds a text: the text, cut at 127 characters, and NULs up to its end.\<close>

definition holds_text :: "string \<Rightarrow> string \<Rightarrow> bool" where
  "holds_text t buf \<longleftrightarrow> buf = take 127 t @ replicate (128 - length (take 127 t)) NUL"

lemma holds_text_facts:
  assumes "holds_text t buf"
  shows "length buf = 128" "buf ! 127 = NUL" "NUL \<notin> set t \<Longrightarrow> c_str buf = take 127 t"
proof -
  have r: "replicate (128 - length (take 127 t)) NUL = NUL # replicate (127 - length (take 127 t)) NUL"
    by (cases "length (take 127 t) \<le> 127") (simp_all add: Suc_diff_le flip: replicate_Suc)
  with assms show "length buf = 128" by (simp add: holds_text_def)
  show "buf ! 127 = NUL" using assms by (simp add: holds_text_def nth_append)
  show "c_str buf = take 127 t" if "NUL \<notin> set t"
    using assms r that by (simp add: holds_text_def c_str_NUL NUL_notin_take)
qed

lemma NUL_in_padding: "(replicate n NUL)[i := NUL] = replicate n NUL"
  by (induction n arbitrary: i) (auto split: nat.split)

lemma update_in_padding: "length s \<le> i \<Longrightarrow> (s @ replicate n NUL) [i := NUL] = s @ replicate n NUL"
  by (simp add: list_update_append NUL_in_padding)

lemma format_buffer_holds: "holds_text t (format_buffer t)"
proof -
  have "drop (length (take 127 t)) (replicate 128 NUL) = replicate (128 - length (take 127 t)) NUL" by simp
  then show ?thesis by (simp add: holds_text_def format_buffer_def format_to_n_def empty_buffer_def update_in_padding Let_def)
qed

lemma enrich_holds: "holds_text (t @ '' -> '' @ error_message e) (er_buffer (enrich t e))"
proof (cases "length t < 127")
  case True
  let ?m = "'' -> '' @ error_message e" and ?k = "length t"
  have "er_buffer (enrich t e) = (t @ take (127 - ?k) ?m @ replicate (128 - ?k - length (take (127 - ?k) ?m)) NUL)"
    using True update_in_padding [of "t @ take (127 - ?k) ?m" "?k + length (take (127 - ?k) ?m)"]
    by (simp add: enrich_def format_to_n_def empty_buffer_def error_message_def Let_def)
  then show ?thesis using True by (simp add: holds_text_def)
next
  case False
  then have "take 127 (t @ '' -> '' @ error_message e) = take 127 t" by simp
  moreover have "er_buffer (enrich t e) = take 127 t @ replicate (128 - length (take 127 t)) NUL"
    using False by (simp add: enrich_def format_to_n_def empty_buffer_def update_in_padding [where n = 1, simplified] Let_def)
  ultimately show ?thesis by (simp add: holds_text_def)
qed

text \<open>The array of an error: 128 characters, the last of them NUL.\<close>

definition wf_error :: "error \<Rightarrow> bool" where
  "wf_error e \<longleftrightarrow> length (er_buffer e) = kMAX_ERROR_SIZE \<and> er_buffer e ! 127 = NUL"

lemma holds_wf: "holds_text t (er_buffer e) \<Longrightarrow> wf_error e"
  by (simp add: wf_error_def holds_text_facts)

text \<open>C40: Every error is well formed, however it was made, enriched and cleared: its buffer has its 128 characters and ends with a NUL, so that
  reading the message stays inside it. The message after any chain of enrichments is the whole chain, newest context
  first, joined by arrows and cut at 127 characters, with nothing lost before the cut; the code and the location are those of the first error.\<close>

theorem errors_well_formed:
  assumes "NUL \<notin> set t" and "\<forall>c \<in> set contexts. NUL \<notin> set c"
  shows "let e = fold enrich contexts (code_text_error errc t file line) in
    wf_error e \<and> wf_error (error_clear e) \<and> wf_error (code_error errc file line) \<and> error_message (error_clear e) = [] \<and>
    error_message e = take 127 (fold (\<lambda>c m. c @ '' -> '' @ m) contexts t) \<and> er_code e = errc \<and> er_file e = file \<and> er_line e = line"
proof -
  define chain where "chain cs = fold (\<lambda>c m. c @ '' -> '' @ m) cs t" for cs
  define err where "err cs = fold enrich cs (code_text_error errc t file line)" for cs
  have ok: "holds_text (chain cs) (er_buffer (err cs)) \<and> NUL \<notin> set (chain cs) \<and> er_code (err cs) = errc \<and> er_file (err cs) = file \<and>
      er_line (err cs) = line" if "set cs \<subseteq> set contexts" for cs
    using that
  proof (induction cs rule: rev_induct)
    case Nil
    then show ?case using assms(1) by (simp add: chain_def err_def code_text_error_def format_buffer_holds)
  next
    case (snoc c cs)
    let ?e = "err cs"
    have c: "NUL \<notin> set c" "holds_text (chain cs) (er_buffer ?e)" "NUL \<notin> set (chain cs)" using snoc assms(2) by auto
    have "error_message ?e = take 127 (chain cs)" using holds_text_facts(3) [OF c(2,3)] by (simp add: error_message_def)
    then have "take 127 (c @ '' -> '' @ error_message ?e) = take 127 (chain (cs @ [c]))" using take_append_take [of 127 "c @ '' -> ''"] by (simp add: chain_def del: take_append)
    then have "holds_text (chain (cs @ [c])) (er_buffer (err (cs @ [c])))"
      using enrich_holds [of c ?e] by (simp add: holds_text_def err_def)
    moreover have "er_code (enrich c ?e) = er_code ?e" "er_file (enrich c ?e) = er_file ?e" "er_line (enrich c ?e) = er_line ?e"
      by (simp_all add: enrich_def Let_def split: prod.split)
    ultimately show ?case using snoc c by (simp add: err_def chain_def)
  qed
  let ?e = "err contexts"
  have e: "holds_text (chain contexts) (er_buffer ?e)" "NUL \<notin> set (chain contexts)" "wf_error ?e" using ok [of contexts] holds_wf by auto
  have "er_buffer ?e \<noteq> []" using e(3) by (auto simp: wf_error_def)
  then have "wf_error (error_clear ?e)" "error_message (error_clear ?e) = []"
    using e(3) by (auto simp: wf_error_def error_clear_def error_message_def c_str_def neq_Nil_conv)
  moreover have "wf_error (code_error errc file line)" by (simp add: wf_error_def code_error_def empty_buffer_def)
  ultimately show ?thesis
    using e ok [of contexts] holds_text_facts(3) [OF e(1,2)] by (simp add: err_def chain_def error_message_def Let_def)
qed

theorem errors_well_formed_witness:
  "error_message (enrich ''call setup failed'' (code_text_error 5 ''connect refused'' ''a.cpp'' 7)) = ''call setup failed -> connect refused''"
  using errors_well_formed [of "''connect refused''" "[''call setup failed'']" 5 "''a.cpp''" 7] by (simp add: Let_def)

subsection \<open>The level of PJSIP's own log\<close>

lemma utoa_digit: "n < 10 \<Longrightarrow> utoa n = [char_of (48 + n)]"
  by (simp add: utoa.simps)

text \<open>The configured level always yields one of PJSIP's levels 0 to 6, each of them can be chosen by its number, and whatever else stands there,
  \<^verbatim>\<open>disabled\<close>, text after a number, a number out of range or no number at all, turns the log off.\<close>

theorem pjsip_level_resolved:
  "resolve_pjsip_log_level level \<in> {0..6} \<and>
   (\<forall>n \<in> {0..6}. resolve_pjsip_log_level (format_int n) = n) \<and>
   (resolve_pjsip_log_level level \<noteq> 0 \<longrightarrow> level \<noteq> ''disabled'' \<and> from_chars_int level = Some (resolve_pjsip_log_level level, []))"
proof (intro conjI ballI)
  show "resolve_pjsip_log_level level \<in> {0..6}"
    by (auto simp: resolve_pjsip_log_level_def kMaxPjLogLevel_def split: option.split)
  show "resolve_pjsip_log_level level \<noteq> 0 \<longrightarrow> level \<noteq> ''disabled'' \<and> from_chars_int level = Some (resolve_pjsip_log_level level, [])"
    by (auto simp: resolve_pjsip_log_level_def split: option.splits if_splits)
  fix n :: int
  assume "n \<in> {0..6}"
  then have "n \<in> {0, 1, 2, 3, 4, 5, 6}" by auto
  then show "resolve_pjsip_log_level (format_int n) = n"
    by (elim insertE emptyE; simp add: format_int_def utoa_digit resolve_pjsip_log_level_def from_chars_int_def
        is_dec_digit_def digits_value_def kMaxPjLogLevel_def char_of_def bit_0)
qed

subsection \<open>Log levels apply to their categories\<close>

text \<open>A level of a category that is applied: spdlog's name of a level, \<^verbatim>\<open>off\<close> included.\<close>

definition valid_level :: "(string \<Rightarrow> log_level) \<Rightarrow> string \<Rightarrow> bool" where
  "valid_level from_str level \<longleftrightarrow> from_str level \<noteq> LvOff \<or> level = ''off''"

lemma sub_logger_level [simp]: "category_level (sub_logger name st) c = category_level st c" "lo_default (sub_logger name st) = lo_default st"
  by (simp_all add: sub_logger_def category_level_def split: option.split)

lemma set_category_level:
  "lo_default (set_category_level from_str name level st) = lo_default st"
  "category_level (set_category_level from_str name level st) c =
     (if c = name \<and> name \<in> set log_categories \<and> valid_level from_str level then from_str level else category_level st c)"
  by (auto simp: set_category_level_def by_category_def valid_level_def Let_def)
    (auto simp: category_level_def sub_logger_def split: option.splits)

text \<open>C0: After start-up every log category is at the level its entry in the settings names, and a category without an entry,
  or whose entry is not the name of a level, at the level configured for the whole engine, which is \<^verbatim>\<open>info\<close> when that name is not
  one spdlog knows or turns logging off. Entries for unknown categories change nothing.\<close>

theorem log_levels_applied:
  assumes "distinct (map fst (ls_categories ls))" and "lo_sub st = Map.empty" and "c \<in> set log_categories"
  shows "category_level (apply_log_settings from_str ls st) c =
    (case map_of (ls_categories ls) c of
       Some level \<Rightarrow> if valid_level from_str level then from_str level else lo_default (set_log_level from_str (ls_level ls) st)
     | None \<Rightarrow> lo_default (set_log_level from_str (ls_level ls) st))"
proof -
  have "category_level (fold (\<lambda>(category, level). set_category_level from_str category level) cs st) c =
      (case map_of cs c of Some level \<Rightarrow> if valid_level from_str level then from_str level else category_level st c | None \<Rightarrow> category_level st c)"
    if "distinct (map fst cs)" for cs st
    using that
  proof (induction cs arbitrary: st)
    case (Cons x cs)
    then have "c = fst x \<Longrightarrow> map_of cs c = None" by (auto simp: map_of_eq_None_iff)
    with Cons assms(3) show ?case by (cases x) (auto simp: set_category_level split: option.split)
  qed simp
  moreover have "category_level (set_log_level from_str (ls_level ls) st) c = lo_default (set_log_level from_str (ls_level ls) st)"
    using assms(2) by (simp add: category_level_def set_log_level_def Let_def)
  ultimately show ?thesis using assms(1) by (simp add: apply_log_settings_def split: option.split)
qed

theorem log_levels_applied_witness:
  "category_level (apply_log_settings (\<lambda>l. if l = ''warn'' then LvWarn else if l = ''debug'' then LvDebug else LvOff)
     \<lparr>ls_level = ''debug'', ls_pjsip_level = ''disabled'', ls_categories = [(''rtp'', ''off''), (''sip'', ''warn'')]\<rparr>
     \<lparr>lo_default = LvInfo, lo_sub = Map.empty\<rparr>) ''sip'' = LvWarn"
  using log_levels_applied [where c = "''sip''" and st = "\<lparr>lo_default = LvInfo, lo_sub = Map.empty\<rparr>" and
      ls = "\<lparr>ls_level = ''debug'', ls_pjsip_level = ''disabled'', ls_categories = [(''rtp'', ''off''), (''sip'', ''warn'')]\<rparr>" and
      from_str = "\<lambda>l. if l = ''warn'' then LvWarn else if l = ''debug'' then LvDebug else LvOff"]
  by (simp add: log_categories_def valid_level_def)

end
