(* ===== verification/Sbc_App.thy ===== *)
theory Sbc_App
  imports Message_Router Control_Plane Core_Utils
begin

text \<open>
  The process around the router: the wrappers of the SIP stack, \<^verbatim>\<open>engine/src/sip/stack/pjsip_init.cpp\<close>, and of the media
  library, \<^verbatim>\<open>net/rtp/pjmedia_endpoint.cpp\<close>, and the application, \<^verbatim>\<open>engine/src/sbc_app.cpp\<close>: start-up, the event loop
  with its signal handler, and the shutdown sequence. What the initialisation functions of PJSIP return is a parameter, a status for
  each; the events of the loop are given turn by turn, those of the executor's thread among them.
\<close>

subsection \<open>Bringing up the SIP stack\<close>

type_synonym pj_statuses = "string \<Rightarrow> int"

record pjsip_config =
  pc_bind_ip :: string
  pc_local_ip :: string
  pc_sip_port :: "16 word"
  pc_pjsip_log_level :: int
  pc_identity_user :: string
  pc_invite_timeout_ms :: int
  pc_rtp_inactivity_timeout_s :: int
  pc_max_hold_duration_s :: int

record pjsip_stack =
  ps_initialized :: bool
  ps_running :: bool
  ps_endpt :: bool
  ps_router :: bool
  ps_module_id :: int
  ps_active :: bool

definition new_stack :: pjsip_stack where
  "new_stack = \<lparr>ps_initialized = False, ps_running = False, ps_endpt = False, ps_router = False, ps_module_id = 0, ps_active = False\<rparr>"

text \<open>A call of the library that returns a status, with what it does when it succeeds; a sequence of them stops at the first failure.\<close>

type_synonym 's attempt = "'s \<Rightarrow> error option \<times> 's"

definition attempt :: "(int \<Rightarrow> string) \<Rightarrow> string \<Rightarrow> int \<Rightarrow> ('s \<Rightarrow> 's) \<Rightarrow> 's attempt" where
  "attempt strerror what status f st = (if status \<noteq> 0 then (Some (pj_error strerror what status), st) else (None, f st))"

fun attempts :: "'s attempt list \<Rightarrow> 's attempt" where
  "attempts [] st = (None, st)"
| "attempts (a # as) st = (case a st of (None, st') \<Rightarrow> attempts as st' | (Some e, st') \<Rightarrow> (Some e, st'))"

definition start_transport :: "(int \<Rightarrow> string) \<Rightarrow> pj_statuses \<Rightarrow> pjsip_config \<Rightarrow> pjsip_stack attempt" where
  "start_transport strerror status cfg =
     attempts ((if pc_bind_ip cfg \<noteq> ''0.0.0.0'' then [attempt strerror ''invalid bind_ip'' (status ''pj_sockaddr_in_set_str_addr'') id] else []) @
       [attempt strerror ''pjsip_udp_transport_start failed'' (status ''pjsip_udp_transport_start'') id])"

text \<open>The registration of the module gives it its id.\<close>

definition stack_init :: "(int \<Rightarrow> string) \<Rightarrow> pj_statuses \<Rightarrow> int \<Rightarrow> pjsip_config \<Rightarrow> pjsip_stack attempt" where
  "stack_init strerror status assigned_id cfg =
     (let call = (\<lambda>f. attempt strerror (f @ '' failed'') (status f)) in
      attempts
       [call ''pj_init'' id, call ''pjlib_util_init'' id, call ''pjsip_endpt_create'' (\<lambda>st. st\<lparr>ps_endpt := True\<rparr>),
        start_transport strerror status cfg, call ''pjsip_tsx_layer_init_module'' id, call ''pjsip_ua_init_module'' id,
        call ''pjsip_inv_usage_init'' id, call ''pjsip_timer_init_module'' id, call ''pjsip_100rel_init_module'' id,
        call ''pjsip_evsub_init_module'' id, call ''pjsip_xfer_init_module'' id,
        call ''pjsip_replaces_init_module'' (\<lambda>st. st\<lparr>ps_module_id := -1\<rparr>),
        call ''pjsip_endpt_register_module'' (\<lambda>st. st\<lparr>ps_module_id := assigned_id\<rparr>),
        call ''pjsip_endpt_add_capability'' (\<lambda>st. st\<lparr>ps_active := True, ps_initialized := True\<rparr>)])"

definition stack_stop :: "pjsip_stack \<Rightarrow> pjsip_stack" where
  "stack_stop st = st\<lparr>ps_running := False, ps_router := False\<rparr>"

definition stack_shutdown :: "pjsip_stack \<Rightarrow> pjsip_stack" where
  "stack_shutdown st =
     (if \<not> ps_initialized st then st
      else st\<lparr>ps_initialized := False, ps_running := False, ps_endpt := False, ps_active := False\<rparr>)"

subsection \<open>The media endpoint\<close>

text \<open>What the endpoint holds of the library: references from \<^verbatim>\<open>pj_init\<close>, the pool, the endpoint and the two codec factories.\<close>

record pjmedia_endpoint =
  pe_initialized :: bool
  pe_pj_refs :: int
  pe_pool :: bool
  pe_endpt :: bool
  pe_g711 :: bool
  pe_g722 :: bool

definition new_endpoint :: pjmedia_endpoint where
  "new_endpoint = \<lparr>pe_initialized = False, pe_pj_refs = 0, pe_pool = False, pe_endpt = False, pe_g711 = False, pe_g722 = False\<rparr>"

definition endpoint_init :: "(int \<Rightarrow> string) \<Rightarrow> pj_statuses \<Rightarrow> pjmedia_endpoint attempt" where
  "endpoint_init strerror status pe =
     (let failed = (\<lambda>f. Some (pj_error strerror (f @ '' failed'') (status f))) in
      if status ''pj_init'' \<noteq> 0 then (failed ''pj_init'', pe)
      else
        let pe = pe\<lparr>pe_pj_refs := pe_pj_refs pe + 1, pe_pool := True\<rparr> in
        if status ''pjmedia_endpt_create2'' \<noteq> 0 then (failed ''pjmedia_endpt_create2'', pe\<lparr>pe_pool := False\<rparr>)
        else
          let pe = pe\<lparr>pe_endpt := True\<rparr> in
          if status ''pjmedia_codec_g711_init'' \<noteq> 0 then (failed ''pjmedia_codec_g711_init'', pe\<lparr>pe_endpt := False, pe_pool := False\<rparr>)
          else
            let pe = pe\<lparr>pe_g711 := True\<rparr> in
            if status ''pjmedia_codec_g722_init'' \<noteq> 0 then
              (failed ''pjmedia_codec_g722_init'', pe\<lparr>pe_g711 := False, pe_endpt := False, pe_pool := False\<rparr>)
            else (None, pe\<lparr>pe_g722 := True, pe_initialized := True\<rparr>))"

definition endpoint_shutdown :: "pjmedia_endpoint \<Rightarrow> pjmedia_endpoint" where
  "endpoint_shutdown pe =
     (if \<not> pe_initialized pe then pe
      else pe\<lparr>pe_initialized := False, pe_g722 := False, pe_g711 := False, pe_endpt := False, pe_pool := False, pe_pj_refs := pe_pj_refs pe - 1\<rparr>)"

subsection \<open>Callbacks of the stack\<close>

definition active_router :: "pjsip_stack \<Rightarrow> bool" where
  "active_router st \<longleftrightarrow> ps_active st \<and> ps_router st"

text \<open>The result is what the stack is told: whether the module claims a request, whether a re-INVITE was taken on.\<close>

definition stack_on_rx_request ::
  "pjsip_stack \<Rightarrow> ('p, 'u) sip_library \<Rightarrow> ('p, 'st) engine_env \<Rightarrow> 'u register_request sip_request \<Rightarrow> 'p message_router \<Rightarrow>
     (bool \<times> 'p message_router) option" where
  "stack_on_rx_request st L E rq R = (if \<not> active_router st then Some (False, R) else on_rx_request L E rq R)"

text \<open>A transaction event as \<^verbatim>\<open>on_tsx_state\<close> reads it: the state of the transaction, the kind of the event, and the message when the event was the
  receipt of one: whether it is a request in a dialog, its method, and what a REFER asks for.\<close>

record tsx_event =
  te_trying :: bool
  te_is_tsx_state :: bool
  te_rx_msg :: bool
  te_in_dialog :: bool
  te_method :: string
  te_refer :: refer_request

definition stack_on_tsx_state ::
  "pjsip_stack \<Rightarrow> ('p, 'u) sip_library \<Rightarrow> ('p, 'st) engine_env \<Rightarrow> tsx_event \<Rightarrow> 'p message_router \<Rightarrow> 'p message_router option" where
  "stack_on_tsx_state st L E ev R =
     (if \<not> active_router st \<or> \<not> te_trying ev \<or> \<not> te_is_tsx_state ev then Some R
      else if \<not> te_rx_msg ev then Some R
      else if te_in_dialog ev \<and> te_method ev = ''REFER'' then on_rx_refer L E (te_refer ev) R
      else Some R)"

text \<open>The event behind a change of an invite session: a transaction event, the receipt of a message, and the message.\<close>

record inv_event =
  ie_is_tsx_state :: bool
  ie_is_rx_msg :: bool
  ie_rdata :: rx_data

definition stack_on_inv_state_changed ::
  "pjsip_stack \<Rightarrow> ('p, 'u) sip_library \<Rightarrow> ('p, 'st) engine_env \<Rightarrow> inv \<Rightarrow> inv_event option \<Rightarrow> 'p message_router \<Rightarrow> 'p message_router option" where
  "stack_on_inv_state_changed st L E i event R =
     (if \<not> active_router st then Some R
      else
        let rdata = (case event of None \<Rightarrow> None | Some ev \<Rightarrow> if ie_is_tsx_state ev \<and> ie_is_rx_msg ev then Some (ie_rdata ev) else None) in
        on_inv_state_changed L E i rdata R)"

definition stack_on_rx_reinvite ::
  "pjsip_stack \<Rightarrow> ('p, 'u) sip_library \<Rightarrow> ('p, 'st) engine_env \<Rightarrow> inv \<Rightarrow> sdp_session option \<Rightarrow> rx_data \<Rightarrow> 'p message_router \<Rightarrow>
     (bool \<times> 'p message_router) option" where
  "stack_on_rx_reinvite st L E i offer rdata R =
     (if \<not> active_router st then Some (False, R) else on_rx_reinvite L E i offer rdata R)"

definition stack_on_rx_offer2 ::
  "pjsip_stack \<Rightarrow> ('p, 'u) sip_library \<Rightarrow> ('p, 'st) engine_env \<Rightarrow> inv \<Rightarrow> sdp_session option \<Rightarrow> rx_data \<Rightarrow> 'p message_router \<Rightarrow>
     'p message_router option" where
  "stack_on_rx_offer2 st L E i offer rdata R = (if \<not> active_router st then Some R else on_rx_offer L E i offer rdata R)"

definition stack_on_create_offer :: "pjsip_stack \<Rightarrow> ('p, 'st) engine_env \<Rightarrow> inv \<Rightarrow> 'p message_router \<Rightarrow> sdp_session option" where
  "stack_on_create_offer st E i R = (if \<not> active_router st then None else router_on_create_offer E i R)"

definition stack_on_inv_media_update ::
  "pjsip_stack \<Rightarrow> ('p, 'u) sip_library \<Rightarrow> ('p, 'st) engine_env \<Rightarrow> inv \<Rightarrow> bool \<Rightarrow> 'p message_router \<Rightarrow> 'p message_router option" where
  "stack_on_inv_media_update st L E i success R = (if \<not> active_router st then Some R else on_inv_media_update L E i success R)"

subsection \<open>Starting the application\<close>

record 'p sbc_app =
  ap_log :: log_state
  ap_binding_sweep_interval_s :: int
  ap_config :: pjsip_config
  ap_stack :: pjsip_stack
  ap_media :: pjmedia_endpoint
  ap_router :: "'p message_router"
  ap_client :: "cp_client option"
  ap_asio_thread :: bool
  ap_instance :: bool

text \<open>What the process finds around it at its start. The last field is what the executor's thread handles while the main thread waits for the first snapshot.\<close>

record startup_env =
  su_read_toml :: "string \<Rightarrow> toml_result"
  su_from_str :: "string \<Rightarrow> log_level"
  su_strerror :: "int \<Rightarrow> string"
  su_sip_status :: pj_statuses
  su_media_status :: pj_statuses
  su_thread_status :: int
  su_module_id :: int
  su_executor :: "cp_event list"

definition default_config :: pjsip_config where
  "default_config = \<lparr>pc_bind_ip = ''0.0.0.0'', pc_local_ip = ''127.0.0.1'', pc_sip_port = 5060, pc_pjsip_log_level = 0, pc_identity_user = ''sbc'',
     pc_invite_timeout_ms = 32000, pc_rtp_inactivity_timeout_s = 60, pc_max_hold_duration_s = 0\<rparr>"

definition new_app :: "(nat \<Rightarrow> int) \<Rightarrow> 'p \<Rightarrow> 'p sbc_app" where
  "new_app clock p = \<lparr>ap_log = \<lparr>lo_default = LvInfo, lo_sub = Map.empty\<rparr>, ap_binding_sweep_interval_s = 0, ap_config = default_config,
     ap_stack = new_stack, ap_media = new_endpoint,
     ap_router = new_message_router \<lparr>rg_endpt = False, rg_sink = False, rg_users = [], rg_bindings = [], rg_min_expires_s = 0, rg_max_expires_s = 0,
       rg_clock = clock, rg_ticks = 0, rg_sent = [], rg_mirrored = []\<rparr> (-1) p,
     ap_client = None, ap_asio_thread = False, ap_instance = False\<rparr>"

text \<open>A step of the start ends the process with a message or goes on.\<close>

fun or_crash :: "string + 'a \<Rightarrow> ('a \<Rightarrow> (string + 'b) option) \<Rightarrow> (string + 'b) option" where
  "or_crash (Inl message) f = Some (Inl message)"
| "or_crash (Inr a) f = f a"

definition init_settings :: "startup_env \<Rightarrow> 'p sbc_app \<Rightarrow> string + settings \<times> 'p sbc_app" where
  "init_settings S A =
     (case load_settings (su_read_toml S) ''settings.toml'' of
        Inl e \<Rightarrow> Inl (error_message e)
      | Inr s \<Rightarrow> Inr (s, A\<lparr>ap_log := apply_log_settings (su_from_str S) (st_logging s) (ap_log A)\<rparr>))"

definition pjsip_config_of :: "settings \<Rightarrow> pjsip_config" where
  "pjsip_config_of s =
     (let sip = st_sip s in \<lparr>pc_bind_ip = ss_address sip,
        pc_local_ip = (if ss_advertised_address sip = [] then ss_address sip else ss_advertised_address sip),
        pc_sip_port = ss_port sip, pc_pjsip_log_level = resolve_pjsip_log_level (ls_pjsip_level (st_logging s)),
        pc_identity_user = ss_identity_user sip, pc_invite_timeout_ms = ss_invite_timeout_ms sip,
        pc_rtp_inactivity_timeout_s = ss_rtp_inactivity_timeout_s sip, pc_max_hold_duration_s = ss_max_hold_duration_s sip\<rparr>)"

definition init_pjsip :: "startup_env \<Rightarrow> settings \<Rightarrow> 'p sbc_app \<Rightarrow> string + pjsip_config \<times> 'p sbc_app" where
  "init_pjsip S s A =
     (let cfg = pjsip_config_of s in
      case stack_init (su_strerror S) (su_sip_status S) (su_module_id S) cfg (ap_stack A) of
        (Some e, st) \<Rightarrow> Inl (error_message e)
      | (None, st) \<Rightarrow> Inr (cfg, A\<lparr>ap_stack := st\<rparr>))"

definition init_pjmedia :: "startup_env \<Rightarrow> 'p sbc_app \<Rightarrow> string + 'p sbc_app" where
  "init_pjmedia S A =
     (case endpoint_init (su_strerror S) (su_media_status S) (ap_media A) of
        (Some e, pe) \<Rightarrow> Inl (error_message e)
      | (None, pe) \<Rightarrow> Inr (A\<lparr>ap_media := pe\<rparr>))"

definition start_asio_thread :: "startup_env \<Rightarrow> 'p sbc_app \<Rightarrow> string + 'p sbc_app" where
  "start_asio_thread S A =
     (if su_thread_status S \<noteq> 0 then Inl (''failed to register RTP relay thread with pjlib ('' @ format_int (su_thread_status S) @ '')'')
      else Inr (A\<lparr>ap_asio_thread := True\<rparr>))"

definition ws_url_error :: "url_error \<Rightarrow> string \<Rightarrow> string" where
  "ws_url_error e url = error_message (case e of
       BadScheme \<Rightarrow> text_error (''control-plane ws_url must start with '' @ [CHR 0x22] @ ''ws://'' @ [CHR 0x22] @ '': '' @ url) ''ws_utils.cpp'' 11
     | MissingPort \<Rightarrow> text_error (''control-plane ws_url is missing a port: '' @ url) ''ws_utils.cpp'' 21)"

text \<open>The wait for the first snapshot ends when the latch has a value; \<open>None\<close> when it has none after all the given events.\<close>

fun await_snapshot :: "cp_event list \<Rightarrow> cp_client \<Rightarrow> (latch_result \<times> cp_client) option" where
  "await_snapshot [] cl = map_option (\<lambda>v. (v, cl)) (fl_value (cl_latch cl))"
| "await_snapshot (e # es) cl =
     (case fl_value (cl_latch cl) of Some v \<Rightarrow> Some (v, cl) | None \<Rightarrow> await_snapshot es (cp_step cl e))"

definition update_registrar :: "(registrar \<Rightarrow> registrar) \<Rightarrow> 'p sbc_app \<Rightarrow> 'p sbc_app" where
  "update_registrar f A = A\<lparr>ap_router := (ap_router A)\<lparr>mr_registrar := f (mr_registrar (ap_router A))\<rparr>\<rparr>"

definition init_control_plane :: "startup_env \<Rightarrow> settings \<Rightarrow> 'p sbc_app \<Rightarrow> (string + 'p sbc_app) option" where
  "init_control_plane S s A =
     (let url = cps_ws_url (st_control_plane s) in
      case parse_ws_url url of
        Inl e \<Rightarrow> Some (Inl (ws_url_error e url))
      | Inr endpoint \<Rightarrow>
          let A = update_registrar (\<lambda>rg. rg\<lparr>rg_sink := True\<rparr>) A in
          case await_snapshot (EvStart # su_executor S) (new_client \<lparr>sn_table_id = [], sn_version = 0, sn_routes = []\<rparr> []) of
            None \<Rightarrow> None
          | Some (LatchError message, cl) \<Rightarrow> Some (Inl message)
          | Some (LatchOk, cl) \<Rightarrow> Some (Inr (A\<lparr>ap_client := Some cl\<rparr>)))"

definition init_context :: "pjsip_config \<Rightarrow> 'p sbc_app \<Rightarrow> 'p sbc_app" where
  "init_context cfg A =
     (let A = update_registrar (\<lambda>rg. rg\<lparr>rg_endpt := ps_endpt (ap_stack A)\<rparr>) (A\<lparr>ap_config := cfg\<rparr>);
          R = ap_router A in
      A\<lparr>ap_router := set_manager ((router_manager R)\<lparr>mg_module_id := ps_module_id (ap_stack A)\<rparr>) R,
        ap_stack := (ap_stack A)\<lparr>ps_router := True\<rparr>\<rparr>)"

definition init_signal_handlers :: "'p sbc_app \<Rightarrow> 'p sbc_app" where
  "init_signal_handlers A = A\<lparr>ap_instance := True\<rparr>"

text \<open>\<open>None\<close>: the main thread is still waiting for the control plane.\<close>

definition app_init :: "startup_env \<Rightarrow> 'p sbc_app \<Rightarrow> (string + 'p sbc_app) option" where
  "app_init S A =
     or_crash (init_settings S (A\<lparr>ap_log := init_logging (ap_log A)\<rparr>)) (\<lambda>(s, A).
       let rs = st_registrar s;
           A = update_registrar (\<lambda>rg. rg\<lparr>rg_min_expires_s := rs_min_expires_s rs, rg_max_expires_s := rs_max_expires_s rs\<rparr>)
             (A\<lparr>ap_binding_sweep_interval_s := rs_binding_sweep_interval_s rs\<rparr>) in
       or_crash (init_pjsip S s A) (\<lambda>(cfg, A).
       or_crash (init_pjmedia S A) (\<lambda>A.
       or_crash (start_asio_thread S A) (\<lambda>A.
         case init_control_plane S s A of
           None \<Rightarrow> None
         | Some r \<Rightarrow> or_crash r (\<lambda>A. Some (Inr (init_signal_handlers (init_context cfg A))))))))"

subsection \<open>The event loop\<close>

text \<open>The environment of the calls, as the application wires it up: its configuration, the routes the client has stored, and the client as the sink of call events.\<close>

definition app_env :: "'p sbc_app \<Rightarrow> ('p, 'st) engine_env \<Rightarrow> ('p, 'st) engine_env" where
  "app_env A E =
     (let cfg = ap_config A in
      E\<lparr>en_config := \<lparr>cf_local_ip = pc_local_ip cfg, cf_sip_port = uint (pc_sip_port cfg), cf_identity_user = pc_identity_user cfg,
          cf_max_hold_duration_s = pc_max_hold_duration_s cfg\<rparr>,
        en_stores := (en_stores E)\<lparr>ro_routes := map_option cl_routes (ap_client A)\<rparr>,
        en_has_event_sink := (ap_client A \<noteq> None), en_module_id := ps_module_id (ap_stack A), en_has_pjmedia_endpoint := True\<rparr>)"

text \<open>The router as a callback finds it: the users are those the client has stored, the stack is as it has moved on to.\<close>

definition app_router :: "'p \<Rightarrow> 'p sbc_app \<Rightarrow> 'p message_router" where
  "app_router p A =
     (let R = ap_router A; R = set_manager ((router_manager R)\<lparr>mg_pj := p\<rparr>) R in
      case ap_client A of None \<Rightarrow> R | Some cl \<Rightarrow> R\<lparr>mr_registrar := (mr_registrar R)\<lparr>rg_users := cl_users cl\<rparr>\<rparr>)"

datatype 'u app_event =
    RxRequest "'u register_request sip_request"
  | TsxState tsx_event
  | InvStateChanged inv "inv_event option"
  | RxReinvite inv "sdp_session option" rx_data
  | RxOffer2 inv "sdp_session option" rx_data
  | InvMediaUpdate inv bool
  | XferCallback session_ref refer_callback
  | InactivityWait bool bool
  | SweepWait bool bool
  | ClientEvent cp_event
  | Signal

definition handle_signal :: "'p sbc_app \<Rightarrow> 'p sbc_app" where
  "handle_signal A = (if ap_instance A then A\<lparr>ap_stack := stack_stop (ap_stack A)\<rparr> else A)"

definition on_router :: "('p message_router \<Rightarrow> 'p message_router option) \<Rightarrow> 'p \<Rightarrow> 'p sbc_app \<Rightarrow> 'p sbc_app option" where
  "on_router f p A = map_option (\<lambda>R. A\<lparr>ap_router := R\<rparr>) (f (app_router p A))"

fun app_step :: "('p, 'u) sip_library \<Rightarrow> ('p, 'st) engine_env \<Rightarrow> 'p \<Rightarrow> 'u app_event \<Rightarrow> 'p sbc_app \<Rightarrow> 'p sbc_app option" where
  "app_step L E p (RxRequest rq) A = on_router (\<lambda>R. map_option snd (stack_on_rx_request (ap_stack A) L (app_env A E) rq R)) p A"
| "app_step L E p (TsxState ev) A = on_router (stack_on_tsx_state (ap_stack A) L (app_env A E) ev) p A"
| "app_step L E p (InvStateChanged i ev) A = on_router (stack_on_inv_state_changed (ap_stack A) L (app_env A E) i ev) p A"
| "app_step L E p (RxReinvite i offer rdata) A =
     on_router (\<lambda>R. map_option snd (stack_on_rx_reinvite (ap_stack A) L (app_env A E) i offer rdata R)) p A"
| "app_step L E p (RxOffer2 i offer rdata) A = on_router (stack_on_rx_offer2 (ap_stack A) L (app_env A E) i offer rdata) p A"
| "app_step L E p (InvMediaUpdate i success) A = on_router (stack_on_inv_media_update (ap_stack A) L (app_env A E) i success) p A"
| "app_step L E p (XferCallback ref k) A = on_router (router_step L (app_env A E) (TransferIn ref k)) p A"
| "app_step L E p (InactivityWait aborted error) A = on_router (router_step L (app_env A E) (InactivityTimerIn aborted error)) p A"
| "app_step L E p (SweepWait aborted error) A = on_router (router_step L (app_env A E) (SweepTimerIn aborted error)) p A"
| "app_step L E p (ClientEvent e) A = Some (A\<lparr>ap_client := map_option (\<lambda>cl. cp_step cl e) (ap_client A)\<rparr>)"
| "app_step L E p Signal A = Some (handle_signal A)"

type_synonym ('p, 'u, 'st) occurrence = "('p, 'u) sip_library \<times> ('p, 'st) engine_env \<times> 'p \<times> 'u app_event"

fun app_steps :: "('p, 'u, 'st) occurrence list \<Rightarrow> 'p sbc_app \<Rightarrow> 'p sbc_app option" where
  "app_steps [] A = Some A"
| "app_steps ((L, E, p, ev) # evs) A = do { A' \<leftarrow> app_step L E p ev A; app_steps evs A' }"

text \<open>A turn of the loop: what happens while the stack handles its events, and the library, environment and stack of the scans after it.\<close>

type_synonym ('p, 'u, 'st) turn = "('p, 'u, 'st) occurrence list \<times> ('p, 'u) sip_library \<times> ('p, 'st) engine_env \<times> 'p"

fun loop_turn :: "('p, 'u, 'st) turn \<Rightarrow> 'p sbc_app \<Rightarrow> 'p sbc_app option" where
  "loop_turn (evs, L, E, p) A = do {
     A' \<leftarrow> app_steps evs A;
     if ps_router (ap_stack A') then on_router (process_pending_media_events L (app_env A' E)) p A' else Some A' }"

fun stack_loop :: "('p, 'u, 'st) turn list \<Rightarrow> 'p sbc_app \<Rightarrow> 'p sbc_app option" where
  "stack_loop [] A = Some A"
| "stack_loop (t # ts) A = (if ps_running (ap_stack A) then do { A' \<leftarrow> loop_turn t A; stack_loop ts A' } else Some A)"

definition stack_run :: "('p, 'u, 'st) turn list \<Rightarrow> 'p sbc_app \<Rightarrow> 'p sbc_app option" where
  "stack_run ts A =
     (if \<not> ps_initialized (ap_stack A) then Some A else stack_loop ts (A\<lparr>ap_stack := (ap_stack A)\<lparr>ps_running := True\<rparr>\<rparr>))"

subsection \<open>Running and shutting down\<close>

definition seconds :: "int \<Rightarrow> int" where
  "seconds n = n * 1000000000"

definition start_timers :: "'p sbc_app \<Rightarrow> 'p sbc_app" where
  "start_timers A =
     (let R = ap_router A; inactivity = pc_rtp_inactivity_timeout_s (ap_config A); sweep_s = ap_binding_sweep_interval_s A;
          R = (if inactivity > 0 then set_manager (start_rtp_inactivity_timer (seconds inactivity) (router_manager R)) R else R);
          R = (if sweep_s > 0 then start_binding_sweep_timer (seconds sweep_s) R else R) in
      A\<lparr>ap_router := R\<rparr>)"

text \<open>The call events sent while a table went from one state to another, in the order of the table.\<close>

definition new_call_events :: "'p call_manager \<Rightarrow> 'p call_manager \<Rightarrow> call_event list" where
  "new_call_events M M' = concat (map (\<lambda>(call_id, c'). case find_by_call_id call_id M of
       None \<Rightarrow> [] | Some c \<Rightarrow> drop (length (cs_call_events c)) (cs_call_events c')) (mg_sessions M'))"

text \<open>Tasks posted to the executor run in their order, with its other work in the gaps before each.\<close>

definition run_posted :: "(nat \<Rightarrow> cp_event list) \<Rightarrow> cp_event list \<Rightarrow> cp_client \<Rightarrow> cp_client" where
  "run_posted gaps tasks cl = foldl cp_step cl (concat (map (\<lambda>(i, task). gaps i @ [task]) (enumerate 0 tasks)))"

text \<open>The wait of \<^verbatim>\<open>flush\<close>: until the queue has drained, or for what the executor does within the timeout.\<close>

fun await_flush :: "cp_event list \<Rightarrow> cp_client \<Rightarrow> cp_client" where
  "await_flush [] cl = cl"
| "await_flush (e # es) cl = (if cl_flush_waiter cl then await_flush es (cp_step cl e) else cl)"

text \<open>Serialising a call event is a library's; it may fail.\<close>

type_synonym call_encoder = "call_event \<Rightarrow> string option"

definition client_shutdown :: "call_encoder \<Rightarrow> (nat \<Rightarrow> cp_event list) \<Rightarrow> cp_event list \<Rightarrow> call_event list \<Rightarrow> cp_client \<Rightarrow> cp_client" where
  "client_shutdown encode gaps es events cl =
     cp_step (await_flush es (run_posted gaps (map (\<lambda>ev. EvEnqueue (encode ev) False) events @ [EvFlush]) cl)) EvStop"

definition app_shutdown ::
  "('p, 'u) sip_library \<Rightarrow> ('p, 'st) engine_env \<Rightarrow> 'p \<Rightarrow> call_encoder \<Rightarrow> (nat \<Rightarrow> cp_event list) \<Rightarrow> cp_event list \<Rightarrow> 'p sbc_app \<Rightarrow>
     'p sbc_app option" where
  "app_shutdown L E p encode gaps es A =
     (let R = app_router p A in do {
      M \<leftarrow> terminate_established_calls (sl_xfer L) (shared_stores R (app_env A E)) (router_manager R);
      Some (A\<lparr>ap_router := stop_binding_sweep_timer (set_manager M R),
              ap_client := map_option (client_shutdown encode gaps es (new_call_events (router_manager R) M)) (ap_client A),
              ap_asio_thread := False\<rparr>) })"

text \<open>The run of the process: the library, the environment and the stack at the end, and what the executor does then, are given with the turns.\<close>

definition app_run ::
  "('p, 'u, 'st) turn list \<Rightarrow> ('p, 'u) sip_library \<Rightarrow> ('p, 'st) engine_env \<Rightarrow> 'p \<Rightarrow> call_encoder \<Rightarrow> (nat \<Rightarrow> cp_event list) \<Rightarrow> cp_event list \<Rightarrow>
     'p sbc_app \<Rightarrow> 'p sbc_app option" where
  "app_run ts L E p encode gaps es A = do {
     A' \<leftarrow> stack_run ts (start_timers A);
     if ps_running (ap_stack A') then Some A' else app_shutdown L E p encode gaps es A' }"

subsection \<open>Start-up either completes or names what failed\<close>

lemma attempt_None [simp]: "attempt strerror what status f st = (None, st') \<longleftrightarrow> status = 0 \<and> st' = f st"
  by (auto simp: attempt_def)

lemma attempts_Cons_None: "attempts (a # as) st = (None, st') \<longleftrightarrow> (\<exists>st1. a st = (None, st1) \<and> attempts as st1 = (None, st'))"
  by (auto split: prod.split option.split)

definition sip_init_calls :: "string list" where
  "sip_init_calls = [''pj_init'', ''pjlib_util_init'', ''pjsip_endpt_create'', ''pjsip_udp_transport_start'', ''pjsip_tsx_layer_init_module'',
     ''pjsip_ua_init_module'', ''pjsip_inv_usage_init'', ''pjsip_timer_init_module'', ''pjsip_100rel_init_module'', ''pjsip_evsub_init_module'',
     ''pjsip_xfer_init_module'', ''pjsip_replaces_init_module'', ''pjsip_endpt_register_module'', ''pjsip_endpt_add_capability'']"

lemma start_transport_None [simp]:
  "start_transport strerror status cfg st = (None, st') \<longleftrightarrow> st' = st \<and> status ''pjsip_udp_transport_start'' = 0 \<and>
     (pc_bind_ip cfg \<noteq> ''0.0.0.0'' \<longrightarrow> status ''pj_sockaddr_in_set_str_addr'' = 0)"
  by (auto simp: start_transport_def attempts_Cons_None simp del: attempts.simps(2))

lemma stack_init_None:
  "stack_init strerror status assigned_id cfg st = (None, st') \<longleftrightarrow>
     (\<forall>f \<in> set sip_init_calls. status f = 0) \<and> (pc_bind_ip cfg \<noteq> ''0.0.0.0'' \<longrightarrow> status ''pj_sockaddr_in_set_str_addr'' = 0) \<and>
     st' = st\<lparr>ps_endpt := True, ps_module_id := assigned_id, ps_active := True, ps_initialized := True\<rparr>"
  by (auto simp: stack_init_def attempts_Cons_None sip_init_calls_def Let_def simp del: attempts.simps(2))

definition media_init_calls :: "string list" where
  "media_init_calls = [''pj_init'', ''pjmedia_endpt_create2'', ''pjmedia_codec_g711_init'', ''pjmedia_codec_g722_init'']"

lemma endpoint_init_None:
  "endpoint_init strerror status pe = (None, pe') \<longleftrightarrow> (\<forall>f \<in> set media_init_calls. status f = 0) \<and>
     pe' = pe\<lparr>pe_pj_refs := pe_pj_refs pe + 1, pe_pool := True, pe_endpt := True, pe_g711 := True, pe_g722 := True, pe_initialized := True\<rparr>"
  by (auto simp: endpoint_init_def media_init_calls_def Let_def)

lemma or_crash_Inr [simp]: "or_crash r f = Some (Inr b) \<longleftrightarrow> (\<exists>a. r = Inr a \<and> f a = Some (Inr b))"
  by (cases r) simp_all

lemma init_settings_Inr:
  "init_settings S A = Inr (s, A') \<longleftrightarrow> su_read_toml S ''settings.toml'' = TomlOk s \<and>
     A' = A\<lparr>ap_log := apply_log_settings (su_from_str S) (st_logging s) (ap_log A)\<rparr>"
  by (auto simp: init_settings_def load_settings_def split: toml_result.split)

lemma init_pjsip_Inr:
  "init_pjsip S s A = Inr (cfg, A') \<longleftrightarrow> cfg = pjsip_config_of s \<and>
     (\<exists>st. stack_init (su_strerror S) (su_sip_status S) (su_module_id S) cfg (ap_stack A) = (None, st) \<and> A' = A\<lparr>ap_stack := st\<rparr>)"
  by (auto simp: init_pjsip_def Let_def split: prod.splits option.splits)

lemma init_pjmedia_Inr:
  "init_pjmedia S A = Inr A' \<longleftrightarrow>
     (\<exists>pe. endpoint_init (su_strerror S) (su_media_status S) (ap_media A) = (None, pe) \<and> A' = A\<lparr>ap_media := pe\<rparr>)"
  by (auto simp: init_pjmedia_def split: prod.splits option.splits)

abbreviation no_routes :: sip_route_snapshot where
  "no_routes \<equiv> \<lparr>sn_table_id = [], sn_version = 0, sn_routes = []\<rparr>"

lemma init_control_plane_Inr:
  "init_control_plane S s A = Some (Inr A') \<longleftrightarrow>
     (\<exists>endpoint cl. parse_ws_url (cps_ws_url (st_control_plane s)) = Inr endpoint \<and>
        await_snapshot (EvStart # su_executor S) (new_client no_routes []) = Some (LatchOk, cl) \<and>
        A' = (update_registrar (\<lambda>rg. rg\<lparr>rg_sink := True\<rparr>) A)\<lparr>ap_client := Some cl\<rparr>)"
  by (auto simp: init_control_plane_def Let_def simp del: await_snapshot.simps split: sum.splits option.splits prod.splits latch_result.splits)

text \<open>The latch is released with success only by a snapshot.\<close>

fun is_snapshot_event :: "cp_event \<Rightarrow> bool" where
  "is_snapshot_event (EvMessage is_text (Some (WsEnvelope env))) \<longleftrightarrow> is_text \<and> ws_is_snapshot env"
| "is_snapshot_event _ \<longleftrightarrow> False"

lemma latch_released:
  assumes "fl_value (cl_latch cl) = None" and "fl_value (cl_latch (cp_step cl e)) = Some LatchOk"
  shows "is_snapshot_event e"
proof (cases e)
  case (EvMessage t m)
  have "cl_latch (on_write_complete cl) = cl_latch cl" by (simp add: on_write_complete_def Let_def)
  with assms EvMessage show ?thesis
    by (auto simp: conn_on_message_def cp_on_message_def apply_envelope_def Let_def split: option.splits ws_incoming.splits if_splits)
qed (use assms in \<open>auto simp: do_connect_def conn_on_open_def cp_on_open_def conn_on_close_def conn_on_error_def failure_task_def conn_fail_def
      conn_cancel_def cp_on_failure_def handle_setup_failure_def schedule_reconnect_def on_ack_timeout_def do_enqueue_def latch_defs Let_def
      split: option.splits list.splits posted_task.splits prod.splits bool.splits if_splits\<close>)

lemma await_snapshot_ok:
  "await_snapshot es cl = Some (LatchOk, cl') \<Longrightarrow> fl_value (cl_latch cl) = None \<Longrightarrow>
     (\<exists>e \<in> set es. is_snapshot_event e) \<and> fl_value (cl_latch cl') = Some LatchOk"
proof (induction es arbitrary: cl)
  case (Cons e es)
  show ?case
  proof (cases "fl_value (cl_latch (cp_step cl e))")
    case None
    with Cons show ?thesis by auto
  next
    case (Some v)
    then have "await_snapshot es (cp_step cl e) = Some (v, cp_step cl e)" by (cases es) simp_all
    with Cons.prems Some have "v = LatchOk" "cl' = cp_step cl e" by simp_all
    with Some latch_released [OF Cons.prems(2), of e] show ?thesis by auto
  qed
qed simp

text \<open>Everything the start depends on went well: the settings were read, the calls of the SIP and media libraries succeeded, the executor's thread was
  registered, the URL of the control plane is well formed and it has sent a snapshot, with the client as that left it.\<close>

definition startup_ok :: "startup_env \<Rightarrow> settings \<Rightarrow> cp_client \<Rightarrow> bool" where
  "startup_ok S s cl \<longleftrightarrow> su_read_toml S ''settings.toml'' = TomlOk s \<and>
     (\<forall>f \<in> set sip_init_calls. su_sip_status S f = 0) \<and>
     (ss_address (st_sip s) \<noteq> ''0.0.0.0'' \<longrightarrow> su_sip_status S ''pj_sockaddr_in_set_str_addr'' = 0) \<and>
     (\<forall>f \<in> set media_init_calls. su_media_status S f = 0) \<and> su_thread_status S = 0 \<and>
     (\<exists>endpoint. parse_ws_url (cps_ws_url (st_control_plane s)) = Inr endpoint) \<and>
     await_snapshot (EvStart # su_executor S) (new_client no_routes []) = Some (LatchOk, cl)"

lemma update_registrar_simps [simp]:
  "ap_router (update_registrar f A) = (ap_router A)\<lparr>mr_registrar := f (mr_registrar (ap_router A))\<rparr>"
  "ap_stack (update_registrar f A) = ap_stack A" "ap_media (update_registrar f A) = ap_media A" "ap_client (update_registrar f A) = ap_client A"
  "ap_config (update_registrar f A) = ap_config A" "ap_log (update_registrar f A) = ap_log A"
  "ap_asio_thread (update_registrar f A) = ap_asio_thread A" "ap_instance (update_registrar f A) = ap_instance A"
  "ap_binding_sweep_interval_s (update_registrar f A) = ap_binding_sweep_interval_s A"
  by (simp_all add: update_registrar_def)

text \<open>What a started application is like.\<close>

definition started_app :: "startup_env \<Rightarrow> settings \<Rightarrow> cp_client \<Rightarrow> 'p sbc_app \<Rightarrow> bool" where
  "started_app S s cl A \<longleftrightarrow> ap_client A = Some cl \<and> active_router (ap_stack A) \<and> ps_initialized (ap_stack A) \<and> \<not> ps_running (ap_stack A) \<and>
     ps_module_id (ap_stack A) = su_module_id S \<and> mg_module_id (router_manager (ap_router A)) = su_module_id S \<and>
     pe_initialized (ap_media A) \<and> ap_asio_thread A \<and> ap_instance A \<and> ap_config A = pjsip_config_of s \<and>
     ap_binding_sweep_interval_s A = rs_binding_sweep_interval_s (st_registrar s) \<and>
     rg_endpt (mr_registrar (ap_router A)) \<and> rg_sink (mr_registrar (ap_router A)) \<and>
     rg_min_expires_s (mr_registrar (ap_router A)) = rs_min_expires_s (st_registrar s) \<and>
     rg_max_expires_s (mr_registrar (ap_router A)) = rs_max_expires_s (st_registrar s) \<and>
     mg_sessions (router_manager (ap_router A)) = [] \<and> mg_retired (router_manager (ap_router A)) = []"

lemma app_init_started:
  assumes "app_init S (new_app clock p) = Some (Inr A)"
  shows "\<exists>s cl. startup_ok S s cl \<and> started_app S s cl A"
proof -
  let ?rs = "\<lambda>s (rg :: registrar). rg\<lparr>rg_min_expires_s := rs_min_expires_s (st_registrar s), rg_max_expires_s := rs_max_expires_s (st_registrar s)\<rparr>"
  let ?A0 = "(new_app clock p)\<lparr>ap_log := init_logging (ap_log (new_app clock p))\<rparr>"
  from assms obtain s A1 cfg A2 A3 A4 A5 where 1: "init_settings S ?A0 = Inr (s, A1)" and
    2: "init_pjsip S s (update_registrar (?rs s) (A1\<lparr>ap_binding_sweep_interval_s := rs_binding_sweep_interval_s (st_registrar s)\<rparr>)) = Inr (cfg, A2)" and
    3: "init_pjmedia S A2 = Inr A3" and 4: "start_asio_thread S A3 = Inr A4" and 5: "init_control_plane S s A4 = Some (Inr A5)" and
    A: "A = init_signal_handlers (init_context cfg A5)"
    by (auto simp: app_init_def Let_def split: option.splits)
  from 4 have 4: "su_thread_status S = 0" "A4 = A3\<lparr>ap_asio_thread := True\<rparr>" by (auto simp: start_asio_thread_def split: if_splits)
  from 5 obtain endpoint cl where 5: "parse_ws_url (cps_ws_url (st_control_plane s)) = Inr endpoint"
      "await_snapshot (EvStart # su_executor S) (new_client no_routes []) = Some (LatchOk, cl)"
      "A5 = (update_registrar (\<lambda>rg. rg\<lparr>rg_sink := True\<rparr>) A4)\<lparr>ap_client := Some cl\<rparr>" unfolding init_control_plane_Inr by blast
  have "startup_ok S s cl"
    unfolding startup_ok_def using 1 2 3 4(1) 5(1,2)
    by (simp add: init_settings_Inr init_pjsip_Inr init_pjmedia_Inr stack_init_None endpoint_init_None pjsip_config_of_def Let_def del: await_snapshot.simps)
  moreover have "started_app S s cl A"
    using 1 2 3 4(2) 5(3) A
    by (simp add: init_settings_Inr init_pjsip_Inr init_pjmedia_Inr stack_init_None endpoint_init_None started_app_def init_context_def
        init_signal_handlers_def new_app_def new_stack_def new_message_router_def active_router_def Let_def set_manager_def)
  ultimately show ?thesis by blast
qed

lemma startup_ok_init:
  assumes "startup_ok S s cl"
  shows "\<exists>A. app_init S (new_app clock p) = Some (Inr A)"
proof -
  from assms obtain endpoint where ok: "su_read_toml S ''settings.toml'' = TomlOk s" "\<forall>f \<in> set sip_init_calls. su_sip_status S f = 0"
      "ss_address (st_sip s) \<noteq> ''0.0.0.0'' \<longrightarrow> su_sip_status S ''pj_sockaddr_in_set_str_addr'' = 0"
      "\<forall>f \<in> set media_init_calls. su_media_status S f = 0" "su_thread_status S = 0"
      "parse_ws_url (cps_ws_url (st_control_plane s)) = Inr endpoint"
      "await_snapshot (EvStart # su_executor S) (new_client no_routes []) = Some (LatchOk, cl)"
    unfolding startup_ok_def by blast
  have s: "init_settings S B = Inr (s, B\<lparr>ap_log := apply_log_settings (su_from_str S) (st_logging s) (ap_log B)\<rparr>)" for B :: "'a sbc_app"
    using ok(1) by (simp add: init_settings_Inr)
  have sip: "\<exists>B'. init_pjsip S s B = Inr (pjsip_config_of s, B')" for B :: "'a sbc_app"
    using ok(2,3) by (simp add: init_pjsip_Inr stack_init_None pjsip_config_of_def Let_def)
  have media: "\<exists>B'. init_pjmedia S B = Inr B'" for B :: "'a sbc_app" using ok(4) by (simp add: init_pjmedia_Inr endpoint_init_None)
  have thread: "start_asio_thread S B = Inr (B\<lparr>ap_asio_thread := True\<rparr>)" for B :: "'a sbc_app" using ok(5) by (simp add: start_asio_thread_def)
  have cp: "\<exists>B'. init_control_plane S s B = Some (Inr B')" for B :: "'a sbc_app" using ok(6,7) by (simp add: init_control_plane_Inr del: await_snapshot.simps)
  have "\<exists>r. or_crash (init_pjsip S s B) (\<lambda>(cfg, A). or_crash (init_pjmedia S A) (\<lambda>A. or_crash (start_asio_thread S A) (\<lambda>A.
      case init_control_plane S s A of None \<Rightarrow> None | Some r \<Rightarrow> or_crash r (\<lambda>A. Some (Inr (init_signal_handlers (init_context cfg A))))))) = Some (Inr r)"
    for B :: "'a sbc_app"
  proof -
    obtain B1 where B1: "init_pjsip S s B = Inr (pjsip_config_of s, B1)" using sip by blast
    obtain B2 where B2: "init_pjmedia S B1 = Inr B2" using media by blast
    obtain B3 where B3: "init_control_plane S s (B2\<lparr>ap_asio_thread := True\<rparr>) = Some (Inr B3)" using cp by blast
    show ?thesis by (simp add: B1 B2 thread B3 del: or_crash_Inr)
  qed
  then show ?thesis by (simp add: app_init_def s Let_def del: or_crash_Inr)
qed

text \<open>C20: The engine starts all the way or not at all. Initialisation succeeds exactly when the settings could be read, every call of the SIP and media
  libraries returned success, the executor's thread was registered, the control plane's URL is well formed and its first snapshot was applied;
  otherwise the process ends with a message or is still waiting. When it has succeeded, a snapshot message
  has arrived, the callbacks of the stack reach the router, no call exists, and the registrar and the stack have the configured values.\<close>

theorem startup_all_or_nothing:
  "((\<exists>A. app_init S (new_app clock p) = Some (Inr A)) \<longleftrightarrow> (\<exists>s cl. startup_ok S s cl)) \<and>
   (\<forall>A. app_init S (new_app clock p) = Some (Inr A) \<longrightarrow>
      (\<exists>s cl. startup_ok S s cl \<and> started_app S s cl A) \<and> (\<exists>e \<in> set (su_executor S). is_snapshot_event e))"
proof (intro conjI allI impI iffI)
  show "\<exists>s cl. startup_ok S s cl" if "\<exists>A. app_init S (new_app clock p) = Some (Inr A)"
  proof -
    from that obtain A where "app_init S (new_app clock p) = Some (Inr A)" by blast
    from app_init_started [OF this] show ?thesis by blast
  qed
  show "\<exists>A. app_init S (new_app clock p) = Some (Inr A)" if "\<exists>s cl. startup_ok S s cl"
    using that by (elim exE) (rule startup_ok_init)
  fix A
  assume init: "app_init S (new_app clock p) = Some (Inr A)"
  then show "\<exists>s cl. startup_ok S s cl \<and> started_app S s cl A" by (rule app_init_started)
  from app_init_started [OF init] obtain cl where "await_snapshot (EvStart # su_executor S) (new_client no_routes []) = Some (LatchOk, cl)"
    unfolding startup_ok_def by blast
  from await_snapshot_ok [OF this] show "\<exists>e \<in> set (su_executor S). is_snapshot_event e" by (auto simp: new_client_def new_latch_def)
qed

definition sample_startup :: startup_env where
  "sample_startup = \<lparr>su_read_toml = (\<lambda>_. TomlOk default_settings), su_from_str = (\<lambda>_. LvInfo), su_strerror = (\<lambda>_. ''error''), su_sip_status = (\<lambda>_. 0),
     su_media_status = (\<lambda>_. 0), su_thread_status = 0, su_module_id = 3, su_executor = [EvOpen, EvMessage True (Some (WsEnvelope
       \<lparr>ws_is_snapshot = True, ws_routes = None, ws_users = Some [], ws_seq = Some 1\<rparr>))]\<rparr>"

lemma sample_startup_ok: "\<exists>cl. startup_ok sample_startup default_settings cl"
proof -
  have url: "\<exists>endpoint. parse_ws_url ''ws://127.0.0.1:3001/ws/engine'' = Inr endpoint" by (simp add: parse_ws_url_def)
  have "\<exists>cl. await_snapshot (EvStart # su_executor sample_startup) (new_client no_routes []) = Some (LatchOk, cl)"
    by (simp add: sample_startup_def new_client_def do_connect_def conn_on_open_def cp_on_open_def conn_on_message_def cp_on_message_def
        apply_envelope_def write_next_def connected_def start_next_def new_queue_def purge_best_effort_def new_latch_def latch_defs Let_def)
  with url show ?thesis by (auto simp: startup_ok_def default_settings_def sample_startup_def simp del: await_snapshot.simps)
qed

theorem startup_all_or_nothing_witness:
  "\<exists>A. app_init sample_startup (new_app int ()) = Some (Inr A) \<and> active_router (ap_stack A)"
proof -
  obtain cl where "startup_ok sample_startup default_settings cl" using sample_startup_ok by blast
  with startup_all_or_nothing [of sample_startup int "()"] obtain A where "app_init sample_startup (new_app int ()) = Some (Inr A)" by blast
  moreover from this startup_all_or_nothing [of sample_startup int "()"] obtain s cl where "started_app sample_startup s cl A" by blast
  ultimately show ?thesis by (auto simp: started_app_def)
qed

subsection \<open>The media endpoint gives back what it took\<close>

text \<open>C0: A media endpoint that was brought up and shut down again holds nothing of the media library; shutting down twice, or without having come up, does nothing.
  When bringing it up fails, it has given back the pool, the endpoint and the codec factories; the reference of \<^verbatim>\<open>pj_init\<close> is
  kept from then on when that call had succeeded.\<close>

theorem endpoint_resources:
  "case endpoint_init strerror status new_endpoint of
     (None, pe) \<Rightarrow> endpoint_shutdown pe = new_endpoint \<and> endpoint_shutdown (endpoint_shutdown pe) = new_endpoint
   | (Some e, pe) \<Rightarrow> endpoint_shutdown pe = pe \<and> pe = new_endpoint\<lparr>pe_pj_refs := (if status ''pj_init'' = 0 then 1 else 0)\<rparr>"
  by (simp add: endpoint_init_def endpoint_shutdown_def new_endpoint_def Let_def)

subsection \<open>The loop\<close>

abbreviation app_ok :: "'p sbc_app \<Rightarrow> bool" where
  "app_ok A \<equiv> router_ok (ap_client A \<noteq> None) (ap_router A)"

lemma app_env_sink [simp]: "en_has_event_sink (app_env A E) \<longleftrightarrow> ap_client A \<noteq> None"
  by (simp add: app_env_def Let_def)

lemma app_router_table [simp]: "router_ok sink (app_router p A) = router_ok sink (ap_router A)"
  by (simp add: app_router_def Let_def split: option.split)

text \<open>What stays the same in the loop; the stack may only be stopped.\<close>

definition app_frame :: "'p sbc_app \<Rightarrow> 'p sbc_app \<Rightarrow> bool" where
  "app_frame A A' \<longleftrightarrow> ap_instance A' = ap_instance A \<and> (ap_client A' = None \<longleftrightarrow> ap_client A = None) \<and> ap_config A' = ap_config A \<and>
     ap_asio_thread A' = ap_asio_thread A \<and> ap_media A' = ap_media A \<and>
     (ap_stack A' = ap_stack A \<or> ap_stack A' = stack_stop (ap_stack A))"

lemma app_frame_trans: "app_frame A B \<Longrightarrow> app_frame B C \<Longrightarrow> app_frame A C"
  by (auto simp: app_frame_def stack_stop_def)

lemma app_frame_refl [simp]: "app_frame A A"
  by (simp add: app_frame_def)

lemma on_router_ok:
  assumes "app_ok A" and "\<And>R. router_ok (ap_client A \<noteq> None) R \<Longrightarrow> \<exists>R'. f R = Some R' \<and> router_ok (ap_client A \<noteq> None) R'"
  shows "\<exists>A'. on_router f p A = Some A' \<and> app_ok A' \<and> app_frame A A' \<and> ap_stack A' = ap_stack A \<and> ap_client A' = ap_client A"
proof -
  from assms(2) [of "app_router p A"] assms(1) obtain R' where "f (app_router p A) = Some R'" "router_ok (ap_client A \<noteq> None) R'" by auto
  then show ?thesis by (simp add: on_router_def app_frame_def)
qed

lemma callback_ok:
  assumes "router_ok (ap_client A \<noteq> None) R"
  shows "\<exists>R'. router_step L (app_env A E) k R = Some R' \<and> router_ok (ap_client A \<noteq> None) R'"
  using router_step_ok [of "app_env A E" R L k] assms by simp

lemma callback_steps:
  "map_option snd (stack_on_rx_request st L E rq R) = (if active_router st then router_step L E (RequestIn rq) R else Some R)"
  "stack_on_tsx_state st L E ev R =
     (if active_router st \<and> te_trying ev \<and> te_is_tsx_state ev \<and> te_rx_msg ev \<and> te_in_dialog ev \<and> te_method ev = ''REFER''
      then router_step L E (ReferIn (te_refer ev)) R else Some R)"
  "stack_on_inv_state_changed st L E i ev' R = (if active_router st then router_step L E (InvStateIn i (case ev' of None \<Rightarrow> None
     | Some ev \<Rightarrow> if ie_is_tsx_state ev \<and> ie_is_rx_msg ev then Some (ie_rdata ev) else None)) R else Some R)"
  "map_option snd (stack_on_rx_reinvite st L E i offer rdata R) = (if active_router st then router_step L E (ReinviteIn i offer rdata) R else Some R)"
  "stack_on_rx_offer2 st L E i offer rdata R = (if active_router st then router_step L E (OfferIn i offer rdata) R else Some R)"
  "stack_on_inv_media_update st L E i success R = (if active_router st then router_step L E (MediaUpdateIn i success) R else Some R)"
  by (auto simp: stack_on_rx_request_def stack_on_tsx_state_def stack_on_inv_state_changed_def stack_on_rx_reinvite_def stack_on_rx_offer2_def
      stack_on_inv_media_update_def Let_def)

lemmas callback_funs = callback_steps(2,3,5,6) [abs_def]

lemma app_step_ok:
  assumes "app_ok A"
  shows "\<exists>A'. app_step L E p ev A = Some A' \<and> app_ok A' \<and> app_frame A A' \<and> (ev = Signal \<and> ap_instance A \<longrightarrow> ap_stack A' = stack_stop (ap_stack A))"
proof -
  have cb: "\<exists>A'. on_router (\<lambda>R. if b then router_step L (app_env A E) k R else Some R) p A = Some A' \<and> app_ok A' \<and> app_frame A A'" for b k
  proof -
    have "\<exists>R'. (if b then router_step L (app_env A E) k R else Some R) = Some R' \<and> router_ok (ap_client A \<noteq> None) R'"
      if "router_ok (ap_client A \<noteq> None) R" for R
      using callback_ok [OF that, of L E k] that by simp
    then show ?thesis using on_router_ok [OF assms, of "\<lambda>R. if b then router_step L (app_env A E) k R else Some R" p] by blast
  qed
  note direct = cb [of True, unfolded if_True]
  have kept: "app_frame A (A\<lparr>ap_client := map_option f (ap_client A)\<rparr>)" "app_frame A (A\<lparr>ap_stack := stack_stop (ap_stack A)\<rparr>)" for f
    by (simp_all add: app_frame_def)
  show ?thesis
    by (cases ev) (use assms cb direct in \<open>simp_all add: callback_steps(1,4) callback_funs kept handle_signal_def del: router_step.simps\<close>)
qed

abbreviation signalled :: "('p, 'u, 'st) occurrence list \<Rightarrow> bool" where
  "signalled evs \<equiv> Signal \<in> (\<lambda>(L, E, p, ev). ev) ` set evs"

lemma stack_stop_twice [simp]: "stack_stop (stack_stop st) = stack_stop st" "\<not> ps_running (stack_stop st)" "\<not> ps_router (stack_stop st)"
  by (simp_all add: stack_stop_def)

lemma app_steps_ok:
  "app_ok A \<Longrightarrow> \<exists>A'. app_steps evs A = Some A' \<and> app_ok A' \<and> app_frame A A' \<and>
     (signalled evs \<and> ap_instance A \<longrightarrow> ap_stack A' = stack_stop (ap_stack A))"
proof (induction evs arbitrary: A)
  case (Cons x evs)
  obtain L E p ev where x: "x = (L, E, p, ev)" by (metis surj_pair)
  obtain A1 where A1: "app_step L E p ev A = Some A1" "app_ok A1" "app_frame A A1"
      "ev = Signal \<and> ap_instance A \<longrightarrow> ap_stack A1 = stack_stop (ap_stack A)"
    using app_step_ok [OF Cons.prems, of L E p ev] by blast
  obtain A2 where A2: "app_steps evs A1 = Some A2" "app_ok A2" "app_frame A1 A2" "signalled evs \<and> ap_instance A1 \<longrightarrow> ap_stack A2 = stack_stop (ap_stack A1)"
    using Cons.IH [OF A1(2)] by blast
  have inst: "ap_instance A1 = ap_instance A" using A1(3) by (simp add: app_frame_def)
  have "ap_stack A2 = stack_stop (ap_stack A)" if "signalled (x # evs)" "ap_instance A"
  proof (cases "signalled evs")
    case True
    with A2(4) that(2) inst have "ap_stack A2 = stack_stop (ap_stack A1)" by blast
    with A1(3) show ?thesis by (auto simp: app_frame_def)
  next
    case False
    with that x have "ev = Signal" by auto
    with A1(4) that(2) have "ap_stack A1 = stack_stop (ap_stack A)" by blast
    with A2(3) show ?thesis by (auto simp: app_frame_def)
  qed
  with A1(1,3) A2(1-3) x show ?case using app_frame_trans by fastforce
qed simp

lemma loop_turn_ok:
  assumes "app_ok A"
  shows "\<exists>A'. loop_turn (evs, L, E, p) A = Some A' \<and> app_ok A' \<and> app_frame A A' \<and>
     (signalled evs \<and> ap_instance A \<longrightarrow> ap_stack A' = stack_stop (ap_stack A))"
proof -
  obtain A1 where A1: "app_steps evs A = Some A1" "app_ok A1" "app_frame A A1" "signalled evs \<and> ap_instance A \<longrightarrow> ap_stack A1 = stack_stop (ap_stack A)"
    using app_steps_ok [OF assms, of evs] by blast
  have "\<exists>R'. process_pending_media_events L (app_env A1 E) R = Some R' \<and> router_ok (ap_client A1 \<noteq> None) R'"
    if "router_ok (ap_client A1 \<noteq> None) R" for R
    using main_loop_ok [of "app_env A1 E" R L] that by simp
  then obtain A2 where "on_router (process_pending_media_events L (app_env A1 E)) p A1 = Some A2" "app_ok A2" "app_frame A1 A2" "ap_stack A2 = ap_stack A1"
    using on_router_ok [OF A1(2), of "process_pending_media_events L (app_env A1 E)" p] by blast
  with A1 app_frame_trans [OF A1(3)] show ?thesis by (cases "ps_router (ap_stack A1)") simp_all
qed

abbreviation signal_among :: "('p, 'u, 'st) turn list \<Rightarrow> bool" where
  "signal_among ts \<equiv> \<exists>t \<in> set ts. signalled (fst t)"

lemma stack_loop_ok:
  "app_ok A \<Longrightarrow> \<exists>A'. stack_loop ts A = Some A' \<and> app_ok A' \<and> app_frame A A' \<and> (signal_among ts \<and> ap_instance A \<longrightarrow> \<not> ps_running (ap_stack A'))"
proof (induction ts arbitrary: A)
  case (Cons t ts)
  obtain evs L E p where t: "t = (evs, L, E, p)" by (metis surj_pair)
  obtain A1 where A1: "loop_turn t A = Some A1" "app_ok A1" "app_frame A A1"
      "signalled evs \<and> ap_instance A \<longrightarrow> ap_stack A1 = stack_stop (ap_stack A)"
    using loop_turn_ok [OF Cons.prems, of evs L E p] t by blast
  obtain A2 where A2: "stack_loop ts A1 = Some A2" "app_ok A2" "app_frame A1 A2" "signal_among ts \<and> ap_instance A1 \<longrightarrow> \<not> ps_running (ap_stack A2)"
    using Cons.IH [OF A1(2)] by blast
  have "signal_among (t # ts) \<and> ap_instance A \<longrightarrow> \<not> ps_running (ap_stack A2)"
  proof (intro impI, elim conjE)
    assume sig: "signal_among (t # ts)" and inst: "ap_instance A"
    show "\<not> ps_running (ap_stack A2)"
    proof (cases "signalled evs")
      case True
      with A1(4) inst have "\<not> ps_running (ap_stack A1)" by simp
      with A2(3) show ?thesis by (auto simp: app_frame_def)
    next
      case False
      with sig t have "signal_among ts" by simp
      moreover have "ap_instance A1" using A1(3) inst by (simp add: app_frame_def)
      ultimately show ?thesis using A2(4) by blast
    qed
  qed
  moreover have "stack_loop (t # ts) A = Some (if ps_running (ap_stack A) then A2 else A)" using A1(1) A2(1) by simp
  ultimately show ?case using A2(2) app_frame_trans [OF A1(3) A2(3)] Cons.prems
    by (intro exI [of _ "if ps_running (ap_stack A) then A2 else A"]) simp
qed simp

subsection \<open>Shutdown\<close>

lemma ended_events:
  "cs_call_events (ended_for E reason c) = cs_call_events c @ (if cs_terminated_reported c \<or> \<not> en_has_event_sink E then [] else
     [CallTerminated (cs_call_id c) (if is_established c then kSuccess else kFailed_status) (Some (termination_reason_text reason)) (en_wall_clock E)
       (if is_established c then established_duration E c else None)])"
  "cs_terminated_reported (ended_for E reason c)" "\<not> can_terminate (ended_for E reason c)"
proof -
  let ?r = "report_call_terminated E (if is_established c then kSuccess else kFailed_status) (Some (termination_reason_text reason)) c"
  have "cs_call_events (do_terminate_call E reason c) = cs_call_events ?r \<and> cs_terminated_reported (do_terminate_call E reason c) = cs_terminated_reported ?r"
    by (simp add: do_terminate_call_def end_both_def reinvite_reset_def Let_def)
  moreover have "kFailed_status \<noteq> kSuccess" by (simp add: kFailed_status_def kSuccess_def)
  ultimately show "cs_call_events (ended_for E reason c) = cs_call_events c @ (if cs_terminated_reported c \<or> \<not> en_has_event_sink E then [] else
     [CallTerminated (cs_call_id c) (if is_established c then kSuccess else kFailed_status) (Some (termination_reason_text reason)) (en_wall_clock E)
       (if is_established c then established_duration E c else None)])" "cs_terminated_reported (ended_for E reason c)"
    by (auto simp: ended_for_def report_call_terminated_def send_event_def established_duration_def Let_def)
  show "\<not> can_terminate (ended_for E reason c)" by (simp add: ended_for_def can_terminate_def is_in_def)
qed

text \<open>The report of a call that shutdown ends.\<close>

definition shutdown_report :: "('p, 'st) engine_env \<Rightarrow> string \<times> 'p call \<Rightarrow> call_event" where
  "shutdown_report E = (\<lambda>(call_id, c). CallTerminated call_id (if is_established c then kSuccess else kFailed_status)
     (Some (termination_reason_text kEngineRequested)) (en_wall_clock E) (if is_established c then established_duration E c else None))"

lemma table_entry: "table_ok sink M \<Longrightarrow> (call_id, c) \<in> set (mg_sessions M) \<longleftrightarrow> find_by_call_id call_id M = Some c"
  by (auto simp: table_ok_def find_by_call_id_def)

lemma scan_entry:
  assumes "scan_result E reason (\<lambda>_. True) M M'" and "find_by_call_id call_id M = Some c"
  shows "\<exists>p. find_by_call_id call_id M' = Some (if can_terminate c then ended_for E reason (c\<lparr>cs_pj := p\<rparr>) else c\<lparr>cs_pj := p\<rparr>)"
  using assms by (simp add: scan_result_def)

lemma shutdown_events:
  assumes ok: "table_ok True M" and sink: "en_has_event_sink E" and scan: "scan_result E kEngineRequested (\<lambda>_. True) M M'"
  shows "new_call_events M M' = map (shutdown_report E) (filter (\<lambda>(_, c). can_terminate c \<and> \<not> cs_terminated_reported c) (mg_sessions M))"
proof -
  have keys: "map fst (mg_sessions M') = map fst (mg_sessions M)" using scan by (simp add: scan_result_def)
  then have len: "length (mg_sessions M') = length (mg_sessions M)" by (metis length_map)
  have at: "(case find_by_call_id (fst (mg_sessions M' ! i)) M of None \<Rightarrow> []
        | Some c \<Rightarrow> drop (length (cs_call_events c)) (cs_call_events (snd (mg_sessions M' ! i)))) =
      (let (call_id, c) = mg_sessions M ! i in if can_terminate c \<and> \<not> cs_terminated_reported c then [shutdown_report E (call_id, c)] else [])"
    if i: "i < length (mg_sessions M)" for i
  proof -
    obtain call_id c where c: "mg_sessions M ! i = (call_id, c)" by fastforce
    obtain c' where c': "mg_sessions M' ! i = (call_id, c')" using keys c i len by (metis fst_conv nth_map surj_pair)
    have in_M: "(call_id, c) \<in> set (mg_sessions M)" "(call_id, c') \<in> set (mg_sessions M')" using c c' i len by (metis nth_mem)+
    have find: "find_by_call_id call_id M = Some c" "find_by_call_id call_id M' = Some c'"
      using in_M ok keys by (auto simp: table_ok_def find_by_call_id_def)
    obtain p where p: "c' = (if can_terminate c then ended_for E kEngineRequested (c\<lparr>cs_pj := p\<rparr>) else c\<lparr>cs_pj := p\<rparr>)"
      using scan_entry [OF scan find(1)] find(2) by auto
    have "at_rest True call_id c" using ok in_M(1) by (auto simp: table_ok_def)
    then have "cs_call_id c = call_id" by (rule at_rest_facts)
    then show ?thesis using c c' find p sink
      by (simp add: ended_events shutdown_report_def is_established_def established_duration_def)
  qed
  have "map (\<lambda>(call_id, c'). case find_by_call_id call_id M of None \<Rightarrow> [] | Some c \<Rightarrow> drop (length (cs_call_events c)) (cs_call_events c')) (mg_sessions M') =
      map (\<lambda>(call_id, c). if can_terminate c \<and> \<not> cs_terminated_reported c then [shutdown_report E (call_id, c)] else []) (mg_sessions M)"
    by (rule nth_equalityI) (use len at in \<open>auto simp: case_prod_beta Let_def\<close>)
  moreover have "concat (map (\<lambda>(call_id, c). if can_terminate c \<and> \<not> cs_terminated_reported c then [shutdown_report E (call_id, c)] else []) xs) =
      map (shutdown_report E) (filter (\<lambda>(_, c). can_terminate c \<and> \<not> cs_terminated_reported c) xs)" for xs :: "(string \<times> 'a call) list"
    by (induction xs) (auto split: if_splits)
  ultimately show ?thesis by (simp add: new_call_events_def)
qed

lemma scan_ended:
  assumes "table_ok sink M" and "scan_result E reason (\<lambda>_. True) M M'" and "(call_id, c') \<in> set (mg_sessions M')"
  shows "\<not> can_terminate c'"
proof -
  have d: "distinct (map fst (mg_sessions M'))" using assms(1,2) by (simp add: table_ok_def scan_result_def)
  have "call_id \<in> set (map fst (mg_sessions M))" using assms(2,3) by (metis scan_result_def image_eqI fst_conv list.set_map)
  then obtain c where c: "find_by_call_id call_id M = Some c" unfolding find_by_call_id_def by (cases "map_of (mg_sessions M) call_id") (auto simp: map_of_eq_None_iff)
  have "find_by_call_id call_id M' = Some c'" using assms(3) d by (simp add: find_by_call_id_def)
  with scan_entry [OF assms(2) c] obtain p where "c' = (if can_terminate c then ended_for E reason (c\<lparr>cs_pj := p\<rparr>) else c\<lparr>cs_pj := p\<rparr>)" by auto
  then show ?thesis using ended_events(3) by (auto simp: can_terminate_def)
qed

lemma client_shutdown_stopped: "cl_stopped (client_shutdown encode gaps es events cl)"
  by (simp add: client_shutdown_def conn_cancel_def)

lemma shutdown_sink [simp]: "en_has_event_sink (shared_stores R (app_env A E)) \<longleftrightarrow> ap_client A \<noteq> None" "shutdown_report (shared_stores R (app_env A E)) = shutdown_report E"
  by (simp_all add: shutdown_report_def shared_stores_def app_env_def established_duration_def fun_eq_iff Let_def)

lemma app_shutdown_ok:
  assumes ok: "app_ok A" and cl: "ap_client A = Some cl"
  shows "\<exists>A'. app_shutdown L E p encode gaps es A = Some A' \<and> ap_stack A' = ap_stack A \<and> \<not> ap_asio_thread A' \<and>
    ap_client A' = Some (client_shutdown encode gaps es (map (shutdown_report E)
      (filter (\<lambda>(_, c). can_terminate c \<and> \<not> cs_terminated_reported c) (mg_sessions (router_manager (ap_router A))))) cl) \<and>
    mg_rtp_inactivity_timer (router_manager (ap_router A')) = None \<and> mr_binding_sweep_timer (ap_router A') = None \<and>
    map fst (mg_sessions (router_manager (ap_router A'))) = map fst (mg_sessions (router_manager (ap_router A))) \<and>
    (\<forall>(call_id, c) \<in> set (mg_sessions (router_manager (ap_router A'))). \<not> can_terminate c)"
proof -
  let ?R = "app_router p A"
  let ?E = "shared_stores ?R (app_env A E)"
  have same: "mg_sessions (router_manager ?R) = mg_sessions (router_manager (ap_router A))"
    by (simp add: app_router_def Let_def split: option.split)
  have tab: "table_ok True (router_manager ?R)" using ok cl by simp
  then have "distinct (map fst (mg_sessions (router_manager ?R)))" by (simp add: table_ok_def)
  from shutdown_exact [OF this, of "sl_xfer L" ?E] obtain M' where M': "terminate_established_calls (sl_xfer L) ?E (router_manager ?R) = Some M'"
      "scan_result ?E kEngineRequested (\<lambda>_. True) (router_manager ?R) M'" "mg_rtp_inactivity_timer M' = None" by blast
  have events: "new_call_events (router_manager ?R) M' = map (shutdown_report E)
      (filter (\<lambda>(_, c). can_terminate c \<and> \<not> cs_terminated_reported c) (mg_sessions (router_manager (ap_router A))))"
    using shutdown_events [OF tab _ M'(2)] cl same by simp
  have "map fst (mg_sessions M') = map fst (mg_sessions (router_manager (ap_router A)))" using M'(2) same by (simp add: scan_result_def)
  moreover have "\<forall>(call_id, c) \<in> set (mg_sessions M'). \<not> can_terminate c" using scan_ended [OF tab M'(2)] by blast
  ultimately show ?thesis using M'(1,3) events cl by (simp add: app_shutdown_def stop_binding_sweep_timer_def set_manager_def Let_def)
qed

lemma start_timers_frame:
  "app_ok A \<Longrightarrow> app_ok (start_timers A)" "app_frame A (start_timers A)" "ap_stack (start_timers A) = ap_stack A" "ap_client (start_timers A) = ap_client A"
  by (auto simp: start_timers_def app_frame_def start_rtp_inactivity_timer_def start_binding_sweep_timer_def set_manager_def Let_def)



definition sample_turns :: "(unit, string, unit) turn list" where
  "sample_turns = [([(sample_library, sample_env, (), RxRequest sample_call_in)], sample_library, sample_env, ()),
     ([(sample_library, sample_env, (), ClientEvent EvClose), (sample_library, sample_env, (), Signal)], sample_library, sample_env, ())]"


definition sample_app :: "unit sbc_app" where
  "sample_app = (new_app int ())\<lparr>ap_client := Some (new_client no_routes []),
     ap_router := set_manager (sample_manager\<lparr>mg_sessions := [(''c1'', sample_call)]\<rparr>) (ap_router (new_app int ()))\<rparr>"


end
