(* ===== verification/Rtp_Transport.thy ===== *)
theory Rtp_Transport
  imports Rtp_Stream
begin

text \<open>
  The transports of \<^verbatim>\<open>engine/src/net/rtp/rtp_cpp.cpp\<close> and \<^verbatim>\<open>rtp_cpp.hpp\<close>: the raw and the managed sender, the sender behind a
  channel, the receiver, the session that lets a sender and a receiver share one UDP socket, and the media clock. Sockets are shared
  objects: they live in a list and are named by their index, and a socket nobody holds any more is closed. What the network does is a
  parameter, the record \<open>asio_lib\<close>; what an asynchronous operation will send or receive into is kept until it completes.
\<close>

subsection \<open>Sockets\<close>

type_synonym udp_endpoint = "string \<times> 16 word"

datatype asio_error = BadDescriptor | OperationAborted | NoBufferSpace | SystemError int

record udp_socket =
  so_executor :: nat
  so_open :: bool
  so_local :: "udp_endpoint option"
  so_remote :: "udp_endpoint option"

text \<open>The network's answers; those about a socket depend on which one it is. Binding gives the local endpoint.\<close>

record asio_lib =
  al_make_address :: "string \<Rightarrow> asio_error + string"
  al_open :: "nat \<Rightarrow> asio_error option"
  al_bind :: "nat \<Rightarrow> udp_endpoint \<Rightarrow> asio_error + udp_endpoint"
  al_connect :: "nat \<Rightarrow> udp_endpoint \<Rightarrow> asio_error option"
  al_close :: "nat \<Rightarrow> asio_error option"
  al_local_unbound :: "nat \<Rightarrow> asio_error + udp_endpoint"

text \<open>A callback is a number; \<open>None\<close> is the empty callback.\<close>

datatype async_op =
    SendTo "byte list" udp_endpoint "nat option"
  | SendConnected "byte list" "nat option"
  | ReceiveFrom "nat option"
  | ReceiveConnected "nat option"

datatype invocation =
    OnSent nat nat "asio_error option"
  | OnReceiveFailed nat asio_error
  | OnReceived nat rtp_result rtp_packet "udp_endpoint option"

record net_state =
  ns_sockets :: "udp_socket list"
  ns_outstanding :: "(nat \<times> async_op) list"
  ns_posted :: "invocation list"
  ns_invoked :: "invocation list"

type_synonym 'a net_result = "(asio_error + 'a) \<times> net_state"

definition socket_is_open :: "nat \<Rightarrow> net_state \<Rightarrow> bool" where
  "socket_is_open i ns \<longleftrightarrow> i < length (ns_sockets ns) \<and> so_open (ns_sockets ns ! i)"

definition update_socket :: "nat \<Rightarrow> (udp_socket \<Rightarrow> udp_socket) \<Rightarrow> net_state \<Rightarrow> net_state" where
  "update_socket i f ns = (if i < length (ns_sockets ns) then ns\<lparr>ns_sockets := (ns_sockets ns)[i := f (ns_sockets ns ! i)]\<rparr> else ns)"

definition make_socket :: "nat \<Rightarrow> net_state \<Rightarrow> nat \<times> net_state" where
  "make_socket executor ns = (length (ns_sockets ns),
     ns\<lparr>ns_sockets := ns_sockets ns @ [\<lparr>so_executor = executor, so_open = False, so_local = None, so_remote = None\<rparr>]\<rparr>)"

text \<open>Closing takes effect even when it reports an error.\<close>

definition close_socket :: "asio_lib \<Rightarrow> nat \<Rightarrow> net_state \<Rightarrow> unit net_result" where
  "close_socket al i ns =
     ((case al_close al i of Some e \<Rightarrow> Inl e | None \<Rightarrow> Inr ()), update_socket i (\<lambda>s. s\<lparr>so_open := False, so_local := None, so_remote := None\<rparr>) ns)"

text \<open>Owners let go of some sockets; the destructor closes those that nobody holds any more.\<close>

definition release_sockets :: "nat option list \<Rightarrow> nat option list \<Rightarrow> net_state \<Rightarrow> net_state" where
  "release_sockets dropped owners ns = fold (\<lambda>skt ns. case skt of
       None \<Rightarrow> ns
     | Some i \<Rightarrow> if skt \<in> set owners then ns else update_socket i (\<lambda>s. s\<lparr>so_open := False, so_local := None, so_remote := None\<rparr>) ns) dropped ns"

definition make_udp_endpoint :: "asio_lib \<Rightarrow> string \<Rightarrow> 16 word \<Rightarrow> asio_error + udp_endpoint" where
  "make_udp_endpoint al address port = (case al_make_address al address of Inl e \<Rightarrow> Inl e | Inr addr \<Rightarrow> Inr (addr, port))"

definition open_socket :: "asio_lib \<Rightarrow> nat \<Rightarrow> net_state \<Rightarrow> unit net_result" where
  "open_socket al i ns = (case al_open al i of Some e \<Rightarrow> (Inl e, ns) | None \<Rightarrow> (Inr (), update_socket i (\<lambda>s. s\<lparr>so_open := True\<rparr>) ns))"

definition open_and_bind_udp_socket :: "asio_lib \<Rightarrow> nat option \<Rightarrow> udp_endpoint \<Rightarrow> net_state \<Rightarrow> unit net_result" where
  "open_and_bind_udp_socket al skt endpoint ns = (case skt of
       None \<Rightarrow> (Inl BadDescriptor, ns)
     | Some i \<Rightarrow> (case open_socket al i ns of
         (Inl e, ns) \<Rightarrow> (Inl e, ns)
       | (Inr _, ns) \<Rightarrow> (case al_bind al i endpoint of
           Inl e \<Rightarrow> (Inl e, ns)
         | Inr local \<Rightarrow> (Inr (), update_socket i (\<lambda>s. s\<lparr>so_local := Some local\<rparr>) ns))))"

subsection \<open>The raw sender\<close>

text \<open>A sender or receiver that is bound again lets go of its former socket; \<open>release_sockets\<close> says what becomes of it, for those who know its owners.\<close>

record raw_sender =
  rs_executor :: nat
  rs_socket :: "nat option"

definition raw_bind_address :: "asio_lib \<Rightarrow> string \<Rightarrow> 16 word \<Rightarrow> raw_sender \<Rightarrow> net_state \<Rightarrow> (asio_error + unit) \<times> raw_sender \<times> net_state" where
  "raw_bind_address al address port sn ns = (case make_udp_endpoint al address port of
       Inl e \<Rightarrow> (Inl e, sn, ns)
     | Inr endpoint \<Rightarrow>
         let (i, ns) = make_socket (rs_executor sn) ns; (r, ns) = open_and_bind_udp_socket al (Some i) endpoint ns in
         (r, sn\<lparr>rs_socket := Some i\<rparr>, ns))"

definition raw_bind_socket :: "nat option \<Rightarrow> raw_sender \<Rightarrow> net_state \<Rightarrow> (asio_error + unit) \<times> raw_sender" where
  "raw_bind_socket skt sn ns = (case skt of
       None \<Rightarrow> (Inl BadDescriptor, sn)
     | Some i \<Rightarrow> if \<not> socket_is_open i ns then (Inl BadDescriptor, sn)
         else (Inr (), sn\<lparr>rs_socket := Some i, rs_executor := so_executor (ns_sockets ns ! i)\<rparr>))"

definition connect_socket :: "asio_lib \<Rightarrow> nat \<Rightarrow> udp_endpoint \<Rightarrow> net_state \<Rightarrow> unit net_result" where
  "connect_socket al i endpoint ns = (case al_connect al i endpoint of
       Some e \<Rightarrow> (Inl e, ns) | None \<Rightarrow> (Inr (), update_socket i (\<lambda>s. s\<lparr>so_remote := Some endpoint\<rparr>) ns))"

definition raw_connect :: "asio_lib \<Rightarrow> string \<Rightarrow> 16 word \<Rightarrow> raw_sender \<Rightarrow> net_state \<Rightarrow> (asio_error + unit) \<times> raw_sender \<times> net_state" where
  "raw_connect al address port sn ns = (case make_udp_endpoint al address port of
       Inl e \<Rightarrow> (Inl e, sn, ns)
     | Inr endpoint \<Rightarrow> (case rs_socket sn of
         None \<Rightarrow>
           let (i, ns) = make_socket (rs_executor sn) ns; sn = sn\<lparr>rs_socket := Some i\<rparr> in
           (case open_socket al i ns of
              (Inl e, ns) \<Rightarrow> (Inl e, sn, ns)
            | (Inr _, ns) \<Rightarrow> let (r, ns) = connect_socket al i endpoint ns in (r, sn, ns))
       | Some i \<Rightarrow> let (r, ns) = connect_socket al i endpoint ns in (r, sn, ns)))"

definition socket_local_endpoint :: "asio_lib \<Rightarrow> nat option \<Rightarrow> net_state \<Rightarrow> asio_error + udp_endpoint" where
  "socket_local_endpoint al skt ns = (case skt of
       None \<Rightarrow> Inl BadDescriptor
     | Some i \<Rightarrow> if \<not> socket_is_open i ns then Inl BadDescriptor
         else (case so_local (ns_sockets ns ! i) of Some e \<Rightarrow> Inr e | None \<Rightarrow> al_local_unbound al i))"

definition raw_local_endpoint :: "asio_lib \<Rightarrow> raw_sender \<Rightarrow> net_state \<Rightarrow> asio_error + udp_endpoint" where
  "raw_local_endpoint al sn ns = socket_local_endpoint al (rs_socket sn) ns"

definition close_if_open :: "asio_lib \<Rightarrow> nat option \<Rightarrow> net_state \<Rightarrow> unit net_result" where
  "close_if_open al skt ns = (case skt of
       None \<Rightarrow> (Inr (), ns)
     | Some i \<Rightarrow> if socket_is_open i ns then close_socket al i ns else (Inr (), ns))"

definition raw_close :: "asio_lib \<Rightarrow> raw_sender \<Rightarrow> net_state \<Rightarrow> unit net_result" where
  "raw_close al sn ns = close_if_open al (rs_socket sn) ns"

text \<open>The socket is used without a check: \<open>None\<close> is the dereference of a null pointer.\<close>

definition raw_async_send_pkt :: "byte list \<Rightarrow> udp_endpoint \<Rightarrow> nat option \<Rightarrow> raw_sender \<Rightarrow> net_state \<Rightarrow> net_state option" where
  "raw_async_send_pkt bs dst cb sn ns =
     map_option (\<lambda>i. ns\<lparr>ns_outstanding := ns_outstanding ns @ [(i, SendTo bs dst cb)]\<rparr>) (rs_socket sn)"

definition raw_async_send_connected_pkt :: "byte list \<Rightarrow> nat option \<Rightarrow> raw_sender \<Rightarrow> net_state \<Rightarrow> net_state option" where
  "raw_async_send_connected_pkt bs cb sn ns =
     map_option (\<lambda>i. ns\<lparr>ns_outstanding := ns_outstanding ns @ [(i, SendConnected bs cb)]\<rparr>) (rs_socket sn)"

definition invoke_callback :: "nat option \<Rightarrow> (nat \<Rightarrow> invocation) \<Rightarrow> net_state \<Rightarrow> net_state" where
  "invoke_callback cb call ns = (case cb of None \<Rightarrow> ns | Some k \<Rightarrow> ns\<lparr>ns_invoked := ns_invoked ns @ [call k]\<rparr>)"

definition post_callback :: "nat option \<Rightarrow> (nat \<Rightarrow> invocation) \<Rightarrow> net_state \<Rightarrow> net_state" where
  "post_callback cb call ns = (case cb of None \<Rightarrow> ns | Some k \<Rightarrow> ns\<lparr>ns_posted := ns_posted ns @ [call k]\<rparr>)"

definition raw_on_sent :: "asio_error option \<Rightarrow> nat \<Rightarrow> nat option \<Rightarrow> net_state \<Rightarrow> net_state" where
  "raw_on_sent err bytes_sent cb ns =
     (if err = Some OperationAborted then ns else invoke_callback cb (\<lambda>k. OnSent k bytes_sent err) ns)"

subsection \<open>The receiver\<close>

record rtp_receiver =
  rv_rx_buffer :: "byte list"
  rv_executor :: nat
  rv_socket :: "nat option"
  rv_sender_info :: "udp_endpoint option"

definition rcv_bind_address :: "asio_lib \<Rightarrow> string \<Rightarrow> 16 word \<Rightarrow> rtp_receiver \<Rightarrow> net_state \<Rightarrow> (asio_error + unit) \<times> rtp_receiver \<times> net_state" where
  "rcv_bind_address al address port rv ns = (case make_udp_endpoint al address port of
       Inl e \<Rightarrow> (Inl e, rv, ns)
     | Inr endpoint \<Rightarrow>
         let (i, ns) = make_socket (rv_executor rv) ns; (r, ns) = open_and_bind_udp_socket al (Some i) endpoint ns in
         (r, rv\<lparr>rv_socket := Some i\<rparr>, ns))"

definition rcv_bind_socket :: "nat option \<Rightarrow> rtp_receiver \<Rightarrow> net_state \<Rightarrow> (asio_error + unit) \<times> rtp_receiver" where
  "rcv_bind_socket skt rv ns = (case skt of
       None \<Rightarrow> (Inl BadDescriptor, rv)
     | Some i \<Rightarrow> (Inr (), rv\<lparr>rv_socket := Some i, rv_executor := so_executor (ns_sockets ns ! i)\<rparr>))"

text \<open>A new socket is opened with the call that throws: \<open>None\<close> is the exception.\<close>

definition rcv_connect :: "asio_lib \<Rightarrow> string \<Rightarrow> 16 word \<Rightarrow> rtp_receiver \<Rightarrow> net_state \<Rightarrow> ((asio_error + unit) \<times> rtp_receiver \<times> net_state) option" where
  "rcv_connect al address port rv ns = (case make_udp_endpoint al address port of
       Inl e \<Rightarrow> Some (Inl e, rv, ns)
     | Inr endpoint \<Rightarrow> (case rv_socket rv of
         None \<Rightarrow>
           let (i, ns) = make_socket (rv_executor rv) ns; rv = rv\<lparr>rv_socket := Some i\<rparr> in
           (case open_socket al i ns of
              (Inl e, ns) \<Rightarrow> None
            | (Inr _, ns) \<Rightarrow> let (r, ns) = connect_socket al i endpoint ns in Some (r, rv, ns))
       | Some i \<Rightarrow> let (r, ns) = connect_socket al i endpoint ns in Some (r, rv, ns)))"

definition rcv_local_endpoint :: "asio_lib \<Rightarrow> rtp_receiver \<Rightarrow> net_state \<Rightarrow> asio_error + udp_endpoint" where
  "rcv_local_endpoint al rv ns = socket_local_endpoint al (rv_socket rv) ns"

definition rcv_close :: "asio_lib \<Rightarrow> rtp_receiver \<Rightarrow> net_state \<Rightarrow> unit net_result" where
  "rcv_close al rv ns = close_if_open al (rv_socket rv) ns"

definition async_receive_pkt :: "nat option \<Rightarrow> rtp_receiver \<Rightarrow> net_state \<Rightarrow> net_state" where
  "async_receive_pkt cb rv ns = (case rv_socket rv of
       Some i \<Rightarrow> if socket_is_open i ns then ns\<lparr>ns_outstanding := ns_outstanding ns @ [(i, ReceiveFrom cb)]\<rparr>
         else post_callback cb (\<lambda>k. OnReceiveFailed k BadDescriptor) ns
     | None \<Rightarrow> post_callback cb (\<lambda>k. OnReceiveFailed k BadDescriptor) ns)"

definition async_receive_connected_pkt :: "nat option \<Rightarrow> rtp_receiver \<Rightarrow> net_state \<Rightarrow> net_state" where
  "async_receive_connected_pkt cb rv ns = (case rv_socket rv of
       Some i \<Rightarrow> if socket_is_open i ns then ns\<lparr>ns_outstanding := ns_outstanding ns @ [(i, ReceiveConnected cb)]\<rparr>
         else post_callback cb (\<lambda>k. OnReceiveFailed k BadDescriptor) ns
     | None \<Rightarrow> post_callback cb (\<lambda>k. OnReceiveFailed k BadDescriptor) ns)"

text \<open>The completion of a receive: an error, or a datagram in the buffer, from a sender when the operation asked for it. \<open>None\<close>: the parser left the buffer.\<close>

definition on_received ::
  "asio_error option \<Rightarrow> byte list \<Rightarrow> udp_endpoint option \<Rightarrow> nat option \<Rightarrow> rtp_receiver \<Rightarrow> net_state \<Rightarrow> (rtp_receiver \<times> net_state) option" where
  "on_received err datagram from cb rv ns =
     (if err = Some OperationAborted then Some (rv, ns)
      else
        let bytes = take (length (rv_rx_buffer rv)) datagram;
            rv = rv\<lparr>rv_rx_buffer := bytes @ drop (length bytes) (rv_rx_buffer rv), rv_sender_info := (if from = None then rv_sender_info rv else from)\<rparr> in
        case err of
          Some e \<Rightarrow> Some (rv, invoke_callback cb (\<lambda>k. OnReceiveFailed k e) ns)
        | None \<Rightarrow> map_option (\<lambda>(r, pkt). (rv, invoke_callback cb (\<lambda>k. OnReceived k r pkt from) ns)) (receive_pkt bytes))"

subsection \<open>The session\<close>

record rtp_session =
  se_sender :: raw_sender
  se_receiver :: rtp_receiver

abbreviation session_owners :: "rtp_session \<Rightarrow> nat option list" where
  "session_owners se \<equiv> [rs_socket (se_sender se), rv_socket (se_receiver se)]"

definition make_raw_rtp_session :: "nat \<Rightarrow> rtp_session" where
  "make_raw_rtp_session executor = \<lparr>se_sender = \<lparr>rs_executor = executor, rs_socket = None\<rparr>,
     se_receiver = \<lparr>rv_rx_buffer = replicate kMaxRtpPacketSize 0, rv_executor = executor, rv_socket = None, rv_sender_info = None\<rparr>\<rparr>"

definition session_bind_raw :: "asio_lib \<Rightarrow> string \<Rightarrow> 16 word \<Rightarrow> rtp_session \<Rightarrow> net_state \<Rightarrow> (asio_error + unit) \<times> rtp_session \<times> net_state" where
  "session_bind_raw al address port se ns =
     (let (i, ns) = make_socket (rs_executor (se_sender se)) ns in
      case make_udp_endpoint al address port of
        Inl e \<Rightarrow> (Inl e, se, ns)
      | Inr endpoint \<Rightarrow> (case open_and_bind_udp_socket al (Some i) endpoint ns of
          (Inl e, ns) \<Rightarrow> (Inl e, se, ns)
        | (Inr _, ns) \<Rightarrow> (case raw_bind_socket (Some i) (se_sender se) ns of
            (Inl e, sn) \<Rightarrow> (Inl e, se\<lparr>se_sender := sn\<rparr>, ns)
          | (Inr _, sn) \<Rightarrow> (case rcv_bind_socket (Some i) (se_receiver se) ns of
              (r, rv) \<Rightarrow> (r, se\<lparr>se_sender := sn, se_receiver := rv\<rparr>, ns)))))"

text \<open>When the call returns, the new socket and the ones held before are gone unless the session holds them.\<close>

definition session_bind :: "asio_lib \<Rightarrow> string \<Rightarrow> 16 word \<Rightarrow> rtp_session \<Rightarrow> net_state \<Rightarrow> (asio_error + unit) \<times> rtp_session \<times> net_state" where
  "session_bind al address port se ns =
     (case session_bind_raw al address port se ns of
        (r, se', ns') \<Rightarrow> (r, se', release_sockets (Some (length (ns_sockets ns)) # session_owners se) (session_owners se') ns'))"

definition session_close :: "asio_lib \<Rightarrow> rtp_session \<Rightarrow> net_state \<Rightarrow> unit net_result" where
  "session_close al se ns = (case raw_close al (se_sender se) ns of
       (Inl e, ns) \<Rightarrow> (Inl e, ns)
     | (Inr _, ns) \<Rightarrow> rcv_close al (se_receiver se) ns)"

subsection \<open>The managed sender\<close>

record rtp_sender =
  mn_raw_sender :: raw_sender
  mn_payload_type :: byte
  mn_ssrc :: "32 word"
  mn_current_seq :: "16 word"

text \<open>The socket operations forward to the raw sender; the sequence numbers start at a random number.\<close>

definition make_rtp_sender :: "raw_sender \<Rightarrow> byte \<Rightarrow> 32 word \<Rightarrow> 16 word \<Rightarrow> rtp_sender" where
  "make_rtp_sender raw payload_type ssrc random_seq =
     \<lparr>mn_raw_sender = raw, mn_payload_type = payload_type, mn_ssrc = ssrc, mn_current_seq = random_seq\<rparr>"

definition managed_bind_address :: "asio_lib \<Rightarrow> string \<Rightarrow> 16 word \<Rightarrow> rtp_sender \<Rightarrow> net_state \<Rightarrow> (asio_error + unit) \<times> rtp_sender \<times> net_state" where
  "managed_bind_address al address port sn ns =
     (case raw_bind_address al address port (mn_raw_sender sn) ns of (r, raw, ns) \<Rightarrow> (r, sn\<lparr>mn_raw_sender := raw\<rparr>, ns))"

definition managed_bind_socket :: "nat option \<Rightarrow> rtp_sender \<Rightarrow> net_state \<Rightarrow> (asio_error + unit) \<times> rtp_sender" where
  "managed_bind_socket skt sn ns = (case raw_bind_socket skt (mn_raw_sender sn) ns of (r, raw) \<Rightarrow> (r, sn\<lparr>mn_raw_sender := raw\<rparr>))"

definition managed_connect :: "asio_lib \<Rightarrow> string \<Rightarrow> 16 word \<Rightarrow> rtp_sender \<Rightarrow> net_state \<Rightarrow> (asio_error + unit) \<times> rtp_sender \<times> net_state" where
  "managed_connect al address port sn ns =
     (case raw_connect al address port (mn_raw_sender sn) ns of (r, raw, ns) \<Rightarrow> (r, sn\<lparr>mn_raw_sender := raw\<rparr>, ns))"

definition managed_close :: "asio_lib \<Rightarrow> rtp_sender \<Rightarrow> net_state \<Rightarrow> unit net_result" where
  "managed_close al sn ns = raw_close al (mn_raw_sender sn) ns"

datatype managed_send = ManagedPacket "byte list" "16 word" | ManagedFailed rtp_result

definition managed_packet :: "byte list \<Rightarrow> 32 word \<Rightarrow> bool \<Rightarrow> rtp_sender \<Rightarrow> (managed_send \<times> rtp_sender) option" where
  "managed_packet bs timestamp marker sn = do {
     let pkt = new_packet False (replicate (length bs + kFixedRTPSize) 0);
     pkt \<leftarrow> set_timestamp timestamp pkt;
     pkt \<leftarrow> set_payload_type (mn_payload_type sn) pkt;
     pkt \<leftarrow> set_ssrc (mn_ssrc sn) pkt;
     let seq = mn_current_seq sn;
     let sn1 = sn\<lparr>mn_current_seq := seq + 1\<rparr>;
     pkt \<leftarrow> set_sequence_number seq pkt;
     pkt \<leftarrow> set_marker marker pkt;
     (r, pkt) \<leftarrow> set_payload_size (narrow16 (length bs)) pkt;
     if r \<noteq> RtpSuccess then Some (ManagedFailed r, sn1)
     else do {
       pkt \<leftarrow> write_payload bs pkt;
       Some (ManagedPacket (pk_buffer pkt) seq, sn1) } }"

text \<open>A callback of the managed sender also gets the sequence number.\<close>

datatype managed_call = ManagedCall nat nat rtp_result "16 word"

definition managed_async_send_pkt ::
  "byte list \<Rightarrow> 32 word \<Rightarrow> udp_endpoint option \<Rightarrow> bool \<Rightarrow> nat option \<Rightarrow> rtp_sender \<Rightarrow> net_state \<Rightarrow> (managed_call option \<times> rtp_sender \<times> net_state) option" where
  "managed_async_send_pkt bs timestamp dst marker cb sn ns = do {
     (r, sn) \<leftarrow> managed_packet bs timestamp marker sn;
     (case r of
        ManagedFailed e \<Rightarrow> Some (map_option (\<lambda>k. ManagedCall k 0 e 0) cb, sn, ns)
      | ManagedPacket bytes seq \<Rightarrow> map_option (\<lambda>ns. (None, sn, ns))
          (case dst of
             Some dst \<Rightarrow> raw_async_send_pkt bytes dst cb (mn_raw_sender sn) ns
           | None \<Rightarrow> raw_async_send_connected_pkt bytes cb (mn_raw_sender sn) ns)) }"

subsection \<open>The sender behind a channel\<close>

record channel_data =
  cd_remote :: "udp_endpoint option"
  cd_buffer :: "byte list"
  cd_callback :: "nat option"

text \<open>The channel is a library's: offering a message may be refused, taking one finds a message, with an error code, or none.\<close>

record 'c channel_lib =
  ch_try_send :: "channel_data \<Rightarrow> 'c \<Rightarrow> bool \<times> 'c"
  ch_try_receive :: "'c \<Rightarrow> ((asio_error option \<times> channel_data) \<times> 'c) option"
  ch_close :: "'c \<Rightarrow> 'c"

record 'c concurrent_sender =
  cn_sender :: raw_sender
  cn_channel :: 'c

definition concurrent_bind_address ::
  "asio_lib \<Rightarrow> string \<Rightarrow> 16 word \<Rightarrow> 'c concurrent_sender \<Rightarrow> net_state \<Rightarrow> (asio_error + unit) \<times> 'c concurrent_sender \<times> net_state" where
  "concurrent_bind_address al address port cs ns =
     (case raw_bind_address al address port (cn_sender cs) ns of (r, raw, ns) \<Rightarrow> (r, cs\<lparr>cn_sender := raw\<rparr>, ns))"

definition concurrent_bind_socket :: "nat option \<Rightarrow> 'c concurrent_sender \<Rightarrow> net_state \<Rightarrow> (asio_error + unit) \<times> 'c concurrent_sender" where
  "concurrent_bind_socket skt cs ns = (case raw_bind_socket skt (cn_sender cs) ns of (r, raw) \<Rightarrow> (r, cs\<lparr>cn_sender := raw\<rparr>))"

definition concurrent_connect ::
  "asio_lib \<Rightarrow> string \<Rightarrow> 16 word \<Rightarrow> 'c concurrent_sender \<Rightarrow> net_state \<Rightarrow> (asio_error + unit) \<times> 'c concurrent_sender \<times> net_state" where
  "concurrent_connect al address port cs ns =
     (case raw_connect al address port (cn_sender cs) ns of (r, raw, ns) \<Rightarrow> (r, cs\<lparr>cn_sender := raw\<rparr>, ns))"

definition concurrent_close ::
  "asio_lib \<Rightarrow> 'c channel_lib \<Rightarrow> 'c concurrent_sender \<Rightarrow> net_state \<Rightarrow> (asio_error + unit) \<times> 'c concurrent_sender \<times> net_state" where
  "concurrent_close al ch cs ns =
     (case raw_close al (cn_sender cs) ns of (r, ns) \<Rightarrow> (r, cs\<lparr>cn_channel := ch_close ch (cn_channel cs)\<rparr>, ns))"

definition concurrent_async_send_pkt ::
  "'c channel_lib \<Rightarrow> byte list \<Rightarrow> udp_endpoint option \<Rightarrow> nat option \<Rightarrow> 'c concurrent_sender \<Rightarrow> net_state \<Rightarrow> 'c concurrent_sender \<times> net_state" where
  "concurrent_async_send_pkt ch raw_packet dst cb cs ns =
     (case ch_try_send ch \<lparr>cd_remote = dst, cd_buffer = raw_packet, cd_callback = cb\<rparr> (cn_channel cs) of
        (True, c) \<Rightarrow> (cs\<lparr>cn_channel := c\<rparr>, ns)
      | (False, c) \<Rightarrow> (cs\<lparr>cn_channel := c\<rparr>, post_callback None (\<lambda>k. OnSent k 0 (Some NoBufferSpace)) ns))"

text \<open>The variant for a connected socket is the one without a destination.\<close>

definition concurrent_handle_packet :: "channel_data \<Rightarrow> 'c concurrent_sender \<Rightarrow> net_state \<Rightarrow> net_state option" where
  "concurrent_handle_packet d cs ns = (case cd_remote d of
       Some dst \<Rightarrow> raw_async_send_pkt (cd_buffer d) dst (cd_callback d) (cn_sender cs) ns
     | None \<Rightarrow> raw_async_send_connected_pkt (cd_buffer d) (cd_callback d) (cn_sender cs) ns)"

text \<open>The failure callback is dispatched on the executor the loop runs on, where it is called in place.\<close>

definition channel_message :: "asio_error option \<Rightarrow> channel_data \<Rightarrow> 'c concurrent_sender \<Rightarrow> net_state \<Rightarrow> net_state option" where
  "channel_message err d cs ns = (case err of
       Some e \<Rightarrow> Some (if e \<noteq> OperationAborted then invoke_callback (cd_callback d) (\<lambda>k. OnSent k 0 (Some e)) ns else ns)
     | None \<Rightarrow> concurrent_handle_packet d cs ns)"

text \<open>The loop over the messages at hand. \<open>None\<close> when it never ends; \<open>Some None\<close> when a message was handed to a sender without a socket.\<close>

partial_function (option) channel_loop ::
  "'c channel_lib \<Rightarrow> 'c concurrent_sender \<Rightarrow> net_state \<Rightarrow> ('c concurrent_sender \<times> net_state) option option" where
  "channel_loop ch cs ns = (case ch_try_receive ch (cn_channel cs) of
       None \<Rightarrow> Some (Some (cs, ns))
     | Some ((err, d), c) \<Rightarrow> (case channel_message err d cs ns of
         None \<Rightarrow> Some None
       | Some ns' \<Rightarrow> channel_loop ch (cs\<lparr>cn_channel := c\<rparr>) ns'))"

definition concurrent_create :: "'c channel_lib \<Rightarrow> nat \<Rightarrow> 'c \<Rightarrow> net_state \<Rightarrow> ('c concurrent_sender \<times> net_state) option option" where
  "concurrent_create ch executor channel ns = channel_loop ch \<lparr>cn_sender = \<lparr>rs_executor = executor, rs_socket = None\<rparr>, cn_channel = channel\<rparr> ns"

text \<open>The message that ends the wait after the loop; the loop goes on unless the wait was cancelled.\<close>

definition on_channel_receive ::
  "'c channel_lib \<Rightarrow> asio_error option \<Rightarrow> channel_data \<Rightarrow> 'c concurrent_sender \<Rightarrow> net_state \<Rightarrow> ('c concurrent_sender \<times> net_state) option option" where
  "on_channel_receive ch err d cs ns = (case channel_message err d cs ns of
       None \<Rightarrow> Some None
     | Some ns \<Rightarrow> if err = Some OperationAborted then Some (Some (cs, ns)) else channel_loop ch cs ns)"

subsection \<open>Which buffer a pending send reads\<close>

record buffer_heap =
  bh_live :: "nat \<rightharpoonup> byte list"
  bh_next :: nat

definition bh_alloc :: "byte list \<Rightarrow> buffer_heap \<Rightarrow> nat \<times> buffer_heap" where
  "bh_alloc bs h = (bh_next h, h\<lparr>bh_live := (bh_live h)(bh_next h \<mapsto> bs), bh_next := bh_next h + 1\<rparr>)"

definition bh_free :: "nat \<Rightarrow> buffer_heap \<Rightarrow> buffer_heap" where
  "bh_free a h = h\<lparr>bh_live := (bh_live h)(a := None)\<rparr>"

text \<open>A send in progress: the storage its span points to, and the buffer its completion handler owns.\<close>

record pending_send =
  pd_span :: nat
  pd_owned :: nat

text \<open>The managed sender takes a span of its vector and then moves the vector into the handler, which keeps its storage.\<close>

definition managed_send_buffer :: "byte list \<Rightarrow> buffer_heap \<Rightarrow> pending_send \<times> buffer_heap" where
  "managed_send_buffer bytes h = (let (a, h) = bh_alloc bytes h in (\<lparr>pd_span = a, pd_owned = a\<rparr>, h))"

text \<open>\<^verbatim>\<open>handle_packet\<close> copies its parameter into the handler, hands a span of the parameter to the sender, and destroys the parameter when it returns.\<close>

definition concurrent_send_buffer :: "byte list \<Rightarrow> buffer_heap \<Rightarrow> pending_send \<times> buffer_heap" where
  "concurrent_send_buffer bytes h =
     (let (a, h) = bh_alloc bytes h; (copy, h) = bh_alloc bytes h in (\<lparr>pd_span = a, pd_owned = copy\<rparr>, bh_free a h))"

subsection \<open>The media clock\<close>

record media_clock =
  mc_sample_rate_hz :: "32 word"
  mc_random_start_offset :: "32 word"
  mc_current_timestamp :: "32 word"

definition new_clock :: "32 word \<Rightarrow> 32 word \<Rightarrow> media_clock" where
  "new_clock rate offset = \<lparr>mc_sample_rate_hz = rate, mc_random_start_offset = offset, mc_current_timestamp = offset\<rparr>"

text \<open>The product is computed in 64 bits with sign, where an overflow is undefined: \<open>None\<close>. The division truncates towards zero.\<close>

definition clock_ticks :: "32 word \<Rightarrow> int \<Rightarrow> int option" where
  "clock_ticks rate ns =
     (let product = ns * uint rate in
      if product < - (2 ^ 63) \<or> product \<ge> 2 ^ 63 then None
      else Some (if product \<ge> 0 then product div 1000000000 else - ((- product) div 1000000000)))"

definition to_rtp_timestamp :: "int \<Rightarrow> media_clock \<Rightarrow> 32 word option" where
  "to_rtp_timestamp hardware_time mc =
     map_option (\<lambda>ticks. mc_random_start_offset mc + word_of_int ticks) (clock_ticks (mc_sample_rate_hz mc) hardware_time)"

definition clock_advance :: "int \<Rightarrow> media_clock \<Rightarrow> (32 word \<times> media_clock) option" where
  "clock_advance duration_ns mc =
     map_option (\<lambda>ticks. let ts = mc_current_timestamp mc + word_of_int ticks in (ts, mc\<lparr>mc_current_timestamp := ts\<rparr>))
       (clock_ticks (mc_sample_rate_hz mc) duration_ns)"

subsection \<open>A session has one socket\<close>

lemma open_update [simp]:
  "socket_is_open i (update_socket j f ns) =
     (if i = j then i < length (ns_sockets ns) \<and> so_open (f (ns_sockets ns ! i)) else socket_is_open i ns)"
  by (auto simp: socket_is_open_def update_socket_def)

lemma length_update [simp]: "length (ns_sockets (update_socket i f ns)) = length (ns_sockets ns)"
  by (simp add: update_socket_def)

lemma length_release [simp]: "length (ns_sockets (release_sockets dropped owners ns)) = length (ns_sockets ns)"
  by (induction dropped arbitrary: ns) (auto simp: release_sockets_def split: option.split)

lemma open_release [simp]:
  "socket_is_open i (release_sockets dropped owners ns) \<longleftrightarrow> socket_is_open i ns \<and> (Some i \<in> set dropped \<longrightarrow> Some i \<in> set owners)"
proof (induction dropped arbitrary: ns)
  case (Cons skt dropped)
  have "release_sockets (skt # dropped) owners ns = release_sockets dropped owners (case skt of None \<Rightarrow> ns
      | Some j \<Rightarrow> if skt \<in> set owners then ns else update_socket j (\<lambda>s. s\<lparr>so_open := False, so_local := None, so_remote := None\<rparr>) ns)"
    by (simp add: release_sockets_def)
  with Cons.IH show ?case by (auto split: option.split)
qed (simp add: release_sockets_def)

text \<open>The ends of a session hold the same socket, and of the sockets made since some point only that one may be open.\<close>

definition session_ok :: "nat \<Rightarrow> rtp_session \<Rightarrow> net_state \<Rightarrow> bool" where
  "session_ok n se ns \<longleftrightarrow> n \<le> length (ns_sockets ns) \<and> rs_socket (se_sender se) = rv_socket (se_receiver se) \<and>
     (\<forall>i. rs_socket (se_sender se) = Some i \<longrightarrow> n \<le> i \<and> i < length (ns_sockets ns)) \<and>
     (\<forall>i \<ge> n. socket_is_open i ns \<longrightarrow> rs_socket (se_sender se) = Some i)"

lemma make_socket_simps [simp]: "socket_is_open i (snd (make_socket ex ns)) = socket_is_open i ns" "fst (make_socket ex ns) = length (ns_sockets ns)"
    "length (ns_sockets (snd (make_socket ex ns))) = Suc (length (ns_sockets ns))"
  by (auto simp: make_socket_def socket_is_open_def nth_append less_Suc_eq)

text \<open>What a bind leads to: a session on a new open socket, or an error with the session as it was.\<close>

lemma session_bind_cases:
  assumes ok: "session_ok n se ns" and bind: "session_bind al address port se ns = (r, se', ns')"
  obtains (bound) "r = Inr ()" "rs_socket (se_sender se') = Some (length (ns_sockets ns))" "rv_socket (se_receiver se') = Some (length (ns_sockets ns))"
      "\<And>i. socket_is_open i ns' \<longleftrightarrow> i = length (ns_sockets ns) \<or> socket_is_open i ns \<and> Some i \<noteq> rs_socket (se_sender se)"
      "length (ns_sockets ns') = Suc (length (ns_sockets ns))"
    | (failed) e where "r = Inl e" "se' = se" "\<And>i. socket_is_open i ns' \<longleftrightarrow> socket_is_open i ns" "length (ns_sockets ns') = Suc (length (ns_sockets ns))"
proof -
  let ?i = "length (ns_sockets ns)"
  define ns1 where "ns1 = snd (make_socket (rs_executor (se_sender se)) ns)"
  have fresh: "\<not> socket_is_open ?i ns" "rs_socket (se_sender se) \<noteq> Some ?i"
    using ok unfolding session_ok_def by (simp add: socket_is_open_def, blast)
  have same: "rv_socket (se_receiver se) = rs_socket (se_sender se)" using ok by (simp add: session_ok_def)
  have mk: "make_socket (rs_executor (se_sender se)) ns = (?i, ns1)" by (simp add: make_socket_def ns1_def)
  have ns1: "socket_is_open i ns1 = socket_is_open i ns" "length (ns_sockets ns1) = Suc ?i" for i by (simp_all add: ns1_def)
  let ?drop = "[Some ?i, rs_socket (se_sender se), rs_socket (se_sender se)]"
  have failure: thesis if "r = Inl e" "se' = se" "ns' = release_sockets ?drop (session_owners se) ns2" "\<And>i. socket_is_open i ns2 \<longleftrightarrow> socket_is_open i ns \<or> b \<and> i = ?i"
      "length (ns_sockets ns2) = Suc ?i" for e ns2 b
  proof (rule failed [OF that(1,2)])
    show "socket_is_open i ns' \<longleftrightarrow> socket_is_open i ns" for i unfolding that(3) open_release that(4) using fresh same by auto
    show "length (ns_sockets ns') = Suc ?i" unfolding that(3) length_release by (rule that(5))
  qed
  note unfold = session_bind_def session_bind_raw_def open_and_bind_udp_socket_def open_socket_def
  show thesis
  proof (cases "make_udp_endpoint al address port")
    case (Inl e)
    show thesis by (rule failure [of e ns1 False]) (use bind mk Inl same in \<open>auto simp: unfold ns1\<close>)
  next
    case ep: (Inr endpoint)
    show thesis
    proof (cases "al_open al ?i")
      case (Some e)
      show thesis by (rule failure [of e ns1 False]) (use bind mk ep Some same in \<open>auto simp: unfold ns1\<close>)
    next
      case None
      let ?ns2 = "update_socket ?i (\<lambda>s. s\<lparr>so_open := True\<rparr>) ns1"
      show thesis
      proof (cases "al_bind al ?i endpoint")
        case (Inl e)
        show thesis by (rule failure [of e ?ns2 True]) (use bind mk ep None Inl same in \<open>auto simp: unfold ns1\<close>)
      next
        case (Inr local)
        let ?ns3 = "update_socket ?i (\<lambda>s. s\<lparr>so_local := Some local\<rparr>) ?ns2"
        have up: "socket_is_open i ?ns3 \<longleftrightarrow> socket_is_open i ns \<or> i = ?i" for i
          by (auto simp: update_socket_def socket_is_open_def nth_list_update make_socket_def ns1_def nth_append less_Suc_eq)
        have res: "r = Inr ()" "rs_socket (se_sender se') = Some ?i" "rv_socket (se_receiver se') = Some ?i"
            "ns' = release_sockets ?drop [Some ?i, Some ?i] ?ns3"
          using bind mk ep None Inr same up [of ?i] by (auto simp: unfold raw_bind_socket_def rcv_bind_socket_def)
        show thesis
        proof (rule bound [OF res(1-3)])
          show "socket_is_open i ns' \<longleftrightarrow> i = ?i \<or> socket_is_open i ns \<and> Some i \<noteq> rs_socket (se_sender se)" for i
            unfolding res(4) open_release up using fresh by auto
          show "length (ns_sockets ns') = Suc ?i" unfolding res(4) length_release by (simp add: ns1)
        qed
      qed
    qed
  qed
qed

datatype session_op = SessionBind string "16 word" | SessionClose

fun session_step :: "asio_lib \<Rightarrow> rtp_session \<times> net_state \<Rightarrow> session_op \<Rightarrow> rtp_session \<times> net_state" where
  "session_step al (se, ns) (SessionBind address port) = snd (session_bind al address port se ns)"
| "session_step al (se, ns) SessionClose = (se, snd (session_close al se ns))"

lemma session_bind_ok:
  assumes "session_ok n se ns" and "session_bind al address port se ns = (r, se', ns')"
  shows "session_ok n se' ns'"
proof -
  have ok: "n \<le> length (ns_sockets ns)" "\<And>i. n \<le> i \<Longrightarrow> socket_is_open i ns \<Longrightarrow> Some i = rs_socket (se_sender se)"
    using assms(1) unfolding session_ok_def by metis+
  from assms show ?thesis
  proof (cases rule: session_bind_cases)
    case bound
    show ?thesis unfolding session_ok_def bound(2-5) using ok by (metis le_SucI lessI option.inject)
  next
    case (failed e)
    show ?thesis using assms(1) unfolding session_ok_def failed(2-4) by (metis le_SucI less_SucI)
  qed
qed

lemma session_close_effect:
  assumes "rs_socket (se_sender se) = rv_socket (se_receiver se)" and "session_close al se ns = (r, ns')"
  shows "socket_is_open i ns' \<longleftrightarrow> socket_is_open i ns \<and> rs_socket (se_sender se) \<noteq> Some i" "length (ns_sockets ns') = length (ns_sockets ns)"
  using assms by (auto simp: session_close_def raw_close_def rcv_close_def close_if_open_def close_socket_def split: option.splits if_splits)

lemma session_close_ok:
  assumes "session_ok n se ns" and "session_close al se ns = (r, ns')"
  shows "session_ok n se ns'" "n \<le> i \<Longrightarrow> \<not> socket_is_open i ns'"
proof -
  have same: "rs_socket (se_sender se) = rv_socket (se_receiver se)" using assms(1) unfolding session_ok_def by blast
  note eff = session_close_effect [OF same assms(2)]
  show "session_ok n se ns'" using assms(1) unfolding session_ok_def eff by blast
  show "n \<le> i \<Longrightarrow> \<not> socket_is_open i ns'" using assms(1) unfolding session_ok_def eff by blast
qed

lemma session_run_ok: "session_ok n se ns \<Longrightarrow> foldl (session_step al) (se, ns) ops = (se', ns') \<Longrightarrow> session_ok n se' ns'"
proof (induction ops arbitrary: se ns)
  case (Cons op ops)
  obtain se1 ns1 where step: "session_step al (se, ns) op = (se1, ns1)" by fastforce
  have "session_ok n se1 ns1"
  proof (cases op)
    case (SessionBind address port)
    obtain r where "session_bind al address port se ns = (r, se1, ns1)" using step SessionBind by (cases "session_bind al address port se ns") simp
    with Cons.prems(1) show ?thesis by (rule session_bind_ok)
  next
    case SessionClose
    obtain r where "session_close al se ns = (r, ns1)" "se1 = se" using step SessionClose by (cases "session_close al se ns") simp
    with Cons.prems(1) session_close_ok(1) show ?thesis by blast
  qed
  with Cons step show ?case by simp
qed simp

lemma closed_again:
  assumes "\<And>i. rs_socket (se_sender se) = Some i \<Longrightarrow> \<not> socket_is_open i ns" and "rs_socket (se_sender se) = rv_socket (se_receiver se)"
  shows "session_close al se ns = (Inr (), ns)"
  using assms by (auto simp: session_close_def raw_close_def rcv_close_def close_if_open_def split: option.split)

text \<open>C32: A session has one socket. After any sequence of binds and closes, whatever of the network failed meanwhile, its sender and its receiver hold the same socket and report the
  same local endpoint, and no other socket the session ever made is still open. A bind that succeeds moves both ends to a new open socket and closes the old one; one that
  fails leaves the session on the socket it had and closes the new one. A close leaves none open, even when it reports an error, and closing again succeeds and does nothing.\<close>

theorem session_one_socket:
  assumes "foldl (session_step al) (make_raw_rtp_session executor, ns0) ops = (se, ns)"
  shows "session_ok (length (ns_sockets ns0)) se ns \<and> raw_local_endpoint al (se_sender se) ns = rcv_local_endpoint al (se_receiver se) ns \<and>
    (case session_bind al address port se ns of
       (Inr _, se', ns') \<Rightarrow> (\<exists>i. rs_socket (se_sender se') = Some i \<and> rv_socket (se_receiver se') = Some i \<and> i \<ge> length (ns_sockets ns) \<and>
          (\<forall>j \<ge> length (ns_sockets ns0). socket_is_open j ns' \<longleftrightarrow> j = i))
     | (Inl _, se', ns') \<Rightarrow> se' = se \<and> (\<forall>j. socket_is_open j ns' \<longleftrightarrow> socket_is_open j ns)) \<and>
    (case session_close al se ns of (_, ns') \<Rightarrow>
       (\<forall>j \<ge> length (ns_sockets ns0). \<not> socket_is_open j ns') \<and> session_close al se ns' = (Inr (), ns'))"
proof (intro conjI)
  let ?n = "length (ns_sockets ns0)"
  have "session_ok ?n (make_raw_rtp_session executor) ns0" by (simp add: session_ok_def make_raw_rtp_session_def socket_is_open_def)
  from session_run_ok [OF this assms] show ok: "session_ok ?n se ns" .
  then have same: "rs_socket (se_sender se) = rv_socket (se_receiver se)" unfolding session_ok_def by blast
  then show "raw_local_endpoint al (se_sender se) ns = rcv_local_endpoint al (se_receiver se) ns" by (simp add: raw_local_endpoint_def rcv_local_endpoint_def)
  obtain r se' ns' where bind: "session_bind al address port se ns = (r, se', ns')" by (metis surj_pair)
  from ok bind show "case session_bind al address port se ns of
       (Inr _, se', ns') \<Rightarrow> (\<exists>i. rs_socket (se_sender se') = Some i \<and> rv_socket (se_receiver se') = Some i \<and> i \<ge> length (ns_sockets ns) \<and>
          (\<forall>j \<ge> ?n. socket_is_open j ns' \<longleftrightarrow> j = i))
     | (Inl _, se', ns') \<Rightarrow> se' = se \<and> (\<forall>j. socket_is_open j ns' \<longleftrightarrow> socket_is_open j ns)"
  proof (cases rule: session_bind_cases)
    case bound
    have "socket_is_open j ns' \<longleftrightarrow> j = length (ns_sockets ns)" if "j \<ge> ?n" for j
      unfolding bound(4) using ok that unfolding session_ok_def by metis
    with bound(1-3) bind show ?thesis by simp
  qed (use bind in simp)
  obtain r2 ns2 where close: "session_close al se ns = (r2, ns2)" by fastforce
  have "session_close al se ns2 = (Inr (), ns2)"
    by (rule closed_again [OF _ same]) (use session_close_effect(1) [OF same close] in blast)
  with session_close_ok(2) [OF ok close] close show "case session_close al se ns of (_, ns') \<Rightarrow>
       (\<forall>j \<ge> ?n. \<not> socket_is_open j ns') \<and> session_close al se ns' = (Inr (), ns')" by simp
qed

definition sample_net :: asio_lib where
  "sample_net = \<lparr>al_make_address = Inr, al_open = (\<lambda>_. None), al_bind = (\<lambda>i ep. if i = 1 then Inl (SystemError 98) else Inr ep), al_connect = (\<lambda>_ _. None),
     al_close = (\<lambda>_. None), al_local_unbound = (\<lambda>_. Inr (''0.0.0.0'', 0))\<rparr>"

definition no_net :: net_state where
  "no_net = \<lparr>ns_sockets = [], ns_outstanding = [], ns_posted = [], ns_invoked = []\<rparr>"

theorem session_one_socket_witness:
  "\<exists>se ns. foldl (session_step sample_net) (make_raw_rtp_session 0, no_net) [SessionBind ''10.0.0.1'' 4000, SessionBind ''10.0.0.1'' 4000] = (se, ns) \<and>
     raw_local_endpoint sample_net (se_sender se) ns = Inr (''10.0.0.1'', 4000) \<and> rcv_local_endpoint sample_net (se_receiver se) ns = Inr (''10.0.0.1'', 4000)"
proof -
  obtain se ns where run: "foldl (session_step sample_net) (make_raw_rtp_session 0, no_net) [SessionBind ''10.0.0.1'' 4000, SessionBind ''10.0.0.1'' 4000] = (se, ns)"
    by fastforce
  moreover have "raw_local_endpoint sample_net (se_sender se) ns = Inr (''10.0.0.1'', 4000)"
    using run by (auto simp: sample_net_def no_net_def make_raw_rtp_session_def session_bind_def session_bind_raw_def make_socket_def make_udp_endpoint_def
        open_and_bind_udp_socket_def open_socket_def update_socket_def raw_bind_socket_def rcv_bind_socket_def socket_is_open_def release_sockets_def
        raw_local_endpoint_def socket_local_endpoint_def)
  moreover from session_one_socket [OF run] this have "rcv_local_endpoint sample_net (se_receiver se) ns = Inr (''10.0.0.1'', 4000)" by simp
  ultimately show ?thesis by blast
qed

subsection \<open>What the managed sender emits\<close>

lemma managed_packet_bytes:
  assumes pt: "mn_payload_type sn < 0x80" and bs: "bs \<noteq> []" "length bs < 65524"
  shows "managed_packet bs timestamp marker sn =
    Some (ManagedPacket (rtp_bytes (mn_payload_type sn) marker (mn_current_seq sn) timestamp (mn_ssrc sn) bs) (mn_current_seq sn),
      sn\<lparr>mn_current_seq := mn_current_seq sn + 1\<rparr>)"
proof -
  obtain k where k: "length bs = Suc k" using bs by (cases bs) auto
  define rest where "rest = replicate (Suc k) (0 :: byte)"
  have buf: "replicate (13 + k) (0 :: byte) = 0 # 0 # 0 # 0 # 0 # 0 # 0 # 0 # 0 # 0 # 0 # 0 # rest" and len: "length rest = Suc k"
    by (simp_all add: numeral_eq_Suc rest_def)
  have z: "set_version_bits 0 = 0x80" by (rule version_octet) simp
  show ?thesis
    using bs k len
    unfolding managed_packet_def Let_def
    by (simp add: packet_ops buf z octet1_written [OF pt] set_payload_size_def wr_last_def narrow16_eq_0)
      (simp add: write_payload_def rtp_bytes_def be16_def be32_def)
qed

text \<open>One managed send after another to one destination.\<close>

fun managed_run :: "udp_endpoint \<Rightarrow> nat option \<Rightarrow> (byte list \<times> 32 word \<times> bool) list \<Rightarrow> rtp_sender \<Rightarrow> net_state \<Rightarrow> (rtp_sender \<times> net_state) option" where
  "managed_run dst cb [] sn ns = Some (sn, ns)"
| "managed_run dst cb ((bs, timestamp, marker) # sends) sn ns = do {
     (call, sn, ns) \<leftarrow> managed_async_send_pkt bs timestamp (Some dst) marker cb sn ns;
     managed_run dst cb sends sn ns }"

definition sendable :: "byte list \<Rightarrow> bool" where
  "sendable bs \<longleftrightarrow> bs \<noteq> [] \<and> length bs \<le> kMaxRtpPacketSize - kFixedRTPSize"

definition managed_datagram :: "rtp_sender \<Rightarrow> nat \<Rightarrow> byte list \<times> 32 word \<times> bool \<Rightarrow> byte list" where
  "managed_datagram sn j = (\<lambda>(bs, timestamp, marker).
     rtp_bytes (mn_payload_type sn) marker (mn_current_seq sn + word_of_nat j) timestamp (mn_ssrc sn) bs)"

lemma managed_run_emits:
  assumes "mn_payload_type sn < 0x80" and "rs_socket (mn_raw_sender sn) = Some i" and "list_all (sendable \<circ> fst) sends"
  shows "managed_run dst cb sends sn ns = Some (sn\<lparr>mn_current_seq := mn_current_seq sn + word_of_nat (length sends)\<rparr>,
    ns\<lparr>ns_outstanding := ns_outstanding ns @ map (\<lambda>j. (i, SendTo (managed_datagram sn j (sends ! j)) dst cb)) [0..<length sends]\<rparr>)"
  using assms
proof (induction sends arbitrary: sn ns)
  case (Cons x sends)
  obtain bs ts m where x: "x = (bs, ts, m)" by (metis surj_pair)
  let ?sn = "sn\<lparr>mn_current_seq := mn_current_seq sn + 1\<rparr>"
  have bs: "bs \<noteq> []" "length bs < 65524" using Cons.prems(3) by (simp_all add: x sendable_def)
  have shift: "managed_datagram (sn\<lparr>mn_current_seq := 1 + mn_current_seq sn\<rparr>) j y = managed_datagram sn (Suc j) y" for j y
    by (simp add: managed_datagram_def ac_simps split: prod.split)
  have "[0..<length (x # sends)] = 0 # map Suc [0..<length sends]" by (simp add: map_Suc_upt upt_conv_Cons del: upt_Suc)
  moreover have "managed_datagram sn 0 x = rtp_bytes (mn_payload_type sn) m (mn_current_seq sn) ts (mn_ssrc sn) bs"
    by (simp add: managed_datagram_def x)
  ultimately show ?case
    using Cons.IH [of ?sn] Cons.prems managed_packet_bytes [OF Cons.prems(1) bs, of ts m]
    by (simp add: x managed_async_send_pkt_def raw_async_send_pkt_def shift comp_def ac_simps del: upt_Suc)
qed simp

lemma received_in_buffer:
  assumes "length d \<le> length (rv_rx_buffer rv)" and "receive_pkt d = Some (r, p)"
  shows "\<exists>rv'. on_received None d (Some from) (Some k) rv ns = Some (rv', ns\<lparr>ns_invoked := ns_invoked ns @ [OnReceived k r p (Some from)]\<rparr>)"
  using assms by (simp add: on_received_def invoke_callback_def)

text \<open>C33: A managed stream arrives as it was sent. Given a seven-bit payload type and a socket, every sequence of payloads that fit a packet is sent, one datagram each and in order. A
  receiver that gets the datagram of the j-th send hands its callback a parsed packet with exactly that payload, timestamp, marker, source and payload type, and with a sequence number
  j above the first one modulo 65536, so that numbers run on through the wrap and across any losses.\<close>

theorem managed_stream_received:
  assumes "mn_payload_type sn < 0x80" and "rs_socket (mn_raw_sender sn) = Some i" and "list_all (sendable \<circ> fst) sends"
    and "length (rv_rx_buffer rv) = kMaxRtpPacketSize"
  shows "\<exists>ds sn' ns'. managed_run dst cb sends sn ns = Some (sn', ns') \<and> length ds = length sends \<and>
    ns_outstanding ns' = ns_outstanding ns @ map (\<lambda>d. (i, SendTo d dst cb)) ds \<and>
    (\<forall>j < length sends. case sends ! j of (bs, timestamp, marker) \<Rightarrow>
       \<exists>rv' p. on_received None (ds ! j) (Some from) (Some k) rv ns2 = Some (rv', ns2\<lparr>ns_invoked := ns_invoked ns2 @ [OnReceived k RtpSuccess p (Some from)]\<rparr>) \<and>
         payload p = Some bs \<and> pk_fields p = empty_header\<lparr>fh_timestamp := timestamp, fh_ssrc := mn_ssrc sn,
           fh_sequence_number := mn_current_seq sn + word_of_nat j, fh_payload_type := mn_payload_type sn, fh_is_marked := marker\<rparr>)"
proof -
  define ds where "ds = map (\<lambda>j. managed_datagram sn j (sends ! j)) [0..<length sends]"
  have run: "managed_run dst cb sends sn ns = Some (sn\<lparr>mn_current_seq := mn_current_seq sn + word_of_nat (length sends)\<rparr>,
      ns\<lparr>ns_outstanding := ns_outstanding ns @ map (\<lambda>d. (i, SendTo d dst cb)) ds\<rparr>)"
    using managed_run_emits [OF assms(1-3)] by (simp add: ds_def comp_def)
  have rx: "\<exists>rv' p. on_received None (ds ! j) (Some from) (Some k) rv ns2 = Some (rv', ns2\<lparr>ns_invoked := ns_invoked ns2 @ [OnReceived k RtpSuccess p (Some from)]\<rparr>) \<and>
         payload p = Some bs \<and> pk_fields p = empty_header\<lparr>fh_timestamp := ts, fh_ssrc := mn_ssrc sn,
           fh_sequence_number := mn_current_seq sn + word_of_nat j, fh_payload_type := mn_payload_type sn, fh_is_marked := m\<rparr>"
    if j: "j < length sends" and x: "sends ! j = (bs, ts, m)" for j bs ts m
  proof -
    have d: "ds ! j = rtp_bytes (mn_payload_type sn) m (mn_current_seq sn + word_of_nat j) ts (mn_ssrc sn) bs"
      using j x by (simp add: ds_def managed_datagram_def)
    have ok: "sendable bs" using assms(3) j x by (metis comp_apply fst_conv list_all_length)
    then have len: "length (ds ! j) \<le> length (rv_rx_buffer rv)" "length bs < 65524"
      using assms(4) by (simp_all add: d sendable_def rtp_bytes_def be16_def be32_def)
    from receive_rtp_bytes [OF assms(1) len(2), of m "mn_current_seq sn + word_of_nat j" ts "mn_ssrc sn", folded d]
    show ?thesis using received_in_buffer [OF len(1), of RtpSuccess] by metis
  qed
  show ?thesis by (rule exI [of _ ds], use run rx in \<open>auto simp: ds_def split: prod.split\<close>)
qed

definition sample_sender :: rtp_sender where
  "sample_sender = \<lparr>mn_raw_sender = \<lparr>rs_executor = 0, rs_socket = Some 0\<rparr>, mn_payload_type = 8, mn_ssrc = 0xCAFE, mn_current_seq = 0xFFFF\<rparr>"

theorem managed_stream_received_witness:
  "\<exists>ds sn' ns' rv' p. managed_run (''10.0.0.2'', 5000) None [([0xD5], 160, True), ([0x55, 0x2A], 320, False)] sample_sender no_net = Some (sn', ns') \<and>
     ns_outstanding ns' = map (\<lambda>d. (0, SendTo d (''10.0.0.2'', 5000) None)) ds \<and>
     on_received None (ds ! 1) (Some (''10.0.0.1'', 4000)) (Some 7) (se_receiver (make_raw_rtp_session 0)) no_net =
       Some (rv', no_net\<lparr>ns_invoked := [OnReceived 7 RtpSuccess p (Some (''10.0.0.1'', 4000))]\<rparr>) \<and>
     payload p = Some [0x55, 0x2A] \<and> fh_sequence_number (pk_fields p) = 0"
proof -
  let ?sends = "[([0xD5], 160, True), ([0x55, 0x2A], 320, False)] :: (byte list \<times> 32 word \<times> bool) list"
  obtain ds sn' ns' where "managed_run (''10.0.0.2'', 5000) None ?sends sample_sender no_net = Some (sn', ns')"
    "ns_outstanding ns' = ns_outstanding no_net @ map (\<lambda>d. (0, SendTo d (''10.0.0.2'', 5000) None)) ds"
    and rx: "\<forall>j < length ?sends. case ?sends ! j of (bs, timestamp, marker) \<Rightarrow>
       \<exists>rv' p. on_received None (ds ! j) (Some (''10.0.0.1'', 4000)) (Some 7) (se_receiver (make_raw_rtp_session 0)) no_net =
           Some (rv', no_net\<lparr>ns_invoked := ns_invoked no_net @ [OnReceived 7 RtpSuccess p (Some (''10.0.0.1'', 4000))]\<rparr>) \<and>
         payload p = Some bs \<and> pk_fields p = empty_header\<lparr>fh_timestamp := timestamp, fh_ssrc := mn_ssrc sample_sender,
           fh_sequence_number := mn_current_seq sample_sender + word_of_nat j, fh_payload_type := mn_payload_type sample_sender, fh_is_marked := marker\<rparr>"
    using managed_stream_received [of sample_sender 0 ?sends "se_receiver (make_raw_rtp_session 0)" "(''10.0.0.2'', 5000)" None no_net "(''10.0.0.1'', 4000)" 7 no_net]
    by (auto simp: sample_sender_def sendable_def make_raw_rtp_session_def)
  moreover from rx [rule_format, of 1] obtain rv' p where
    "on_received None (ds ! 1) (Some (''10.0.0.1'', 4000)) (Some 7) (se_receiver (make_raw_rtp_session 0)) no_net =
       Some (rv', no_net\<lparr>ns_invoked := [OnReceived 7 RtpSuccess p (Some (''10.0.0.1'', 4000))]\<rparr>)"
    "payload p = Some [0x55, 0x2A]" "fh_sequence_number (pk_fields p) = 0"
    by (auto simp: no_net_def sample_sender_def)
  ultimately show ?thesis by (simp add: no_net_def, blast)
qed

subsection \<open>What the channel hands on\<close>

text \<open>What is relied on of the channel: it is a queue of bounded length, and what was offered without an error is taken without one.\<close>

definition channel_laws :: "'c channel_lib \<Rightarrow> ('c \<Rightarrow> channel_data list) \<Rightarrow> nat \<Rightarrow> bool" where
  "channel_laws ch queue cap \<longleftrightarrow>
     (\<forall>d c. fst (ch_try_send ch d c) = (length (queue c) < cap) \<and>
        queue (snd (ch_try_send ch d c)) = (if length (queue c) < cap then queue c @ [d] else queue c)) \<and>
     (\<forall>c. case ch_try_receive ch c of None \<Rightarrow> queue c = [] | Some ((err, d), c') \<Rightarrow> err = None \<and> queue c = d # queue c')"

definition handed_on :: "nat \<Rightarrow> channel_data \<Rightarrow> nat \<times> async_op" where
  "handed_on i d = (i, case cd_remote d of Some dst \<Rightarrow> SendTo (cd_buffer d) dst (cd_callback d) | None \<Rightarrow> SendConnected (cd_buffer d) (cd_callback d))"

lemma handle_packet_queues:
  "rs_socket (cn_sender cs) = Some i \<Longrightarrow> concurrent_handle_packet d cs ns = Some (ns\<lparr>ns_outstanding := ns_outstanding ns @ [handed_on i d]\<rparr>)"
  by (simp add: concurrent_handle_packet_def handed_on_def raw_async_send_pkt_def raw_async_send_connected_pkt_def split: option.split)

lemma channel_receives:
  assumes "channel_laws ch queue cap"
  shows "queue c = [] \<Longrightarrow> ch_try_receive ch c = None" "queue c = d # ds \<Longrightarrow> \<exists>c'. ch_try_receive ch c = Some ((None, d), c') \<and> queue c' = ds"
proof -
  have law: "case ch_try_receive ch c of None \<Rightarrow> queue c = [] | Some ((err, d), c') \<Rightarrow> err = None \<and> queue c = d # queue c'"
    using assms unfolding channel_laws_def by blast
  then show "queue c = [] \<Longrightarrow> ch_try_receive ch c = None" by (cases "ch_try_receive ch c") auto
  from law show "queue c = d # ds \<Longrightarrow> \<exists>c'. ch_try_receive ch c = Some ((None, d), c') \<and> queue c' = ds" by (cases "ch_try_receive ch c") auto
qed

lemma channel_loop_drains:
  assumes "channel_laws ch queue cap" and "rs_socket (cn_sender cs) = Some i" and "queue (cn_channel cs) = ds"
  shows "\<exists>c. channel_loop ch cs ns = Some (Some (cs\<lparr>cn_channel := c\<rparr>, ns\<lparr>ns_outstanding := ns_outstanding ns @ map (handed_on i) ds\<rparr>)) \<and> queue c = []"
  using assms(2,3)
proof (induction ds arbitrary: cs ns)
  case Nil
  then have "ch_try_receive ch (cn_channel cs) = None" using channel_receives(1) [OF assms(1)] by blast
  with Nil show ?case by (subst channel_loop.simps) (auto intro: exI [of _ "cn_channel cs"])
next
  case (Cons d ds)
  obtain c where rx: "ch_try_receive ch (cn_channel cs) = Some ((None, d), c)" "queue c = ds"
    using channel_receives(2) [OF assms(1) Cons.prems(2)] by blast
  with Cons.IH [of "cs\<lparr>cn_channel := c\<rparr>" "ns\<lparr>ns_outstanding := ns_outstanding ns @ [handed_on i d]\<rparr>"] Cons.prems(1) show ?case
    by (subst channel_loop.simps) (auto simp: channel_message_def handle_packet_queues)
qed

definition offer_all :: "'c channel_lib \<Rightarrow> channel_data list \<Rightarrow> 'c concurrent_sender \<times> net_state \<Rightarrow> 'c concurrent_sender \<times> net_state" where
  "offer_all ch msgs = fold (\<lambda>d (cs, ns). concurrent_async_send_pkt ch (cd_buffer d) (cd_remote d) (cd_callback d) cs ns) msgs"

lemma offer_all_queues:
  assumes "channel_laws ch queue cap"
  shows "\<exists>c. offer_all ch msgs (cs, ns) = (cs\<lparr>cn_channel := c\<rparr>, ns) \<and>
    queue c = queue (cn_channel cs) @ take (cap - length (queue (cn_channel cs))) msgs"
proof (induction msgs arbitrary: cs)
  case Nil
  show ?case by (rule exI [of _ "cn_channel cs"]) (simp add: offer_all_def)
next
  case (Cons d msgs)
  obtain b c where off: "ch_try_send ch d (cn_channel cs) = (b, c)" by fastforce
  with assms have b: "b = (length (queue (cn_channel cs)) < cap)" "queue c = (if b then queue (cn_channel cs) @ [d] else queue (cn_channel cs))"
    unfolding channel_laws_def by (metis fst_conv, metis fst_conv snd_conv)
  have whole: "\<lparr>cd_remote = cd_remote d, cd_buffer = cd_buffer d, cd_callback = cd_callback d\<rparr> = d" by simp
  have "offer_all ch (d # msgs) (cs, ns) = offer_all ch msgs (cs\<lparr>cn_channel := c\<rparr>, ns)"
    using off by (cases b) (simp_all add: offer_all_def concurrent_async_send_pkt_def post_callback_def whole)
  with Cons.IH [of "cs\<lparr>cn_channel := c\<rparr>"] b show ?case
    by (cases b) (auto simp: take_Cons' Suc_diff_Suc simp flip: diff_Suc_eq_diff_pred)
qed

text \<open>What the channel sender does with a burst. Of the packets offered to an empty channel those that fit are handed to the socket in order when its loop runs, which ends with the
  channel empty; the packets beyond the capacity leave no trace: they are not sent, and their callbacks are neither posted nor invoked.\<close>

theorem channel_burst:
  assumes "channel_laws ch queue cap" and "rs_socket (cn_sender cs) = Some i" and "queue (cn_channel cs) = []"
  shows "\<exists>cs'. (case offer_all ch msgs (cs, ns) of (cs, ns) \<Rightarrow> channel_loop ch cs ns) =
      Some (Some (cs', ns\<lparr>ns_outstanding := ns_outstanding ns @ map (handed_on i) (take cap msgs)\<rparr>)) \<and> queue (cn_channel cs') = []"
proof -
  obtain c where c: "offer_all ch msgs (cs, ns) = (cs\<lparr>cn_channel := c\<rparr>, ns)" "queue c = take cap msgs"
    using offer_all_queues [OF assms(1), of msgs cs ns] assms(3) by auto
  with channel_loop_drains [OF assms(1), of "cs\<lparr>cn_channel := c\<rparr>" i "take cap msgs" ns] assms(2) show ?thesis by auto
qed

definition sample_channel :: "channel_data list channel_lib" where
  "sample_channel = \<lparr>ch_try_send = (\<lambda>d c. if length c < 1 then (True, c @ [d]) else (False, c)),
     ch_try_receive = (\<lambda>c. case c of [] \<Rightarrow> None | d # c \<Rightarrow> Some ((None, d), c)), ch_close = (\<lambda>c. [])\<rparr>"

theorem channel_burst_witness:
  "\<exists>cs'. (case offer_all sample_channel [\<lparr>cd_remote = None, cd_buffer = [1], cd_callback = Some 1\<rparr>, \<lparr>cd_remote = None, cd_buffer = [2], cd_callback = Some 2\<rparr>]
        (\<lparr>cn_sender = \<lparr>rs_executor = 0, rs_socket = Some 0\<rparr>, cn_channel = []\<rparr>, no_net) of (cs, ns) \<Rightarrow> channel_loop sample_channel cs ns) =
      Some (Some (cs', no_net\<lparr>ns_outstanding := [(0, SendConnected [1] (Some 1))]\<rparr>))"
proof -
  have "channel_laws sample_channel (\<lambda>c. c) 1" by (auto simp: channel_laws_def sample_channel_def split: list.split)
  from channel_burst [OF this, of "\<lparr>cn_sender = \<lparr>rs_executor = 0, rs_socket = Some 0\<rparr>, cn_channel = []\<rparr>" 0
      "[\<lparr>cd_remote = None, cd_buffer = [1], cd_callback = Some 1\<rparr>, \<lparr>cd_remote = None, cd_buffer = [2], cd_callback = Some 2\<rparr>]" no_net]
  show ?thesis by (auto simp: handed_on_def no_net_def)
qed

text \<open>While a send is in progress the managed sender's bytes are allocated, owned by the completion handler. The bytes the channel sender handed to the socket are not: its
  handler owns a copy, and the storage the socket reads is gone as soon as the packet was handed on.\<close>

theorem pending_send_storage:
  "(case managed_send_buffer bytes h of (p, h') \<Rightarrow> bh_live h' (pd_span p) = Some bytes \<and> pd_owned p = pd_span p) \<and>
   (case concurrent_send_buffer bytes h of (p, h') \<Rightarrow> bh_live h' (pd_span p) = None \<and> bh_live h' (pd_owned p) = Some bytes)"
  by (simp add: managed_send_buffer_def concurrent_send_buffer_def bh_alloc_def bh_free_def)

subsection \<open>The media clock\<close>

text \<open>A number of advances by one duration.\<close>

fun advances :: "nat \<Rightarrow> int \<Rightarrow> media_clock \<Rightarrow> media_clock option" where
  "advances 0 d mc = Some mc"
| "advances (Suc n) d mc = do { (_, mc) \<leftarrow> clock_advance d mc; advances n d mc }"

lemma product_not_below: "\<not> t * uint rate < - 9223372036854775808" if "0 \<le> t" for t :: int and rate :: "32 word"
proof -
  have "0 \<le> t * uint rate" using that by simp
  then show ?thesis by linarith
qed

lemma clock_ticks_nonneg: "0 \<le> t \<Longrightarrow> t * uint rate < 2 ^ 63 \<Longrightarrow> clock_ticks rate t = Some (t * uint rate div 1000000000)"
  using product_not_below [of t rate] by (simp add: clock_ticks_def Let_def)

lemma advances_sum:
  assumes "clock_ticks (mc_sample_rate_hz mc) d = Some k"
  shows "advances n d mc = Some (mc\<lparr>mc_current_timestamp := mc_current_timestamp mc + word_of_int (int n * k)\<rparr>)"
  using assms
proof (induction n arbitrary: mc)
  case (Suc n)
  then show ?case by (simp add: clock_advance_def Let_def algebra_simps)
qed simp

text \<open>The two ways to a timestamp. As long as the elapsed time in nanoseconds times the rate stays below 2 to the power 63, the clock computes a timestamp from the elapsed time,
  and stepping it in equal durations falls behind by less than one tick per step: not at all when a step is a whole number of ticks. At and beyond that product the computation overflows a
  signed integer.\<close>

theorem media_clock_drift:
  assumes "0 \<le> d" and "d * int n * uint rate < 2 ^ 63" and "n \<ge> 1"
  shows "\<exists>behind mc. 0 \<le> behind \<and> behind < int n \<and> (1000000000 dvd d * uint rate \<longrightarrow> behind = 0) \<and> advances n d (new_clock rate offset) = Some mc \<and>
    to_rtp_timestamp (d * int n) (new_clock rate offset) = Some (mc_current_timestamp mc + word_of_int behind) \<and>
    (\<forall>t \<ge> 0. to_rtp_timestamp t (new_clock rate offset) = None \<longleftrightarrow> t * uint rate \<ge> 2 ^ 63)"
proof -
  let ?G = "1000000000 :: int" and ?x = "d * uint rate"
  have x: "0 \<le> ?x" using assms(1) by simp
  have "?x * 1 \<le> ?x * int n" using x assms(3) by (intro mult_left_mono) auto
  then have small: "?x < 2 ^ 63" using assms(2) by (simp add: ac_simps)
  define behind where "behind = d * int n * uint rate div ?G - int n * (?x div ?G)"
  have "d * int n * uint rate = int n * (?x div ?G) * ?G + int n * (?x mod ?G)"
    by (metis (no_types, lifting) div_mult_mod_eq distrib_left mult.assoc mult.commute)
  then have b: "behind = int n * (?x mod ?G) div ?G" unfolding behind_def by simp
  have "int n * (?x mod ?G) < int n * ?G" using assms(3) by (intro mult_strict_left_mono) auto
  then have bound: "0 \<le> behind" "behind < int n"
    unfolding b by (simp_all add: pos_imp_zdiv_nonneg_iff div_less_iff_less_mult)
  have "advances n d (new_clock rate offset) = Some ((new_clock rate offset)\<lparr>mc_current_timestamp := offset + word_of_int (int n * (?x div ?G))\<rparr>)"
    using advances_sum [of "new_clock rate offset" d "?x div ?G" n] clock_ticks_nonneg [OF assms(1) small] by (simp add: new_clock_def)
  moreover have "to_rtp_timestamp (d * int n) (new_clock rate offset) = Some (offset + word_of_int (int n * (?x div ?G)) + word_of_int behind)"
    using clock_ticks_nonneg [of "d * int n" rate] assms(1,2) by (simp add: to_rtp_timestamp_def new_clock_def behind_def)
  moreover have "to_rtp_timestamp t (new_clock rate offset) = None \<longleftrightarrow> t * uint rate \<ge> 2 ^ 63" if "t \<ge> 0" for t
    using that product_not_below [of t rate] by (simp add: to_rtp_timestamp_def new_clock_def clock_ticks_def Let_def)
  ultimately show ?thesis using bound b by (intro exI [of _ behind] exI conjI impI) auto
qed

theorem media_clock_drift_witness:
  "\<exists>mc. advances 50 20000000 (new_clock 8000 7) = Some mc \<and> to_rtp_timestamp 1000000000 (new_clock 8000 7) = Some (mc_current_timestamp mc) \<and>
     to_rtp_timestamp 1152921504606847 (new_clock 8000 7) = None"
proof -
  have r: "uint (8000 :: 32 word) = 8000" by simp
  from media_clock_drift [of 20000000 50 8000 7, unfolded r]
  obtain mc where "advances 50 20000000 (new_clock 8000 7) = Some mc" "to_rtp_timestamp 1000000000 (new_clock 8000 7) = Some (mc_current_timestamp mc)"
    "\<forall>t \<ge> 0. to_rtp_timestamp t (new_clock 8000 7) = None \<longleftrightarrow> t * 8000 \<ge> 2 ^ 63"
    by auto
  then show ?thesis by simp
qed

end
